(* ===== verification/Prelude.thy ===== *)
theory Prelude
  imports Main "HOL-Library.Word"
begin

text \<open>
  Shared vocabulary of the development: the machine types of the Go program (bytes, times,
  durations, 64-bit integers), the string functions of Go's \<open>strings\<close>, \<open>strconv\<close> and
  \<open>net\<close> packages that the code calls, the outcome type of code that may panic, and the
  collections of rewrite rules the component theories fill and use.

  Go strings are byte sequences, so they are HOL strings (lists of 8-bit characters) and
  \<open>length\<close> is Go's \<open>len\<close>.  A \<open>time.Time\<close> is the number of nanoseconds since Go's zero time,
  so \<open>IsZero\<close> is equality with 0; a \<open>time.Duration\<close> is a number of nanoseconds.
\<close>

named_theorems http_simps \<open>rewrite rules of the HTTP vocabulary: headers, writers, contexts\<close>
named_theorems mw_defs \<open>definitions of the middleware functions\<close>

section \<open>Types\<close>

type_synonym byte = "8 word"
type_synonym go_time = int
type_synonym duration = int
type_synonym int64 = "64 word"

abbreviation second :: duration where "second \<equiv> 1000000000"
abbreviation minute :: duration where "minute \<equiv> 60 * second"
abbreviation hour :: duration where "hour \<equiv> 60 * minute"

definition is_zero_time :: "go_time \<Rightarrow> bool" where
  "is_zero_time t \<longleftrightarrow> t = 0"

text \<open>
  Code that may panic ends in \<open>Done\<close> with the final state or in \<open>Panicked\<close> with the panic
  value and the state at the point of the panic (Go does not undo effects).
\<close>

datatype 'w hres = Done 'w | Panicked string 'w

fun hres_state :: "'w hres \<Rightarrow> 'w" where
  "hres_state (Done s) = s"
| "hres_state (Panicked _ s) = s"

fun panics :: "'w hres \<Rightarrow> bool" where
  "panics (Done _) = False"
| "panics (Panicked _ _) = True"

text \<open>Sequencing: a panic skips what follows (no deferred call is involved).\<close>

fun and_then :: "'w hres \<Rightarrow> ('w \<Rightarrow> 'w hres) \<Rightarrow> 'w hres" where
  "and_then (Done s) f = f s"
| "and_then (Panicked p s) f = Panicked p s"

lemma and_then_assoc [simp]: "and_then (and_then r f) g = and_then r (\<lambda>s. and_then (f s) g)"
  by (cases r) simp_all

lemma and_then_Done [simp]: "and_then r Done = r"
  by (cases r) simp_all

lemma panics_and_then: "panics (and_then r f) \<longleftrightarrow> panics r \<or> panics (f (hres_state r))"
  by (cases r) simp_all

section \<open>Strings\<close>

definition has_prefix :: "string \<Rightarrow> string \<Rightarrow> bool" where
  "has_prefix s p \<longleftrightarrow> take (length p) s = p"

lemma has_prefix_iff: "has_prefix s p \<longleftrightarrow> (\<exists>t. s = p @ t)"
  unfolding has_prefix_def by (metis append_eq_conv_conj append_take_drop_id)

lemma has_prefix_append [simp]: "has_prefix (p @ t) p"
  by (simp add: has_prefix_def)

lemma has_prefix_Nil [simp]: "has_prefix s []"
  by (simp add: has_prefix_def)

lemma has_prefix_Cons [simp]:
  "has_prefix (c # s) (d # p) \<longleftrightarrow> c = d \<and> has_prefix s p" "\<not> has_prefix [] (d # p)"
  by (auto simp: has_prefix_def)

text \<open>\<open>strings.TrimPrefix\<close>.\<close>

definition trim_prefix :: "string \<Rightarrow> string \<Rightarrow> string" where
  "trim_prefix s p = (if has_prefix s p then drop (length p) s else s)"

lemma trim_prefix_append [simp]: "trim_prefix (p @ t) p = t"
  by (simp add: trim_prefix_def)

text \<open>\<open>strings.Contains\<close>.\<close>

fun contains :: "string \<Rightarrow> string \<Rightarrow> bool" where
  "contains [] sub \<longleftrightarrow> sub = []"
| "contains (c # cs) sub \<longleftrightarrow> has_prefix (c # cs) sub \<or> contains cs sub"

lemma contains_iff: "contains s sub \<longleftrightarrow> (\<exists>u v. s = u @ sub @ v)"
proof (induction s)
  case (Cons c s)
  have "(\<exists>u v. c # s = u @ sub @ v) \<longleftrightarrow> has_prefix (c # s) sub \<or> (\<exists>u v. s = u @ sub @ v)"
    (is "?l \<longleftrightarrow> ?r")
  proof
    assume ?l
    then obtain u v where "c # s = u @ sub @ v" by blast
    then show ?r by (cases u) (auto simp: has_prefix_iff)
  next
    assume ?r
    then show ?l
      by (metis append_Cons append_Nil has_prefix_iff)
  qed
  with Cons.IH show ?case by simp
qed simp

text \<open>\<open>strings.Cut\<close> with a one-character separator: \<open>None\<close> when it does not occur.\<close>

fun cut :: "string \<Rightarrow> char \<Rightarrow> (string \<times> string) option" where
  "cut [] sep = None"
| "cut (c # cs) sep =
     (if c = sep then Some ([], cs)
      else case cut cs sep of None \<Rightarrow> None | Some (a, b) \<Rightarrow> Some (c # a, b))"

lemma cut_SomeD: "cut s sep = Some (a, b) \<Longrightarrow> s = a @ sep # b \<and> sep \<notin> set a"
proof (induction s arbitrary: a)
  case (Cons c s)
  show ?case
  proof (cases "c = sep")
    case True
    with Cons.prems show ?thesis by simp
  next
    case False
    with Cons.prems obtain a' where "cut s sep = Some (a', b)" and "a = c # a'"
      by (auto split: option.split_asm)
    with Cons.IH False show ?thesis by simp
  qed
qed simp

lemma cut_append: "sep \<notin> set a \<Longrightarrow> cut (a @ sep # b) sep = Some (a, b)"
  by (induction a) auto

lemma cut_None: "cut s sep = None \<longleftrightarrow> sep \<notin> set s"
proof (induction s)
  case (Cons c s)
  then show ?case by (cases "cut s sep") auto
qed simp

text \<open>\<open>strings.Join\<close>.\<close>

fun join :: "string list \<Rightarrow> string \<Rightarrow> string" where
  "join [] sep = []"
| "join [s] sep = s"
| "join (s # t # ss) sep = s @ sep @ join (t # ss) sep"

text \<open>
  \<open>strings.TrimSpace\<close>.  \<open>space_len\<close> is the length of the UTF-8 encoding of the white space
  rune at the head of the string, 0 when there is none; \<open>space_len_rev\<close> is the same at the end
  of the string, read backwards.  The runes are those of Go's \<open>unicode.IsSpace\<close>.
\<close>

definition ascii_space :: "nat \<Rightarrow> bool" where
  "ascii_space n \<longleftrightarrow> 9 \<le> n \<and> n \<le> 13 \<or> n = 32"

definition space3 :: "nat \<Rightarrow> nat \<Rightarrow> nat \<Rightarrow> bool" where
  "space3 a b c \<longleftrightarrow>
     a = 225 \<and> b = 154 \<and> c = 128 \<or>
     a = 226 \<and> b = 128 \<and> (128 \<le> c \<and> c \<le> 138 \<or> c = 168 \<or> c = 169 \<or> c = 175) \<or>
     a = 226 \<and> b = 129 \<and> c = 159 \<or>
     a = 227 \<and> b = 128 \<and> c = 128"

fun space_len :: "nat list \<Rightarrow> nat" where
  "space_len (a # b # c # ns) =
     (if ascii_space a then 1 else if a = 194 \<and> (b = 133 \<or> b = 160) then 2
      else if space3 a b c then 3 else 0)"
| "space_len [a, b] =
     (if ascii_space a then 1 else if a = 194 \<and> (b = 133 \<or> b = 160) then 2 else 0)"
| "space_len [a] = (if ascii_space a then 1 else 0)"
| "space_len [] = 0"

fun space_len_rev :: "nat list \<Rightarrow> nat" where
  "space_len_rev (c # b # a # ns) =
     (if ascii_space c then 1 else if b = 194 \<and> (c = 133 \<or> c = 160) then 2
      else if space3 a b c then 3 else 0)"
| "space_len_rev [b, a] =
     (if ascii_space b then 1 else if a = 194 \<and> (b = 133 \<or> b = 160) then 2 else 0)"
| "space_len_rev [a] = (if ascii_space a then 1 else 0)"
| "space_len_rev [] = 0"

function trim_with :: "(nat list \<Rightarrow> nat) \<Rightarrow> string \<Rightarrow> string" where
  "trim_with f [] = []"
| "trim_with f (c # cs) =
     (case f (map of_char (c # cs)) of 0 \<Rightarrow> c # cs | Suc n \<Rightarrow> trim_with f (drop n cs))"
  by pat_completeness auto
termination
  by (relation "measure (\<lambda>(f, s). length s)") auto

definition trim_space :: "string \<Rightarrow> string" where
  "trim_space s = rev (trim_with space_len_rev (rev (trim_with space_len s)))"

lemma trim_with_suffix: "\<exists>p. s = p @ trim_with f s"
proof (induction f s rule: trim_with.induct)
  case (2 f c cs)
  show ?case
  proof (cases "f (map of_char (c # cs))")
    case (Suc n)
    with "2.IH" obtain p where "drop n cs = p @ trim_with f (drop n cs)" by blast
    then have "c # cs = (c # take n cs @ p) @ trim_with f (drop n cs)"
      by (metis append.assoc append_Cons append_take_drop_id)
    moreover from Suc have "trim_with f (c # cs) = trim_with f (drop n cs)"
      by simp
    ultimately show ?thesis by metis
  qed auto
qed simp

text \<open>\<open>strconv.Itoa\<close>.\<close>

definition digit_char :: "nat \<Rightarrow> char" where
  "digit_char d = char_of (48 + d)"

fun nat_digits :: "nat \<Rightarrow> string" where
  "nat_digits n = (if n < 10 then [digit_char n] else nat_digits (n div 10) @ [digit_char (n mod 10)])"

declare nat_digits.simps [simp del]

definition itoa :: "int \<Rightarrow> string" where
  "itoa n = (if n < 0 then CHR ''-'' # nat_digits (nat (- n)) else nat_digits (nat n))"

section \<open>Machine integers\<close>

text \<open>
  Fields of type \<open>int64\<close> that the program only stores, compares and copies are kept as
  mathematical integers in the two's complement range; \<open>wrap64\<close> is the wrap-around of an
  arithmetic result.
\<close>

definition min_int64 :: int where "min_int64 = - (2 ^ 63)"
definition max_int64 :: int where "max_int64 = 2 ^ 63 - 1"

definition in_int64 :: "int \<Rightarrow> bool" where
  "in_int64 n \<longleftrightarrow> min_int64 \<le> n \<and> n \<le> max_int64"

definition wrap64 :: "int \<Rightarrow> int" where
  "wrap64 n = (n + 2 ^ 63) mod 2 ^ 64 - 2 ^ 63"

lemma wrap64_in_int64: "in_int64 (wrap64 n)"
  using pos_mod_bound [of "2 ^ 64" "n + 2 ^ 63"] pos_mod_sign [of "2 ^ 64" "n + 2 ^ 63"]
  by (simp add: in_int64_def wrap64_def min_int64_def max_int64_def)

lemma wrap64_id: "in_int64 n \<Longrightarrow> wrap64 n = n"
  by (simp add: in_int64_def wrap64_def min_int64_def max_int64_def)

section \<open>Lists and options\<close>

lemma find_append: "find P (xs @ ys) = (case find P xs of None \<Rightarrow> find P ys | Some x \<Rightarrow> Some x)"
  by (induction xs) simp_all

lemma find_SomeD: "find P xs = Some x \<Longrightarrow> P x \<and> x \<in> set xs"
  by (auto simp: find_Some_iff)

lemma find_NoneD: "find P xs = None \<Longrightarrow> x \<in> set xs \<Longrightarrow> \<not> P x"
  by (simp add: find_None_iff)

lemma nth_append_length_eq: "n = length xs \<Longrightarrow> (xs @ [x]) ! n = x"
  by simp

end
