(* ===== verification/Context.thy ===== *)
theory Context
  imports Prelude
begin

text \<open>
  \<open>context.Context\<close> values and the accessors the packages define over them:
  \<^item> \<open>httputil/context.go\<close>: the generic typed keys (\<open>ctx_get\<close>, \<open>ctx_set\<close>, \<open>RequestID_key\<close>);
  \<^item> \<open>auth/user.go\<close>: the authenticated user (\<open>SetUser\<close>, \<open>GetUser\<close>, \<open>MustGetUser\<close>,
    \<open>IsAuthenticated\<close>) and the role test \<open>HasRole\<close>;
  \<^item> \<open>session/session.go\<close>: the session pointer (\<open>NewContext\<close>, \<open>FromContext\<close>);
  \<^item> \<open>middleware/context_detect.go\<close> and \<open>middleware/csrf.go\<close>: the request context and the
    CSRF token;
  \<^item> \<open>db/conn.go\<close> and \<open>db/bob.go\<close>: the transaction (\<open>contextWithConn\<close>, \<open>ConnFromContext\<close>,
    \<open>ExecutorFromContext\<close>).
  A context is the chain of \<open>context.WithValue\<close> calls that made it; the lookup finds the
  innermost binding of a key.  The locale \<open>context_accessor\<close> states what a pair of accessors
  owes its users, and every pair above is an interpretation of it.
\<close>

section \<open>The values a context carries\<close>

text \<open>\<open>auth.User\<close>.\<close>

record user =
  user_ID :: int
  user_Email :: string
  user_Name :: string
  user_Roles :: "string list"

text \<open>\<open>middleware.RequestContext\<close>; its zero value is SSR.\<close>

datatype request_context = ContextSSR | ContextAPI

text \<open>
  The dynamic type of a stored connection: a \<open>*sql.Tx\<close> (with an identity) or some other
  implementation of \<open>db.Conn\<close>.
\<close>

datatype conn = SqlTx nat | OtherConn nat

datatype go_type = GoString | GoInt | GoBool

text \<open>
  Keys are compared by dynamic type and value.  \<open>CtxKey T name\<close> is \<open>httputil.CtxKey[T]\<close>; the
  other keys are the packages' unexported empty struct types.
\<close>

datatype ctx_key =
    CtxKey go_type string
  | UserContextKey
  | SessionContextKey
  | RequestContextKey
  | CSRFContextKey
  | TxContextKey

text \<open>Stored values with their dynamic type; a pointer is \<open>None\<close> when it is nil.\<close>

datatype ctx_val =
    CtxString string
  | CtxInt int
  | CtxBool bool
  | CtxUser "user option"
  | CtxSession "nat option"
  | CtxRequestContext request_context
  | CtxConn conn

datatype go_context = Background | WithValue go_context ctx_key ctx_val

fun ctx_value :: "go_context \<Rightarrow> ctx_key \<Rightarrow> ctx_val option" where
  "ctx_value Background k = None"
| "ctx_value (WithValue c k' v) k = (if k = k' then Some v else ctx_value c k)"

section \<open>httputil: typed keys\<close>

text \<open>The type assertion \<open>.(T)\<close> for the types a typed key may have.\<close>

fun val_type :: "ctx_val \<Rightarrow> go_type option" where
  "val_type (CtxString _) = Some GoString"
| "val_type (CtxInt _) = Some GoInt"
| "val_type (CtxBool _) = Some GoBool"
| "val_type _ = None"

definition ctx_get :: "go_context \<Rightarrow> go_type \<Rightarrow> string \<Rightarrow> ctx_val option" where
  "ctx_get c t name =
     (case ctx_value c (CtxKey t name) of
        Some v \<Rightarrow> (if val_type v = Some t then Some v else None)
      | None \<Rightarrow> None)"

definition ctx_set :: "go_context \<Rightarrow> go_type \<Rightarrow> string \<Rightarrow> ctx_val \<Rightarrow> go_context" where
  "ctx_set c t name v = WithValue c (CtxKey t name) v"

definition RequestID_key :: "go_type \<times> string" where
  "RequestID_key = (GoString, ''request_id'')"

definition set_request_id :: "go_context \<Rightarrow> string \<Rightarrow> go_context" where
  "set_request_id c rid = ctx_set c (fst RequestID_key) (snd RequestID_key) (CtxString rid)"

definition get_request_id :: "go_context \<Rightarrow> string option" where
  "get_request_id c =
     (case ctx_get c (fst RequestID_key) (snd RequestID_key) of
        Some (CtxString s) \<Rightarrow> Some s | _ \<Rightarrow> None)"

section \<open>auth: the user in the context\<close>

definition SetUser :: "go_context \<Rightarrow> user option \<Rightarrow> go_context" where
  "SetUser c u = WithValue c UserContextKey (CtxUser u)"

definition GetUser :: "go_context \<Rightarrow> user option" where
  "GetUser c = (case ctx_value c UserContextKey of Some (CtxUser u) \<Rightarrow> u | _ \<Rightarrow> None)"

text \<open>\<open>Inl\<close> is the panic.\<close>

definition MustGetUser :: "go_context \<Rightarrow> string + user" where
  "MustGetUser c = (case GetUser c of None \<Rightarrow> Inl ''auth: no user in context'' | Some u \<Rightarrow> Inr u)"

definition IsAuthenticated :: "go_context \<Rightarrow> bool" where
  "IsAuthenticated c \<longleftrightarrow> GetUser c \<noteq> None"

fun has_role_loop :: "string list \<Rightarrow> string \<Rightarrow> bool" where
  "has_role_loop [] role = False"
| "has_role_loop (r # rs) role = (if r = role then True else has_role_loop rs role)"

definition HasRole :: "user \<Rightarrow> string \<Rightarrow> bool" where
  "HasRole u role = has_role_loop (user_Roles u) role"

lemma HasRole_iff: "HasRole u role \<longleftrightarrow> role \<in> set (user_Roles u)"
proof -
  have "has_role_loop rs role \<longleftrightarrow> role \<in> set rs" for rs by (induction rs) auto
  then show ?thesis by (simp add: HasRole_def)
qed

section \<open>session, middleware: session pointer, request context, CSRF token\<close>

definition NewContext :: "go_context \<Rightarrow> nat option \<Rightarrow> go_context" where
  "NewContext c p = WithValue c SessionContextKey (CtxSession p)"

definition FromContext :: "go_context \<Rightarrow> nat option" where
  "FromContext c = (case ctx_value c SessionContextKey of Some (CtxSession p) \<Rightarrow> p | _ \<Rightarrow> None)"

definition set_request_context :: "go_context \<Rightarrow> request_context \<Rightarrow> go_context" where
  "set_request_context c rc = WithValue c RequestContextKey (CtxRequestContext rc)"

definition GetRequestContext :: "go_context \<Rightarrow> request_context" where
  "GetRequestContext c =
     (case ctx_value c RequestContextKey of Some (CtxRequestContext rc) \<Rightarrow> rc | _ \<Rightarrow> ContextSSR)"

fun rc_String :: "request_context \<Rightarrow> string" where
  "rc_String ContextAPI = ''api''"
| "rc_String ContextSSR = ''ssr''"

definition setCSRFToken :: "go_context \<Rightarrow> string \<Rightarrow> go_context" where
  "setCSRFToken c t = WithValue c CSRFContextKey (CtxString t)"

definition GetCSRFToken :: "go_context \<Rightarrow> string" where
  "GetCSRFToken c = (case ctx_value c CSRFContextKey of Some (CtxString t) \<Rightarrow> t | _ \<Rightarrow> [])"

section \<open>db: the transaction in the context\<close>

definition contextWithConn :: "go_context \<Rightarrow> conn \<Rightarrow> go_context" where
  "contextWithConn c k = WithValue c TxContextKey (CtxConn k)"

definition ConnFromContext :: "go_context \<Rightarrow> conn \<Rightarrow> conn" where
  "ConnFromContext c fallback =
     (case ctx_value c TxContextKey of Some (CtxConn k) \<Rightarrow> k | _ \<Rightarrow> fallback)"

text \<open>\<open>bob.NewTx\<close> and \<open>bob.NewDB\<close> wrap a handle; the executor is identified by what it wraps.\<close>

datatype 'db executor = BobTx nat | Fallback 'db

definition ExecutorFromContext :: "go_context \<Rightarrow> 'db \<Rightarrow> 'db executor" where
  "ExecutorFromContext c fallback =
     (case ctx_value c TxContextKey of
        None \<Rightarrow> Fallback fallback
      | Some (CtxConn (SqlTx i)) \<Rightarrow> BobTx i
      | Some _ \<Rightarrow> Fallback fallback)"

section \<open>The accessor contract\<close>

locale context_accessor =
  fixes key :: ctx_key
    and put :: "go_context \<Rightarrow> 'v \<Rightarrow> go_context"
    and get :: "go_context \<Rightarrow> 'r"
    and view :: "'v \<Rightarrow> 'r"
  assumes put_binds: "\<exists>x. put c v = WithValue c key x"
    and get_put: "get (put c v) = view v"
    and get_skip: "k \<noteq> key \<Longrightarrow> get (WithValue c k x) = get c"
begin

lemma get_put_put: "get (put (put c v) w) = view w"
  by (rule get_put)

text \<open>Any reader that ignores this key does not see the write.\<close>

lemma put_frame: "(\<And>d x. other (WithValue d key x) = other d) \<Longrightarrow> other (put c v) = other c"
  using put_binds [of c v] by metis

lemma value_other: "k \<noteq> key \<Longrightarrow> ctx_value (put c v) k = ctx_value c k"
  using put_binds [of c v] by auto

end

interpretation request_id: context_accessor "CtxKey GoString ''request_id''"
    set_request_id get_request_id Some
  by unfold_locales
    (auto simp: set_request_id_def get_request_id_def ctx_set_def ctx_get_def RequestID_key_def)

interpretation user_ctx: context_accessor UserContextKey SetUser GetUser "\<lambda>u. u"
  by unfold_locales (auto simp: SetUser_def GetUser_def)

interpretation session_ctx: context_accessor SessionContextKey NewContext FromContext "\<lambda>p. p"
  by unfold_locales (auto simp: NewContext_def FromContext_def)

interpretation rc_ctx: context_accessor RequestContextKey set_request_context GetRequestContext
    "\<lambda>rc. rc"
  by unfold_locales (auto simp: set_request_context_def GetRequestContext_def)

interpretation csrf_ctx: context_accessor CSRFContextKey setCSRFToken GetCSRFToken "\<lambda>t. t"
  by unfold_locales (auto simp: setCSRFToken_def GetCSRFToken_def)

interpretation tx_ctx: context_accessor TxContextKey contextWithConn
    "\<lambda>c. ConnFromContext c fallback" "\<lambda>k. k" for fallback
  by unfold_locales (auto simp: contextWithConn_def ConnFromContext_def)

text \<open>The frame rules of all pairs, as rewrite rules.\<close>

lemmas ctx_put_simps [http_simps] =
  request_id.get_put user_ctx.get_put session_ctx.get_put rc_ctx.get_put csrf_ctx.get_put
  tx_ctx.get_put

lemma ctx_frames [http_simps]:
  "GetUser (set_request_id c rid) = GetUser c"
  "GetUser (NewContext c p) = GetUser c"
  "GetUser (set_request_context c rc) = GetUser c"
  "GetUser (setCSRFToken c t) = GetUser c"
  "FromContext (set_request_id c rid) = FromContext c"
  "FromContext (SetUser c u) = FromContext c"
  "FromContext (set_request_context c rc) = FromContext c"
  "FromContext (setCSRFToken c t) = FromContext c"
  "GetRequestContext (set_request_id c rid) = GetRequestContext c"
  "GetRequestContext (SetUser c u) = GetRequestContext c"
  "GetRequestContext (NewContext c p) = GetRequestContext c"
  "GetRequestContext (setCSRFToken c t) = GetRequestContext c"
  "GetCSRFToken (set_request_id c rid) = GetCSRFToken c"
  "GetCSRFToken (SetUser c u) = GetCSRFToken c"
  "GetCSRFToken (NewContext c p) = GetCSRFToken c"
  "GetCSRFToken (set_request_context c rc) = GetCSRFToken c"
  by (simp_all add: request_id.put_frame session_ctx.put_frame rc_ctx.put_frame csrf_ctx.put_frame
      user_ctx.put_frame user_ctx.get_skip session_ctx.get_skip rc_ctx.get_skip csrf_ctx.get_skip)

lemma get_request_id_frames [http_simps]:
  "get_request_id (SetUser c u) = get_request_id c"
  "get_request_id (NewContext c p) = get_request_id c"
  "get_request_id (set_request_context c rc) = get_request_id c"
  "get_request_id (setCSRFToken c t) = get_request_id c"
  by (simp_all add: user_ctx.put_frame session_ctx.put_frame rc_ctx.put_frame csrf_ctx.put_frame
      request_id.get_skip)

text \<open>Typed keys with the same name and different types do not collide.\<close>

lemma ctx_get_set: "val_type v = Some t \<Longrightarrow> ctx_get (ctx_set c t n v) t n = Some v"
  by (simp add: ctx_get_def ctx_set_def)

lemma ctx_get_set_other: "(t, n) \<noteq> (t', n') \<Longrightarrow> ctx_get (ctx_set c t' n' v) t n = ctx_get c t n"
  by (auto simp: ctx_get_def ctx_set_def)

lemma IsAuthenticated_SetUser [http_simps]: "IsAuthenticated (SetUser c u) \<longleftrightarrow> u \<noteq> None"
  by (simp add: IsAuthenticated_def user_ctx.get_put)

lemma MustGetUser_iff: "MustGetUser c = Inr u \<longleftrightarrow> GetUser c = Some u"
  by (simp add: MustGetUser_def split: option.splits)

text \<open>The executor and the connection agree: both follow the innermost transaction.\<close>

lemma ExecutorFromContext_tx: "ExecutorFromContext (contextWithConn c (SqlTx i)) fb = BobTx i"
  by (simp add: ExecutorFromContext_def contextWithConn_def)

end
