(* ===== verification/Encoding.thy ===== *)
theory Encoding
  imports Prelude
begin

text \<open>
  The two byte encodings of Go's standard library the program uses for identifiers and cookie
  values: \<open>hex.EncodeToString\<close> and \<open>base64.URLEncoding\<close> (with padding).  The lemmas give the
  length and injectivity of the first and the round trip of the second.
\<close>

section \<open>encoding/hex\<close>

definition hex_alphabet :: string where
  "hex_alphabet = ''0123456789abcdef''"

definition hex_byte :: "byte \<Rightarrow> string" where
  "hex_byte b = [hex_alphabet ! (unat b div 16), hex_alphabet ! (unat b mod 16)]"

definition hex_encode :: "byte list \<Rightarrow> string" where
  "hex_encode bs = concat (map hex_byte bs)"

lemma hex_alphabet_distinct: "distinct hex_alphabet"
  by (simp add: hex_alphabet_def)

lemma length_hex_alphabet [simp]: "length hex_alphabet = 16"
  by (simp add: hex_alphabet_def)

lemma unat_byte_less: "unat (b :: byte) < 256"
  using unsigned_less [of b] by simp

lemma length_hex_byte [simp]: "length (hex_byte b) = 2"
  by (simp add: hex_byte_def)

lemma length_hex_encode [simp]: "length (hex_encode bs) = 2 * length bs"
  by (induction bs) (simp_all add: hex_encode_def)

lemma hex_byte_inj: "hex_byte a = hex_byte b \<Longrightarrow> a = b"
proof -
  assume eq: "hex_byte a = hex_byte b"
  have lt: "unat a div 16 < 16" "unat b div 16 < 16"
    using unat_byte_less [of a] unat_byte_less [of b] by simp_all
  from eq have "unat a div 16 = unat b div 16" "unat a mod 16 = unat b mod 16"
    using lt nth_eq_iff_index_eq [OF hex_alphabet_distinct]
    by (simp_all add: hex_byte_def)
  then have "unat a = unat b"
    by (metis div_mult_mod_eq)
  then show "a = b" by (simp add: word_unat_eq_iff)
qed

lemma hex_encode_inj: "hex_encode as = hex_encode bs \<longleftrightarrow> as = bs"
proof
  show "hex_encode as = hex_encode bs \<Longrightarrow> as = bs"
  proof (induction as arbitrary: bs)
    case Nil
    then show ?case by (cases bs) (simp_all add: hex_encode_def hex_byte_def)
  next
    case (Cons a as)
    then obtain b bs' where bs: "bs = b # bs'"
      using length_hex_encode [of "a # as"] length_hex_encode [of bs] by (cases bs) auto
    with Cons.prems have "hex_byte a = hex_byte b \<and> hex_encode as = hex_encode bs'"
      by (simp add: hex_encode_def hex_byte_def)
    then show ?case using Cons.IH bs hex_byte_inj by blast
  qed
qed simp

section \<open>encoding/base64, the URL alphabet\<close>

definition b64_alphabet :: string where
  "b64_alphabet = ''ABCDEFGHIJKLMNOPQRSTUVWXYZabcdefghijklmnopqrstuvwxyz0123456789-_''"

definition b64_char :: "nat \<Rightarrow> char" where
  "b64_char n = b64_alphabet ! n"

definition b64_val :: "char \<Rightarrow> nat option" where
  "b64_val c = map_of (zip b64_alphabet [0..<64]) c"

fun b64_encode :: "byte list \<Rightarrow> string" where
  "b64_encode [] = []"
| "b64_encode [a] =
     [b64_char (unat a div 4), b64_char (unat a mod 4 * 16), CHR ''='', CHR ''='']"
| "b64_encode [a, b] =
     [b64_char (unat a div 4), b64_char (unat a mod 4 * 16 + unat b div 16),
      b64_char (unat b mod 16 * 4), CHR ''='']"
| "b64_encode (a # b # c # bs) =
     b64_char (unat a div 4) # b64_char (unat a mod 4 * 16 + unat b div 16) #
     b64_char (unat b mod 16 * 4 + unat c div 64) # b64_char (unat c mod 64) # b64_encode bs"

text \<open>
  The decoder reads groups of four characters; padding may only end the last group.  Go's
  decoder skips carriage returns and line feeds and does not check the unused bits of a padded
  group.
\<close>

definition byte1 :: "nat \<Rightarrow> nat \<Rightarrow> byte" where "byte1 w x = word_of_nat (w * 4 + x div 16)"
definition byte2 :: "nat \<Rightarrow> nat \<Rightarrow> byte" where "byte2 x y = word_of_nat (x mod 16 * 16 + y div 4)"
definition byte3 :: "nat \<Rightarrow> nat \<Rightarrow> byte" where "byte3 y z = word_of_nat (y mod 4 * 64 + z)"

fun b64_groups :: "string \<Rightarrow> byte list option" where
  "b64_groups [] = Some []"
| "b64_groups (w # x # y # z # cs) =
     (case (b64_val w, b64_val x) of
        (Some w, Some x) \<Rightarrow>
          (case (b64_val y, b64_val z) of
             (Some y, Some z) \<Rightarrow>
               map_option (\<lambda>bs. byte1 w x # byte2 x y # byte3 y z # bs) (b64_groups cs)
           | (Some y, None) \<Rightarrow>
               (if z = CHR ''='' \<and> cs = [] then Some [byte1 w x, byte2 x y] else None)
           | (None, _) \<Rightarrow>
               (if y = CHR ''='' \<and> z = CHR ''='' \<and> cs = [] then Some [byte1 w x] else None))
      | _ \<Rightarrow> None)"
| "b64_groups _ = None"

definition b64_decode :: "string \<Rightarrow> byte list option" where
  "b64_decode s = b64_groups (filter (\<lambda>c. c \<noteq> CHR 0x0A \<and> c \<noteq> CHR 0x0D) s)"

lemma length_b64_alphabet [simp]: "length b64_alphabet = 64"
  by (simp add: b64_alphabet_def)

lemma b64_alphabet_distinct: "distinct b64_alphabet"
  by (simp add: b64_alphabet_def)

lemma b64_val_char [simp]: "n < 64 \<Longrightarrow> b64_val (b64_char n) = Some n"
  unfolding b64_val_def b64_char_def
  using map_of_zip_nth [of b64_alphabet "[0..<64]" n] b64_alphabet_distinct by simp

lemma b64_val_pad [simp]: "b64_val (CHR ''='') = None"
proof -
  have "CHR ''='' \<notin> set b64_alphabet" by (simp add: b64_alphabet_def)
  then show ?thesis by (simp add: b64_val_def map_of_zip_is_None)
qed

lemma b64_char_in: "n < 64 \<Longrightarrow> b64_char n \<in> set b64_alphabet"
  by (simp add: b64_char_def)

lemma b64_char_not_newline [simp]:
  "n < 64 \<Longrightarrow> b64_char n \<noteq> CHR 0x0A" "n < 64 \<Longrightarrow> b64_char n \<noteq> CHR 0x0D"
proof -
  have "CHR 0x0A \<notin> set b64_alphabet" "CHR 0x0D \<notin> set b64_alphabet"
    by (simp_all add: b64_alphabet_def)
  then show "n < 64 \<Longrightarrow> b64_char n \<noteq> CHR 0x0A" "n < 64 \<Longrightarrow> b64_char n \<noteq> CHR 0x0D"
    using b64_char_in by metis+
qed

text \<open>The six-bit digits are in range and the bytes come back.\<close>

lemma sextet_bounds [simp]:
  fixes a b c :: byte
  shows "unat a div 4 < 64" "unat a mod 4 * 16 < 64" "unat a mod 4 * 16 + unat b div 16 < 64"
    "unat b mod 16 * 4 < 64" "unat b mod 16 * 4 + unat c div 64 < 64" "unat c mod 64 < 64"
proof -
  note l = unat_byte_less [of a] unat_byte_less [of b] unat_byte_less [of c]
  show "unat a div 4 < 64" using l by simp
  show "unat a mod 4 * 16 < 64" by simp
  have "unat a mod 4 \<le> 3" "unat b div 16 < 16" using l by simp_all
  then show "unat a mod 4 * 16 + unat b div 16 < 64" by linarith
  show "unat b mod 16 * 4 < 64" by simp
  have "unat b mod 16 \<le> 15" "unat c div 64 < 4" using l by simp_all
  then show "unat b mod 16 * 4 + unat c div 64 < 64" by linarith
  show "unat c mod 64 < 64" by simp
qed

lemma byte_back [simp]:
  fixes a b c :: byte
  shows "byte1 (unat a div 4) (unat a mod 4 * 16) = a"
    "byte1 (unat a div 4) (unat a mod 4 * 16 + unat b div 16) = a"
    "byte2 (unat a mod 4 * 16 + unat b div 16) (unat b mod 16 * 4) = b"
    "byte2 (unat a mod 4 * 16 + unat b div 16) (unat b mod 16 * 4 + unat c div 64) = b"
    "byte3 (unat b mod 16 * 4 + unat c div 64) (unat c mod 64) = c"
proof -
  have l: "unat b div 16 < 16" "unat c div 64 < 4"
    using unat_byte_less [of b] unat_byte_less [of c] by simp_all
  have e: "(x * 16 + y) div 16 = x" "(x * 16 + y) mod 16 = y" if "y < 16" for x y :: nat
    using that by simp_all
  have f: "(x * 4 + y) div 4 = x" "(x * 4 + y) mod 4 = y" if "y < 4" for x y :: nat
    using that by simp_all
  show "byte1 (unat a div 4) (unat a mod 4 * 16) = a"
    by (simp add: byte1_def)
  show "byte1 (unat a div 4) (unat a mod 4 * 16 + unat b div 16) = a"
    by (simp only: byte1_def e [OF l(1)] div_mult_mod_eq) simp
  show "byte2 (unat a mod 4 * 16 + unat b div 16) (unat b mod 16 * 4) = b"
    by (simp only: byte2_def e [OF l(1)]) simp
  show "byte2 (unat a mod 4 * 16 + unat b div 16) (unat b mod 16 * 4 + unat c div 64) = b"
    by (simp only: byte2_def e [OF l(1)] f [OF l(2)] div_mult_mod_eq) simp
  show "byte3 (unat b mod 16 * 4 + unat c div 64) (unat c mod 64) = c"
    by (simp only: byte3_def f [OF l(2)] div_mult_mod_eq) simp
qed

lemma b64_groups_encode: "b64_groups (b64_encode bs) = Some bs"
  by (induction bs rule: b64_encode.induct) simp_all

lemma b64_encode_no_newline:
  "filter (\<lambda>c. c \<noteq> CHR 0x0A \<and> c \<noteq> CHR 0x0D) (b64_encode bs) = b64_encode bs"
  by (induction bs rule: b64_encode.induct) simp_all

lemma b64_roundtrip [simp]: "b64_decode (b64_encode bs) = Some bs"
  by (simp add: b64_decode_def b64_encode_no_newline b64_groups_encode)

lemma b64_encode_eq_Nil [simp]: "b64_encode bs = [] \<longleftrightarrow> bs = []"
  by (cases bs rule: b64_encode.cases) simp_all

lemma b64_encode_inj: "b64_encode as = b64_encode bs \<longleftrightarrow> as = bs"
  by (metis b64_roundtrip option.inject)

section \<open>crypto/rand\<close>

text \<open>
  The random source is the supply of bytes it will deliver; a read that the supply cannot serve
  is the read's error.  \<open>io.ReadFull (rand.Reader, b)\<close> and \<open>rand.Read b\<close> both fill the slice or
  fail.
\<close>

definition rand_read :: "nat \<Rightarrow> byte list \<Rightarrow> (byte list \<times> byte list) option" where
  "rand_read n supply =
     (if length supply < n then None else Some (take n supply, drop n supply))"

lemma rand_read_Some:
  "rand_read n supply = Some (b, rest) \<longleftrightarrow> length b = n \<and> supply = b @ rest"
  by (auto simp: rand_read_def)

lemma rand_read_None: "rand_read n supply = None \<longleftrightarrow> length supply < n"
  by (simp add: rand_read_def)

end
