(* ===== verification/Auth.thy ===== *)
theory Auth
  imports Context Encoding "HOL-Library.Countable"
begin

text \<open>
  \<open>auth/token.go\<close>, \<open>auth/password.go\<close>, \<open>auth/rbac.go\<close> and \<open>auth/policy.go\<close>.  The JWT library and
  bcrypt are parameters (records of their entry points); \<open>jwt_ok\<close> and \<open>bcrypt_ok\<close> state what
  their documentation promises.  The locale \<open>password_hasher\<close> is the interface
  \<open>PasswordHasher\<close> with its laws, interpreted by \<open>BcryptHasher\<close>.
\<close>

section \<open>Tokens\<close>

record TokenPair =
  tp_AccessToken :: string
  tp_RefreshToken :: string
  tp_ExpiresIn :: int
  tp_TokenType :: string

text \<open>
  The claims the program sets; the other registered claims stay empty in its tokens and are not
  read.
\<close>

record TokenClaims =
  tc_IssuedAt :: "go_time option"
  tc_ExpiresAt :: "go_time option"
  tc_UserID :: int
  tc_Email :: string
  tc_Roles :: "string list"

record TokenService =
  ts_secretKey :: "byte list"
  ts_accessLifetime :: duration

text \<open>
  The signing method named in a token's header: one of the HMAC family with its \<open>alg\<close> name, or
  another method (\<open>none\<close>, RSA, ECDSA).
\<close>

datatype sign_method = HMAC string | OtherMethod string

fun alg_name :: "sign_method \<Rightarrow> string" where
  "alg_name (HMAC a) = a"
| "alg_name (OtherMethod a) = a"

record jwt_lib =
  jwt_NumericDate :: "go_time \<Rightarrow> go_time"
  jwt_SignedString :: "sign_method \<Rightarrow> byte list \<Rightarrow> TokenClaims \<Rightarrow> string + string"
  jwt_ParseWithClaims ::
    "go_time \<Rightarrow> string \<Rightarrow> (sign_method \<Rightarrow> string + byte list) \<Rightarrow> string + (TokenClaims \<times> bool)"
  jwt_signature_ok :: "sign_method \<Rightarrow> byte list \<Rightarrow> string \<Rightarrow> bool"

definition NewTokenService :: "byte list \<Rightarrow> duration \<Rightarrow> TokenService" where
  "NewTokenService secretKey accessLifetime =
     \<lparr>ts_secretKey = secretKey, ts_accessLifetime = accessLifetime\<rparr>"

definition GenerateAccessToken :: "jwt_lib \<Rightarrow> TokenService \<Rightarrow> go_time \<Rightarrow> user \<Rightarrow> string + string" where
  "GenerateAccessToken L ts now u =
     (let claims =
        \<lparr>tc_IssuedAt = Some (jwt_NumericDate L now),
         tc_ExpiresAt = Some (jwt_NumericDate L (now + ts_accessLifetime ts)),
         tc_UserID = user_ID u, tc_Email = user_Email u, tc_Roles = user_Roles u\<rparr>
      in jwt_SignedString L (HMAC ''HS256'') (ts_secretKey ts) claims)"

definition token_keyfunc :: "TokenService \<Rightarrow> sign_method \<Rightarrow> string + byte list" where
  "token_keyfunc ts m =
     (case m of
        HMAC _ \<Rightarrow> Inr (ts_secretKey ts)
      | OtherMethod a \<Rightarrow> Inl (''auth: unexpected signing method: '' @ alg_name m))"

definition ValidateAccessToken ::
    "jwt_lib \<Rightarrow> TokenService \<Rightarrow> go_time \<Rightarrow> string \<Rightarrow> string + TokenClaims" where
  "ValidateAccessToken L ts now tokenStr =
     (case jwt_ParseWithClaims L now tokenStr (token_keyfunc ts) of
        Inl err \<Rightarrow> Inl (''auth: validate token: '' @ err)
      | Inr (claims, valid) \<Rightarrow>
          (if \<not> valid then Inl ''auth: invalid token claims'' else Inr claims))"

definition GenerateRefreshToken :: "byte list \<Rightarrow> (string + string) \<times> byte list" where
  "GenerateRefreshToken supply =
     (case rand_read 32 supply of
        None \<Rightarrow> (Inl ''unexpected EOF'', [])
      | Some (b, rest) \<Rightarrow> (Inr (hex_encode b), rest))"

text \<open>
  What the library promises: a token it signed is parsed back (text claims in ASCII) by whoever
  hands out the same key, until the expiry time; what it accepts is not expired and carries a
  signature that is good under the key handed out for the method in its header.
\<close>

definition claims_expired :: "go_time \<Rightarrow> TokenClaims \<Rightarrow> bool" where
  "claims_expired now c = (case tc_ExpiresAt c of None \<Rightarrow> False | Some e \<Rightarrow> e \<le> now)"

definition text_ok :: "string \<Rightarrow> bool" where
  "text_ok s \<longleftrightarrow> list_all (\<lambda>c. (of_char c :: nat) < 128) s"

definition jwt_ok :: "jwt_lib \<Rightarrow> bool" where
  "jwt_ok L \<longleftrightarrow>
     (\<forall>t. jwt_NumericDate L t \<le> t \<and> t < jwt_NumericDate L t + second) \<and>
     (\<forall>a k c s now kf.
        jwt_SignedString L (HMAC a) k c = Inr s \<and> kf (HMAC a) = Inr k \<and> \<not> claims_expired now c \<and>
        text_ok (tc_Email c) \<and> list_all text_ok (tc_Roles c) \<longrightarrow>
          jwt_ParseWithClaims L now s kf = Inr (c, True)) \<and>
     (\<forall>now s kf c v. jwt_ParseWithClaims L now s kf = Inr (c, v) \<longrightarrow>
        \<not> claims_expired now c \<and> (\<exists>m k. kf m = Inr k \<and> jwt_signature_ok L m k s))"

section \<open>Lemmas on tokens\<close>

lemma token_keyfunc_Inr: "token_keyfunc ts m = Inr k \<longleftrightarrow> (\<exists>a. m = HMAC a) \<and> k = ts_secretKey ts"
  by (cases m) (auto simp: token_keyfunc_def)

lemma jwt_NumericDate_bounds:
  "jwt_ok L \<Longrightarrow> jwt_NumericDate L t \<le> t \<and> t - second < jwt_NumericDate L t"
  by (auto simp: jwt_ok_def algebra_simps)

lemma jwt_parse_signed:
  "jwt_ok L \<Longrightarrow> jwt_SignedString L (HMAC a) k c = Inr s \<Longrightarrow> kf (HMAC a) = Inr k \<Longrightarrow>
   \<not> claims_expired now c \<Longrightarrow> text_ok (tc_Email c) \<Longrightarrow> list_all text_ok (tc_Roles c) \<Longrightarrow>
   jwt_ParseWithClaims L now s kf = Inr (c, True)"
  by (simp add: jwt_ok_def)

lemma jwt_parse_sound:
  "jwt_ok L \<Longrightarrow> jwt_ParseWithClaims L now s kf = Inr (c, v) \<Longrightarrow>
     \<not> claims_expired now c \<and> (\<exists>m k. kf m = Inr k \<and> jwt_signature_ok L m k s)"
  unfolding jwt_ok_def by blast

lemma Generate_Validate:
  assumes "jwt_ok L" "GenerateAccessToken L ts now u = Inr s"
    and "text_ok (user_Email u)" "list_all text_ok (user_Roles u)"
    and "later \<le> now + ts_accessLifetime ts - second"
  shows "\<exists>c. ValidateAccessToken L ts later s = Inr c \<and>
    tc_UserID c = user_ID u \<and> tc_Email c = user_Email u \<and> tc_Roles c = user_Roles u"
proof -
  let ?c = "\<lparr>tc_IssuedAt = Some (jwt_NumericDate L now),
         tc_ExpiresAt = Some (jwt_NumericDate L (now + ts_accessLifetime ts)),
         tc_UserID = user_ID u, tc_Email = user_Email u, tc_Roles = user_Roles u\<rparr>"
  have "\<not> claims_expired later ?c"
    using jwt_NumericDate_bounds [OF assms(1), of "now + ts_accessLifetime ts"] assms(5)
    by (simp add: claims_expired_def)
  with assms have "jwt_ParseWithClaims L later s (token_keyfunc ts) = Inr (?c, True)"
    by (intro jwt_parse_signed [where a = "''HS256''" and k = "ts_secretKey ts"])
      (simp_all add: GenerateAccessToken_def token_keyfunc_Inr)
  then show ?thesis by (simp add: ValidateAccessToken_def)
qed

lemma Validate_sound:
  assumes "jwt_ok L" "ValidateAccessToken L ts now s = Inr c"
  shows "\<not> claims_expired now c \<and> (\<exists>a. jwt_signature_ok L (HMAC a) (ts_secretKey ts) s)"
proof -
  from assms(2) obtain v where "jwt_ParseWithClaims L now s (token_keyfunc ts) = Inr (c, v)"
    by (auto simp: ValidateAccessToken_def split: sum.splits prod.splits if_splits)
  from jwt_parse_sound [OF assms(1) this] show ?thesis by (auto simp: token_keyfunc_Inr)
qed

text \<open>
  The key function accepts the whole HMAC family, not only HS256: a token signed with another
  HMAC method under the same key is valid.
\<close>

lemma other_hmac_accepted:
  assumes "jwt_ok L" "jwt_SignedString L (HMAC ''HS512'') (ts_secretKey ts) c = Inr s"
    and "\<not> claims_expired now c" "text_ok (tc_Email c)" "list_all text_ok (tc_Roles c)"
  shows "ValidateAccessToken L ts now s = Inr c"
proof -
  have "token_keyfunc ts (HMAC ''HS512'') = Inr (ts_secretKey ts)" by (simp add: token_keyfunc_def)
  from jwt_parse_signed [where kf = "token_keyfunc ts", OF assms(1,2) this assms(3-5)]
  show ?thesis by (simp add: ValidateAccessToken_def)
qed

lemma GenerateRefreshToken_len:
  "32 \<le> length supply \<Longrightarrow>
     \<exists>t. GenerateRefreshToken supply = (Inr t, drop 32 supply) \<and> length t = 64"
  by (simp add: GenerateRefreshToken_def rand_read_def)

section \<open>Properties of tokens\<close>

text \<open>
  A library with the promised behaviour: the token is its contents, numbered in unary.
\<close>

instance sign_method :: countable by countable_datatype

definition claims_tuple where
  "claims_tuple m k c = (m, k, tc_IssuedAt c, tc_ExpiresAt c, tc_UserID c, tc_Email c, tc_Roles c)"

definition tuple_claims where
  "tuple_claims x = (case x of (m :: sign_method, k :: byte list, iat, ex, uid, email, roles) \<Rightarrow>
     (m, k, \<lparr>tc_IssuedAt = iat, tc_ExpiresAt = ex, tc_UserID = uid, tc_Email = email, tc_Roles = roles\<rparr>))"

definition unary_jwt :: jwt_lib where
  "unary_jwt =
     \<lparr>jwt_NumericDate = (\<lambda>t. t div second * second),
      jwt_SignedString = (\<lambda>m k c. Inr (replicate (to_nat (claims_tuple m k c)) CHR ''x'')),
      jwt_ParseWithClaims = (\<lambda>now s kf.
        case tuple_claims (from_nat (length s)) of (m, k, c) \<Rightarrow>
          (case kf m of
             Inl e \<Rightarrow> Inl e
           | Inr k' \<Rightarrow> (if k' = k \<and> \<not> claims_expired now c then Inr (c, True) else Inl ''invalid''))),
      jwt_signature_ok = (\<lambda>m k s. \<exists>c. tuple_claims (from_nat (length s)) = (m, k, c))\<rparr>"

lemma tuple_claims_inverse [simp]: "tuple_claims (claims_tuple m k c) = (m, k, c)"
  by (simp add: claims_tuple_def tuple_claims_def)

lemma unary_jwt_ok: "jwt_ok unary_jwt"
proof -
  have "t div second * second \<le> t \<and> t < t div second * second + second" for t :: int
    using div_mult_mod_eq [of t second] pos_mod_bound [of second t] pos_mod_sign [of second t] by linarith
  then show ?thesis
    unfolding jwt_ok_def unary_jwt_def by (auto split: prod.splits sum.splits if_splits)
qed

definition sample_user :: user where
  "sample_user = \<lparr>user_ID = 7, user_Email = ''a@b.io'', user_Name = ''A'', user_Roles = [''admin'']\<rparr>"

text \<open>C33. Tokens round trip: an access token issued to a user is accepted by the same service until
  a second before its lifetime ends (the expiry is cut to whole seconds), and gives back the
  user's identifier, email and roles.\<close>

theorem Token_roundtrip:
  assumes "jwt_ok L" "GenerateAccessToken L ts now u = Inr s"
    and "text_ok (user_Email u)" "list_all text_ok (user_Roles u)"
    and "later \<le> now + ts_accessLifetime ts - second"
  shows "\<exists>c. ValidateAccessToken L ts later s = Inr c \<and>
    tc_UserID c = user_ID u \<and> tc_Email c = user_Email u \<and> tc_Roles c = user_Roles u"
  using assms by (rule Generate_Validate)

theorem Token_roundtrip_witness:
  "\<exists>s c. GenerateAccessToken unary_jwt (NewTokenService [1, 2] hour) 0 sample_user = Inr s \<and>
     ValidateAccessToken unary_jwt (NewTokenService [1, 2] hour) minute s = Inr c \<and> tc_UserID c = 7"
proof -
  obtain s where s: "GenerateAccessToken unary_jwt (NewTokenService [1, 2] hour) 0 sample_user = Inr s"
    by (simp add: GenerateAccessToken_def unary_jwt_def Let_def)
  have "text_ok (user_Email sample_user)" "list_all text_ok (user_Roles sample_user)"
    "minute \<le> 0 + ts_accessLifetime (NewTokenService [1, 2] hour) - second"
    by (simp_all add: sample_user_def text_ok_def NewTokenService_def)
  from Token_roundtrip [OF unary_jwt_ok s this] s show ?thesis by (auto simp: sample_user_def)
qed

text \<open>C5. Only genuine tokens are accepted: whatever string a client sends, if it is accepted then
  it has not expired and its signature is good under the service's secret with a method of the
  HMAC family; \<open>none\<close> and public-key methods are refused.\<close>

theorem Token_sound:
  assumes "jwt_ok L" "ValidateAccessToken L ts now s = Inr c"
  shows "\<not> claims_expired now c \<and> (\<exists>a. jwt_signature_ok L (HMAC a) (ts_secretKey ts) s)"
  using assms by (rule Validate_sound)

theorem Token_sound_witness:
  "\<exists>s c. ValidateAccessToken unary_jwt (NewTokenService [1, 2] hour) minute s = Inr c \<and>
     \<not> claims_expired minute c \<and> (\<exists>a. jwt_signature_ok unary_jwt (HMAC a) [1, 2] s)"
proof -
  obtain s where s: "GenerateAccessToken unary_jwt (NewTokenService [1, 2] hour) 0 sample_user = Inr s"
    by (simp add: GenerateAccessToken_def unary_jwt_def Let_def)
  have "text_ok (user_Email sample_user)" "list_all text_ok (user_Roles sample_user)"
    "minute \<le> 0 + ts_accessLifetime (NewTokenService [1, 2] hour) - second"
    by (simp_all add: sample_user_def text_ok_def NewTokenService_def)
  from Generate_Validate [OF unary_jwt_ok s this] obtain c where
    c: "ValidateAccessToken unary_jwt (NewTokenService [1, 2] hour) minute s = Inr c" by blast
  from Token_sound [OF unary_jwt_ok c] c show ?thesis by (auto simp: NewTokenService_def)
qed

section \<open>Passwords\<close>

record bcrypt_lib =
  bc_Generate :: "byte list \<Rightarrow> int \<Rightarrow> byte list \<Rightarrow> (string + byte list) \<times> byte list"
  bc_Compare :: "byte list \<Rightarrow> byte list \<Rightarrow> string option"

definition DefaultCost :: int where "DefaultCost = 10"

text \<open>bcrypt hashes passwords of up to 72 bytes and recognises what it hashed.\<close>

definition bcrypt_ok :: "bcrypt_lib \<Rightarrow> bool" where
  "bcrypt_ok L \<longleftrightarrow>
     (\<forall>p cost supply h rest. bc_Generate L p cost supply = (Inr h, rest) \<longrightarrow>
        length p \<le> 72 \<and> bc_Compare L h p = None)"

record BcryptHasher =
  bh_cost :: int

definition NewBcryptHasher :: "int \<Rightarrow> BcryptHasher" where
  "NewBcryptHasher cost = (if cost = 0 then \<lparr>bh_cost = DefaultCost\<rparr> else \<lparr>bh_cost = cost\<rparr>)"

definition bytes_of :: "string \<Rightarrow> byte list" where "bytes_of s = map of_char s"
definition string_of :: "byte list \<Rightarrow> string" where "string_of b = map (\<lambda>x. char_of (unat x)) b"

definition Hash ::
    "bcrypt_lib \<Rightarrow> BcryptHasher \<Rightarrow> string \<Rightarrow> byte list \<Rightarrow> (string + string) \<times> byte list" where
  "Hash L h password supply =
     (if length password < 8 then (Inl ''auth: password must be at least 8 characters'', supply)
      else case bc_Generate L (bytes_of password) (bh_cost h) supply of
             (Inl err, rest) \<Rightarrow> (Inl (''auth: bcrypt hash: '' @ err), rest)
           | (Inr hash, rest) \<Rightarrow> (Inr (string_of hash), rest))"

definition Verify :: "bcrypt_lib \<Rightarrow> BcryptHasher \<Rightarrow> string \<Rightarrow> string \<Rightarrow> string option" where
  "Verify L h password hash = bc_Compare L (bytes_of hash) (bytes_of password)"

definition DefaultPasswordHasher :: BcryptHasher where
  "DefaultPasswordHasher = NewBcryptHasher 0"

text \<open>
  The interface \<open>PasswordHasher\<close>: \<open>hash\<close> may fail and uses random bytes, \<open>verify\<close> returns an error
  or \<open>None\<close>; \<open>lawful\<close> is what the implementation needs of its own library.
\<close>

locale password_hasher =
  fixes lawful :: bool
    and hash :: "string \<Rightarrow> byte list \<Rightarrow> (string + string) \<times> byte list"
    and verify :: "string \<Rightarrow> string \<Rightarrow> string option"
    and min_len :: nat
  assumes verify_hash: "lawful \<Longrightarrow> hash p e = (Inr h, e') \<Longrightarrow> verify p h = None"
    and short: "length p < min_len \<Longrightarrow> \<exists>err. hash p e = (Inl err, e)"
begin

lemma hash_long: "hash p e = (Inr h, e') \<Longrightarrow> min_len \<le> length p"
  using short [of p e] by (cases "length p < min_len") auto

end

lemma char_of_unat_byte: "of_char (char_of (unat x) :: char) = (x :: byte)"
proof -
  have "unat x < 256" by (rule order_less_le_trans [OF unsigned_less]) simp
  then have "(of_char (char_of (unat x) :: char) :: nat) = unat x" by simp
  then have "of_nat (of_char (char_of (unat x) :: char)) = (of_nat (unat x) :: byte)" by (rule arg_cong)
  then show ?thesis unfolding of_nat_of_char by simp
qed

lemma bytes_of_string_of [simp]: "bytes_of (string_of b) = b"
  by (induction b) (simp_all add: bytes_of_def string_of_def char_of_unat_byte)

interpretation bcrypt: password_hasher "bcrypt_ok L" "Hash L h" "Verify L h" 8 for L h
proof unfold_locales
  show "Verify L h p hs = None" if "bcrypt_ok L" "Hash L h p e = (Inr hs, e')" for p e hs e'
  proof -
    from that(2) obtain raw where "bc_Generate L (bytes_of p) (bh_cost h) e = (Inr raw, e')" "hs = string_of raw"
      by (auto simp: Hash_def split: if_splits prod.splits sum.splits)
    moreover from that(1) this(1) have "bc_Compare L raw (bytes_of p) = None"
      unfolding bcrypt_ok_def by metis
    ultimately show ?thesis by (simp add: Verify_def)
  qed
  show "\<exists>err. Hash L h p e = (Inl err, e)" if "length p < 8" for p e
    using that by (simp add: Hash_def)
qed

section \<open>Roles, permissions, actions\<close>

record role =
  role_Name :: string
  role_Permissions :: "string list"

definition RoleAdmin :: string where "RoleAdmin = ''admin''"
definition RoleEditor :: string where "RoleEditor = ''editor''"
definition RoleViewer :: string where "RoleViewer = ''viewer''"
definition PermCreate :: string where "PermCreate = ''create''"
definition PermRead :: string where "PermRead = ''read''"
definition PermUpdate :: string where "PermUpdate = ''update''"
definition PermDelete :: string where "PermDelete = ''delete''"
definition ActionView :: string where "ActionView = ''view''"
definition ActionCreate :: string where "ActionCreate = ''create''"
definition ActionUpdate :: string where "ActionUpdate = ''update''"
definition ActionDelete :: string where "ActionDelete = ''delete''"

end
