(* ===== verification/Reflect.thy ===== *)
theory Reflect
  imports Prelude
begin

text \<open>
  What \<open>form.Bind\<close> and \<open>config.MustBind\<close> see of a struct through \<open>reflect\<close>: the list of its
  fields in declaration order, each with its tags, its type, its value and whether it can be set
  (exported fields only).
\<close>

datatype field_type = TString | TInt | TInt64 | TDuration | TBool | TOther string

datatype field_value = FString string | FInt int | FBool bool | FOther

record struct_field =
  fd_Name :: string
  fd_Tags :: "(string \<times> string) list"
  fd_Type :: field_type
  fd_CanSet :: bool
  fd_Value :: field_value

text \<open>A value passed as \<open>any\<close>: a pointer to a struct, or anything else.\<close>

datatype reflect_dst = PtrStruct "struct_field list" | NotStructPtr

definition Tag_Get :: "struct_field \<Rightarrow> string \<Rightarrow> string" where
  "Tag_Get f k = (case map_of (fd_Tags f) k of None \<Rightarrow> [] | Some v \<Rightarrow> v)"

definition typed :: "struct_field \<Rightarrow> bool" where
  "typed f \<longleftrightarrow>
     (case fd_Type f of
        TString \<Rightarrow> (\<exists>s. fd_Value f = FString s)
      | TInt \<Rightarrow> (\<exists>n. fd_Value f = FInt n \<and> in_int64 n)
      | TInt64 \<Rightarrow> (\<exists>n. fd_Value f = FInt n \<and> in_int64 n)
      | TDuration \<Rightarrow> (\<exists>n. fd_Value f = FInt n \<and> in_int64 n)
      | TBool \<Rightarrow> (\<exists>b. fd_Value f = FBool b)
      | TOther _ \<Rightarrow> True)"

definition string_field :: "string \<Rightarrow> (string \<times> string) list \<Rightarrow> string \<Rightarrow> struct_field" where
  "string_field name tags v =
     \<lparr>fd_Name = name, fd_Tags = tags, fd_Type = TString, fd_CanSet = True, fd_Value = FString v\<rparr>"

definition field_string :: "struct_field list \<Rightarrow> nat \<Rightarrow> string" where
  "field_string fs i = (case fd_Value (fs ! i) of FString s \<Rightarrow> s | _ \<Rightarrow> [])"

end
