(* ===== verification/Session.thy ===== *)
theory Session
  imports Encoding "HOL-Library.AList"
begin

text \<open>
  \<open>session/session.go\<close>: the session object and its operations.  A session is reached through a
  pointer in the request context, so the operations here are the state transformers of the
  object; the heap that holds it is in theory Http.  The data map is an association list with
  distinct keys, or \<open>None\<close> for Go's nil map; its values are the dynamic types Go stores there.
\<close>

section \<open>Values of type any\<close>

text \<open>
  A \<open>float64\<close> is the exact binary fraction \<open>m / 2 ^ k\<close> it denotes; \<open>VOpaque\<close> is a value that
  \<open>encoding/json\<close> cannot encode (a function, a channel).
\<close>

datatype f64 = F64 int nat

datatype go_any =
    VNil
  | VString string
  | VBool bool
  | VInt int
  | VInt64 int
  | VFloat64 f64
  | VList "go_any list"
  | VMap "(string \<times> go_any) list"
  | VOpaque nat

text \<open>
  The nearest \<open>float64\<close> of an integer, ties to even: 53 significant bits.
\<close>

fun bit_length :: "nat \<Rightarrow> nat" where
  "bit_length n = (if n = 0 then 0 else Suc (bit_length (n div 2)))"

declare bit_length.simps [simp del]

definition round_nat53 :: "nat \<Rightarrow> nat" where
  "round_nat53 a =
     (if a \<le> 2 ^ 53 then a
      else let p = 2 ^ (bit_length a - 53); q = a div p; r = a mod p;
               q' = (if p < 2 * r \<or> (2 * r = p \<and> odd q) then Suc q else q)
           in q' * p)"

definition f64_of_int :: "int \<Rightarrow> f64" where
  "f64_of_int n = F64 (sgn n * int (round_nat53 (nat \<bar>n\<bar>))) 0"

text \<open>
  The conversion \<open>int64 (v)\<close> of a \<open>float64\<close>: truncation towards zero; out of range it is the
  most negative value, as on the amd64 target.
\<close>

fun int64_of_f64 :: "f64 \<Rightarrow> int" where
  "int64_of_f64 (F64 m k) =
     (let t = sgn m * (\<bar>m\<bar> div 2 ^ k) in if in_int64 t then t else min_int64)"

lemma f64_small: "\<bar>n\<bar> \<le> 2 ^ 53 \<Longrightarrow> f64_of_int n = F64 n 0"
  by (simp add: f64_of_int_def round_nat53_def nat_le_iff sgn_mult_abs)

lemma int64_f64_small: "\<bar>n\<bar> \<le> 2 ^ 53 \<Longrightarrow> int64_of_f64 (f64_of_int n) = n"
proof -
  assume "\<bar>n\<bar> \<le> 2 ^ 53"
  then have "- (2 ^ 53) \<le> n" "n \<le> 2 ^ 53" by linarith+
  then have "in_int64 n" by (simp add: in_int64_def min_int64_def max_int64_def)
  with \<open>\<bar>n\<bar> \<le> 2 ^ 53\<close> show ?thesis by (simp add: f64_small sgn_mult_abs)
qed

section \<open>The session object\<close>

record session =
  s_ID :: string
  s_Data :: "(string \<times> go_any) list option"
  s_UserID :: int
  s_CreatedAt :: go_time
  s_ExpiresAt :: go_time
  s_IsNew :: bool
  s_destroyed :: bool
  s_regenerated :: bool
  s_oldID :: string
  s_modified :: bool
  s_maxAge :: int

text \<open>Reading \<open>s.Data [key]\<close>: a nil map has no keys.\<close>

definition data_get :: "session \<Rightarrow> string \<Rightarrow> go_any option" where
  "data_get s k = (case s_Data s of None \<Rightarrow> None | Some m \<Rightarrow> map_of m k)"

definition GetString :: "session \<Rightarrow> string \<Rightarrow> string" where
  "GetString s k =
     (case s_Data s of
        None \<Rightarrow> []
      | Some m \<Rightarrow> (case map_of m k of Some (VString v) \<Rightarrow> v | _ \<Rightarrow> []))"

definition sess_Set :: "string \<Rightarrow> go_any \<Rightarrow> session \<Rightarrow> session" where
  "sess_Set k v s =
     (let m = (case s_Data s of None \<Rightarrow> [] | Some m \<Rightarrow> m)
      in s\<lparr>s_Data := Some (AList.update k v m), s_modified := True\<rparr>)"

text \<open>
  \<open>GenerateID\<close> draws 32 bytes; it panics when the random source fails.  The second component
  is what is left of the supply.
\<close>

definition GenerateID :: "byte list \<Rightarrow> string + (string \<times> byte list)" where
  "GenerateID supply =
     (case rand_read 32 supply of
        None \<Rightarrow>
          Inl (''session: failed to generate ID: '' @
               (if supply = [] then ''EOF'' else ''unexpected EOF''))
      | Some (b, rest) \<Rightarrow> Inr (hex_encode b, rest))"

definition Regenerate :: "session \<times> byte list \<Rightarrow> (session \<times> byte list) hres" where
  "Regenerate st =
     (let s = (fst st)\<lparr>s_oldID := s_ID (fst st)\<rparr>
      in case GenerateID (snd st) of
           Inl p \<Rightarrow> Panicked p (s, snd st)
         | Inr (i, rest) \<Rightarrow>
             Done (s\<lparr>s_ID := i, s_regenerated := True, s_modified := True\<rparr>, rest))"

definition Destroy :: "session \<Rightarrow> session" where
  "Destroy s = s\<lparr>s_destroyed := True, s_modified := True\<rparr>"

text \<open>
  The product of the duration conversion is taken in \<open>int64\<close> and wraps.
\<close>

definition SetMaxAge :: "int \<Rightarrow> go_time \<Rightarrow> session \<Rightarrow> session" where
  "SetMaxAge seconds now s =
     s\<lparr>s_maxAge := seconds, s_ExpiresAt := now + wrap64 (seconds * second), s_modified := True\<rparr>"

definition IsDestroyed :: "session \<Rightarrow> bool" where "IsDestroyed s = s_destroyed s"
definition IsRegenerated :: "session \<Rightarrow> bool" where "IsRegenerated s = s_regenerated s"
definition OldID :: "session \<Rightarrow> string" where "OldID s = s_oldID s"
definition IsModified :: "session \<Rightarrow> bool" where "IsModified s = s_modified s"
definition MaxAge :: "session \<Rightarrow> int" where "MaxAge s = s_maxAge s"

text \<open>The store interface of the package: the operations a server-side store must provide.\<close>

record 'st store =
  store_Get :: "string \<Rightarrow> 'st \<Rightarrow> (string + session) \<times> 'st"
  store_Save :: "session \<Rightarrow> 'st \<Rightarrow> string option \<times> 'st"
  store_Delete :: "string \<Rightarrow> 'st \<Rightarrow> string option \<times> 'st"
  store_GC :: "'st \<Rightarrow> string option \<times> 'st"

section \<open>Properties\<close>

text \<open>
  The data map behaves as a key-value store; the operations touch nothing else they do not
  name.
\<close>

definition session_ok :: "session \<Rightarrow> bool" where
  "session_ok s \<longleftrightarrow> (case s_Data s of None \<Rightarrow> True | Some m \<Rightarrow> distinct (map fst m))"

lemma data_get_Set [simp]: "data_get (sess_Set k v s) k' = (if k' = k then Some v else data_get s k')"
  by (auto simp: data_get_def sess_Set_def Let_def update_conv' split: option.splits)

lemma session_ok_Set: "session_ok s \<Longrightarrow> session_ok (sess_Set k v s)"
  by (auto simp: session_ok_def sess_Set_def Let_def distinct_update split: option.splits)

lemma GetString_data_get:
  "GetString s k = (case data_get s k of Some (VString v) \<Rightarrow> v | _ \<Rightarrow> [])"
  by (simp add: GetString_def data_get_def split: option.splits)

lemma GetString_Set [simp]: "GetString (sess_Set k (VString v) s) k = v"
  by (simp add: GetString_data_get)

lemma GetString_Set_other [simp]: "k' \<noteq> k \<Longrightarrow> GetString (sess_Set k v s) k' = GetString s k'"
  by (simp add: GetString_data_get)

lemma Set_frame [simp]:
  "s_ID (sess_Set k v s) = s_ID s" "s_UserID (sess_Set k v s) = s_UserID s"
  "s_CreatedAt (sess_Set k v s) = s_CreatedAt s" "s_ExpiresAt (sess_Set k v s) = s_ExpiresAt s"
  "s_IsNew (sess_Set k v s) = s_IsNew s" "s_destroyed (sess_Set k v s) = s_destroyed s"
  "s_maxAge (sess_Set k v s) = s_maxAge s" "s_modified (sess_Set k v s)"
  "s_regenerated (sess_Set k v s) = s_regenerated s" "s_oldID (sess_Set k v s) = s_oldID s"
  by (simp_all add: sess_Set_def Let_def)

lemma GenerateID_Inr:
  "GenerateID supply = Inr (i, rest) \<Longrightarrow> length i = 64 \<and> supply = take 32 supply @ rest"
  by (auto simp: GenerateID_def rand_read_def split: option.splits if_splits)

lemma GenerateID_total: "32 \<le> length supply \<Longrightarrow>
    GenerateID supply = Inr (hex_encode (take 32 supply), drop 32 supply)"
  by (simp add: GenerateID_def rand_read_def)

text \<open>Distinct random bytes give distinct identifiers.\<close>

lemma GenerateID_distinct:
  "32 \<le> length a \<Longrightarrow> 32 \<le> length b \<Longrightarrow> take 32 a \<noteq> take 32 b \<Longrightarrow>
   (\<exists>i j. GenerateID a = Inr (i, drop 32 a) \<and> GenerateID b = Inr (j, drop 32 b) \<and> i \<noteq> j)"
  by (simp add: GenerateID_total hex_encode_inj)

lemma Regenerate_Done:
  "Regenerate (s, supply) = Done (s', rest) \<Longrightarrow>
     s_oldID s' = s_ID s \<and> s_Data s' = s_Data s \<and> s_modified s' \<and> s_regenerated s' \<and>
     length (s_ID s') = 64 \<and> s_destroyed s' = s_destroyed s \<and> s_maxAge s' = s_maxAge s"
  by (auto simp: Regenerate_def Let_def GenerateID_Inr split: sum.splits prod.splits)

end
