(* ===== verification/CookieStore.thy ===== *)
theory CookieStore
  imports Session "HOL-Library.Monad_Syntax" "HOL-Library.Countable"
begin

text \<open>
  \<open>session/cookie_store.go\<close>: sessions encrypted into a cookie value and back.  The
  authenticated cipher (\<open>crypto/aes\<close>, \<open>crypto/cipher\<close>) and the JSON text format
  (\<open>encoding/json\<close> on the value level, RFC 3339 times) are parameters, the records \<open>aead\<close> and
  \<open>json_codec\<close>; \<open>aead_ok\<close> and \<open>json_ok\<close> state what is documented of them.  What the program
  itself chooses is modelled: the fields of the payload and their JSON names, \<open>omitempty\<close>, the
  dynamic types JSON values decode to (every number a \<open>float64\<close>), the nonce prefix, the length
  check and the expiry check.  The main result is the round trip \<open>Decode_Encode\<close>.
\<close>

section \<open>JSON values\<close>

text \<open>
  \<open>JInt\<close> is a number literal without fraction and exponent, \<open>JFlt\<close> any other number literal,
  read as the nearest \<open>float64\<close>.
\<close>

datatype json =
    JNull
  | JBool bool
  | JInt int
  | JFlt f64
  | JStr string
  | JArr "json list"
  | JObj "(string \<times> json) list"

text \<open>
  \<open>json.Marshal\<close> of a value of type \<open>any\<close>; it writes a float that is an integer below
  \<open>10 ^ 21\<close> without a fraction.  \<open>None\<close> is the unsupported type error.
\<close>

fun json_of_any :: "go_any \<Rightarrow> json option" where
  "json_of_any VNil = Some JNull"
| "json_of_any (VString s) = Some (JStr s)"
| "json_of_any (VBool b) = Some (JBool b)"
| "json_of_any (VInt n) = Some (JInt n)"
| "json_of_any (VInt64 n) = Some (JInt n)"
| "json_of_any (VFloat64 (F64 m k)) =
     Some (if k = 0 \<and> \<bar>m\<bar> < 10 ^ 21 then JInt m else JFlt (F64 m k))"
| "json_of_any (VList vs) = map_option JArr (those (map json_of_any vs))"
| "json_of_any (VMap kvs) =
     map_option JObj (those (map (\<lambda>kv. map_option (Pair (fst kv)) (json_of_any (snd kv))) kvs))"
| "json_of_any (VOpaque _) = None"

text \<open>\<open>json.Unmarshal\<close> into a value of type \<open>any\<close>.\<close>

fun any_of_json :: "json \<Rightarrow> go_any" where
  "any_of_json JNull = VNil"
| "any_of_json (JBool b) = VBool b"
| "any_of_json (JInt n) = VFloat64 (f64_of_int n)"
| "any_of_json (JFlt f) = VFloat64 f"
| "any_of_json (JStr s) = VString s"
| "any_of_json (JArr js) = VList (map any_of_json js)"
| "any_of_json (JObj ms) = VMap (map (\<lambda>m. (fst m, any_of_json (snd m))) ms)"

section \<open>The parameters: text codec and cipher\<close>

record json_codec =
  js_print :: "json \<Rightarrow> byte list"
  js_parse :: "byte list \<Rightarrow> json option"
  js_fmt_time :: "go_time \<Rightarrow> string option"
  js_parse_time :: "string \<Rightarrow> go_time option"

record aead =
  NonceSize :: nat
  Seal :: "byte list \<Rightarrow> byte list \<Rightarrow> byte list"
  Open :: "byte list \<Rightarrow> byte list \<Rightarrow> byte list option"

definition ascii :: "string \<Rightarrow> bool" where
  "ascii s \<longleftrightarrow> list_all (\<lambda>c. (of_char c :: nat) < 128) s"

text \<open>
  The values whose text form is read back as themselves: strings in ASCII (others may hold bytes
  that are not UTF-8, which the encoder replaces), fraction or exponent where the literal has
  one.
\<close>

fun wf_json :: "json \<Rightarrow> bool" where
  "wf_json (JStr s) \<longleftrightarrow> ascii s"
| "wf_json (JFlt (F64 m k)) \<longleftrightarrow> k \<noteq> 0 \<or> 10 ^ 21 \<le> \<bar>m\<bar>"
| "wf_json (JArr js) \<longleftrightarrow> list_all wf_json js"
| "wf_json (JObj ms) \<longleftrightarrow> list_all (\<lambda>m. ascii (fst m) \<and> wf_json (snd m)) ms"
| "wf_json _ \<longleftrightarrow> True"

definition json_ok :: "json_codec \<Rightarrow> bool" where
  "json_ok J \<longleftrightarrow>
     (\<forall>j. wf_json j \<longrightarrow> js_parse J (js_print J j) = Some j) \<and>
     (\<forall>t s. js_fmt_time J t = Some s \<longrightarrow> ascii s \<and> js_parse_time J s = Some t)"

definition aead_ok :: "aead \<Rightarrow> bool" where
  "aead_ok g \<longleftrightarrow> (\<forall>n p. length n = NonceSize g \<longrightarrow> Open g n (Seal g n p) = Some p)"

section \<open>The payload\<close>

record payload =
  p_ID :: string
  p_Data :: "(string \<times> go_any) list option"
  p_UserID :: int
  p_CreatedAt :: go_time
  p_ExpiresAt :: go_time

definition zero_payload :: payload where
  "zero_payload = \<lparr>p_ID = [], p_Data = None, p_UserID = 0, p_CreatedAt = 0, p_ExpiresAt = 0\<rparr>"

text \<open>
  \<open>omitempty\<close> drops a nil or empty map and a zero integer; on a \<open>time.Time\<close> it has no effect.
\<close>

definition data_field :: "(string \<times> go_any) list option \<Rightarrow> (string \<times> json) list option" where
  "data_field d =
     (case d of
        None \<Rightarrow> Some []
      | Some [] \<Rightarrow> Some []
      | Some m \<Rightarrow> map_option (\<lambda>j. [(''data'', j)]) (json_of_any (VMap m)))"

definition user_field :: "int \<Rightarrow> (string \<times> json) list" where
  "user_field u = (if u = 0 then [] else [(''user_id'', JInt u)])"

definition marshal_payload :: "json_codec \<Rightarrow> payload \<Rightarrow> byte list option" where
  "marshal_payload J p = do {
     d \<leftarrow> data_field (p_Data p);
     c \<leftarrow> js_fmt_time J (p_CreatedAt p);
     e \<leftarrow> js_fmt_time J (p_ExpiresAt p);
     Some (js_print J (JObj
       ([(''id'', JStr (p_ID p))] @ d @ user_field (p_UserID p) @
        [(''created_at'', JStr c), (''expires_at'', JStr e)])))
   }"

text \<open>
  Decoding matches member names without regard to ASCII case, the last one wins; a missing or
  null member leaves the zero value; a value of the wrong kind is an error.
\<close>

definition lower_char :: "char \<Rightarrow> char" where
  "lower_char c = (let n = of_char c :: nat in if 65 \<le> n \<and> n \<le> 90 then char_of (n + 32) else c)"

definition member :: "string \<Rightarrow> (string \<times> json) list \<Rightarrow> json" where
  "member n ms =
     (case map_of (rev (map (\<lambda>m. (map lower_char (fst m), snd m)) ms)) n of
        None \<Rightarrow> JNull | Some j \<Rightarrow> j)"

fun as_string :: "json \<Rightarrow> string option" where
  "as_string JNull = Some []"
| "as_string (JStr s) = Some s"
| "as_string _ = None"

fun as_int64 :: "json \<Rightarrow> int option" where
  "as_int64 JNull = Some 0"
| "as_int64 (JInt n) = (if in_int64 n then Some n else None)"
| "as_int64 _ = None"

fun as_time :: "json_codec \<Rightarrow> json \<Rightarrow> go_time option" where
  "as_time J JNull = Some 0"
| "as_time J (JStr s) = js_parse_time J s"
| "as_time J _ = None"

text \<open>Filling a map in the order of the members: a later binding replaces an earlier one.\<close>

definition fill_map :: "(string \<times> go_any) list \<Rightarrow> (string \<times> go_any) list" where
  "fill_map kvs = fold (\<lambda>kv m. AList.update (fst kv) (snd kv) m) kvs []"

fun as_data :: "json \<Rightarrow> (string \<times> go_any) list option option" where
  "as_data JNull = Some None"
| "as_data (JObj ms) = Some (Some (fill_map (map (\<lambda>m. (fst m, any_of_json (snd m))) ms)))"
| "as_data _ = None"

fun payload_of_json :: "json_codec \<Rightarrow> json \<Rightarrow> payload option" where
  "payload_of_json J JNull = Some zero_payload"
| "payload_of_json J (JObj ms) = do {
     i \<leftarrow> as_string (member ''id'' ms);
     d \<leftarrow> as_data (member ''data'' ms);
     u \<leftarrow> as_int64 (member ''user_id'' ms);
     c \<leftarrow> as_time J (member ''created_at'' ms);
     e \<leftarrow> as_time J (member ''expires_at'' ms);
     Some \<lparr>p_ID = i, p_Data = d, p_UserID = u, p_CreatedAt = c, p_ExpiresAt = e\<rparr>
   }"
| "payload_of_json J _ = None"

definition unmarshal_payload :: "json_codec \<Rightarrow> byte list \<Rightarrow> payload option" where
  "unmarshal_payload J b = Option.bind (js_parse J b) (payload_of_json J)"

section \<open>The store\<close>

record cookie_store =
  cs_gcm :: aead

datatype cookie_error =
    ErrKeyLength | ErrCipher | ErrGCM | ErrMarshal | ErrNonce | ErrBase64 | ErrTooShort
  | ErrDecrypt | ErrUnmarshal | ErrExpired

text \<open>
  \<open>aes.NewCipher\<close> and \<open>cipher.NewGCM\<close> are the parameters \<open>new_cipher\<close> and \<open>new_gcm\<close>.
\<close>

definition NewCookieStore ::
    "(byte list \<Rightarrow> 'blk option) \<Rightarrow> ('blk \<Rightarrow> aead option) \<Rightarrow> byte list \<Rightarrow> cookie_error + cookie_store"
where
  "NewCookieStore new_cipher new_gcm secretKey =
     (if length secretKey \<noteq> 32 then Inl ErrKeyLength
      else case new_cipher secretKey of
             None \<Rightarrow> Inl ErrCipher
           | Some block \<Rightarrow>
               (case new_gcm block of
                  None \<Rightarrow> Inl ErrGCM
                | Some gcm \<Rightarrow> Inr \<lparr>cs_gcm = gcm\<rparr>))"

text \<open>\<open>Encode\<close>; the second component is what is left of the random supply.\<close>

definition Encode ::
    "json_codec \<Rightarrow> cookie_store \<Rightarrow> session \<Rightarrow> byte list \<Rightarrow> (cookie_error + string) \<times> byte list"
where
  "Encode J cs s supply =
     (let p = \<lparr>p_ID = s_ID s, p_Data = s_Data s, p_UserID = s_UserID s,
               p_CreatedAt = s_CreatedAt s, p_ExpiresAt = s_ExpiresAt s\<rparr>
      in case marshal_payload J p of
           None \<Rightarrow> (Inl ErrMarshal, supply)
         | Some plaintext \<Rightarrow>
             (case rand_read (NonceSize (cs_gcm cs)) supply of
                None \<Rightarrow> (Inl ErrNonce, [])
              | Some (nonce, rest) \<Rightarrow>
                  (Inr (b64_encode (nonce @ Seal (cs_gcm cs) nonce plaintext)), rest)))"

definition Decode ::
    "json_codec \<Rightarrow> cookie_store \<Rightarrow> go_time \<Rightarrow> string \<Rightarrow> cookie_error + session" where
  "Decode J cs now value =
     (case b64_decode value of
        None \<Rightarrow> Inl ErrBase64
      | Some ciphertext \<Rightarrow>
          (let nonceSize = NonceSize (cs_gcm cs)
           in if length ciphertext < nonceSize then Inl ErrTooShort
              else case Open (cs_gcm cs) (take nonceSize ciphertext) (drop nonceSize ciphertext) of
                     None \<Rightarrow> Inl ErrDecrypt
                   | Some plaintext \<Rightarrow>
                       (case unmarshal_payload J plaintext of
                          None \<Rightarrow> Inl ErrUnmarshal
                        | Some p \<Rightarrow>
                            (if \<not> is_zero_time (p_ExpiresAt p) \<and> p_ExpiresAt p < now
                             then Inl ErrExpired
                             else Inr \<lparr>s_ID = p_ID p, s_Data = p_Data p, s_UserID = p_UserID p,
                                    s_CreatedAt = p_CreatedAt p, s_ExpiresAt = p_ExpiresAt p,
                                    s_IsNew = False, s_destroyed = False, s_regenerated = False,
                                    s_oldID = [], s_modified = False, s_maxAge = 0\<rparr>))))"

section \<open>What survives the round trip\<close>

text \<open>
  The normal form of a value: numbers become \<open>float64\<close>, everything else stays.  It is defined
  on values, without JSON.
\<close>

fun norm_any :: "go_any \<Rightarrow> go_any" where
  "norm_any (VInt n) = VFloat64 (f64_of_int n)"
| "norm_any (VInt64 n) = VFloat64 (f64_of_int n)"
| "norm_any (VList vs) = VList (map norm_any vs)"
| "norm_any (VMap kvs) = VMap (map (\<lambda>kv. (fst kv, norm_any (snd kv))) kvs)"
| "norm_any v = v"

definition norm_data :: "(string \<times> go_any) list option \<Rightarrow> (string \<times> go_any) list option" where
  "norm_data d =
     (case d of None \<Rightarrow> None | Some [] \<Rightarrow> None
      | Some m \<Rightarrow> Some (map (\<lambda>kv. (fst kv, norm_any (snd kv))) m))"

text \<open>
  Encodable values: no opaque part, ASCII strings, floats that are floats (an integral one has a
  53 bit mantissa).
\<close>

fun wf_any :: "go_any \<Rightarrow> bool" where
  "wf_any (VString s) \<longleftrightarrow> ascii s"
| "wf_any (VFloat64 (F64 m k)) \<longleftrightarrow> k \<noteq> 0 \<or> f64_of_int m = F64 m 0"
| "wf_any (VList vs) \<longleftrightarrow> list_all wf_any vs"
| "wf_any (VMap kvs) \<longleftrightarrow> list_all (\<lambda>kv. ascii (fst kv) \<and> wf_any (snd kv)) kvs"
| "wf_any (VOpaque _) \<longleftrightarrow> False"
| "wf_any _ \<longleftrightarrow> True"

definition wf_session :: "session \<Rightarrow> bool" where
  "wf_session s \<longleftrightarrow>
     session_ok s \<and> ascii (s_ID s) \<and> in_int64 (s_UserID s) \<and>
     (case s_Data s of None \<Rightarrow> True | Some m \<Rightarrow> wf_any (VMap m))"

definition restored :: "session \<Rightarrow> session" where
  "restored s =
     \<lparr>s_ID = s_ID s, s_Data = norm_data (s_Data s), s_UserID = s_UserID s,
      s_CreatedAt = s_CreatedAt s, s_ExpiresAt = s_ExpiresAt s, s_IsNew = False,
      s_destroyed = False, s_regenerated = False, s_oldID = [], s_modified = False,
      s_maxAge = 0\<rparr>"

lemma those_map_Some: "(\<And>x. x \<in> set xs \<Longrightarrow> f x = Some (g x)) \<Longrightarrow> those (map f xs) = Some (map g xs)"
  by (induction xs) simp_all

text \<open>Marshalling an encodable value succeeds, is well formed and decodes to the normal form.\<close>

lemma json_of_any_ok:
  "wf_any v \<Longrightarrow> \<exists>j. json_of_any v = Some j \<and> wf_json j \<and> any_of_json j = norm_any v"
proof (induction v rule: json_of_any.induct)
  case (7 vs)
  then have "\<forall>v \<in> set vs. \<exists>j. json_of_any v = Some j \<and> wf_json j \<and> any_of_json j = norm_any v"
    by (simp add: list_all_iff)
  then obtain g where g: "\<forall>v \<in> set vs. json_of_any v = Some (g v) \<and> wf_json (g v) \<and>
      any_of_json (g v) = norm_any v"
    by metis
  then have "those (map json_of_any vs) = Some (map g vs)"
    by (intro those_map_Some) simp
  with g show ?case by (simp add: list_all_iff)
next
  case (8 kvs)
  then have "\<forall>kv \<in> set kvs. \<exists>j. json_of_any (snd kv) = Some j \<and> wf_json j \<and>
      any_of_json j = norm_any (snd kv)"
    by (simp add: list_all_iff)
  then obtain g where g: "\<forall>kv \<in> set kvs. json_of_any (snd kv) = Some (g kv) \<and> wf_json (g kv) \<and>
      any_of_json (g kv) = norm_any (snd kv)"
    by metis
  then have "those (map (\<lambda>kv. map_option (Pair (fst kv)) (json_of_any (snd kv))) kvs) =
      Some (map (\<lambda>kv. (fst kv, g kv)) kvs)"
    by (intro those_map_Some) simp
  with g "8.prems" show ?case by (simp add: list_all_iff)
qed auto

lemma lower_chars [simp]:
  "lower_char (CHR ''i'') = CHR ''i''"
  "lower_char (CHR ''d'') = CHR ''d''"
  "lower_char (CHR ''a'') = CHR ''a''"
  "lower_char (CHR ''t'') = CHR ''t''"
  "lower_char (CHR ''u'') = CHR ''u''"
  "lower_char (CHR ''s'') = CHR ''s''"
  "lower_char (CHR ''e'') = CHR ''e''"
  "lower_char (CHR ''r'') = CHR ''r''"
  "lower_char (CHR ''c'') = CHR ''c''"
  "lower_char (CHR ''x'') = CHR ''x''"
  "lower_char (CHR ''p'') = CHR ''p''"
  "lower_char (CHR ''_'') = CHR ''_''"
  by code_simp+

lemma update_fresh: "k \<notin> fst ` set m \<Longrightarrow> AList.update k v m = m @ [(k, v)]"
  by (induction m) auto

lemma fold_update_distinct:
  "distinct (map fst kvs) \<Longrightarrow> fst ` set kvs \<inter> fst ` set m = {} \<Longrightarrow>
     fold (\<lambda>kv m. AList.update (fst kv) (snd kv) m) kvs m = m @ kvs"
proof (induction kvs arbitrary: m)
  case (Cons kv kvs)
  then have "fst kv \<notin> fst ` set m" by auto
  then have "AList.update (fst kv) (snd kv) m = m @ [kv]" by (simp add: update_fresh)
  moreover have "fst ` set kvs \<inter> fst ` set (m @ [kv]) = {}" using Cons.prems by auto
  ultimately show ?case using Cons.IH [of "m @ [kv]"] Cons.prems by simp
qed simp

lemma fill_map_distinct: "distinct (map fst kvs) \<Longrightarrow> fill_map kvs = kvs"
  by (simp add: fill_map_def fold_update_distinct)

text \<open>The data member decodes to the normalised data.\<close>

lemma data_member_ok:
  assumes "wf_any (VMap m)" "distinct (map fst m)"
  shows "\<exists>ms. json_of_any (VMap m) = Some (JObj ms) \<and> wf_json (JObj ms) \<and>
    as_data (JObj ms) = Some (Some (map (\<lambda>kv. (fst kv, norm_any (snd kv))) m))"
proof -
  obtain j where j: "json_of_any (VMap m) = Some j" "wf_json j"
      "any_of_json j = VMap (map (\<lambda>kv. (fst kv, norm_any (snd kv))) m)"
    using json_of_any_ok [OF assms(1)] by auto
  then obtain ms where ms: "j = JObj ms" by auto
  with j(3) have eq: "map (\<lambda>x. (fst x, any_of_json (snd x))) ms =
      map (\<lambda>kv. (fst kv, norm_any (snd kv))) m" by simp
  have "distinct (map fst (map (\<lambda>kv. (fst kv, norm_any (snd kv))) m))"
    using assms(2) by (simp add: comp_def)
  with j ms eq show ?thesis by (simp add: fill_map_distinct)
qed

lemma marshal_unmarshal:
  assumes "json_ok J" "wf_session s"
    and "marshal_payload J \<lparr>p_ID = s_ID s, p_Data = s_Data s, p_UserID = s_UserID s,
           p_CreatedAt = s_CreatedAt s, p_ExpiresAt = s_ExpiresAt s\<rparr> = Some b"
  shows "unmarshal_payload J b =
    Some \<lparr>p_ID = s_ID s, p_Data = norm_data (s_Data s), p_UserID = s_UserID s,
          p_CreatedAt = s_CreatedAt s, p_ExpiresAt = s_ExpiresAt s\<rparr>"
proof -
  define members where "members d c e =
    [(''id'', JStr (s_ID s))] @ d @ user_field (s_UserID s) @
    [(''created_at'', JStr c), (''expires_at'', JStr e)]" for d :: "(string \<times> json) list" and c e
  obtain d c e where
    d: "data_field (s_Data s) = Some d" and
    c: "js_fmt_time J (s_CreatedAt s) = Some c" and e: "js_fmt_time J (s_ExpiresAt s) = Some e" and
    b: "b = js_print J (JObj (members d c e))"
    using assms(3) unfolding marshal_payload_def members_def
    by (auto simp: bind_eq_Some_conv)
  have ok: "ascii (s_ID s)" "in_int64 (s_UserID s)"
    using assms(2) by (simp_all add: wf_session_def)
  have tm: "ascii c" "ascii e" "js_parse_time J c = Some (s_CreatedAt s)"
      "js_parse_time J e = Some (s_ExpiresAt s)"
    using assms(1) c e by (simp_all add: json_ok_def)
  have "d = [] \<and> norm_data (s_Data s) = None \<or>
    (\<exists>ms. d = [(''data'', JObj ms)] \<and> wf_json (JObj ms) \<and>
      as_data (JObj ms) = Some (norm_data (s_Data s)))"
  proof (cases "s_Data s")
    case (Some m)
    show ?thesis
    proof (cases m)
      case (Cons kv kvs)
      with Some assms(2) data_member_ok [of m] obtain ms where
        "json_of_any (VMap m) = Some (JObj ms)" "wf_json (JObj ms)"
        "as_data (JObj ms) = Some (norm_data (s_Data s))"
        by (auto simp: wf_session_def session_ok_def norm_data_def)
      with d Some Cons show ?thesis
        by (auto simp: data_field_def simp del: json_of_any.simps wf_json.simps as_data.simps)
    qed (use d Some in \<open>simp add: norm_data_def data_field_def\<close>)
  qed (use d in \<open>simp add: norm_data_def data_field_def\<close>)
  then have "wf_json (JObj (members d c e)) \<and>
    payload_of_json J (JObj (members d c e)) =
      Some \<lparr>p_ID = s_ID s, p_Data = norm_data (s_Data s), p_UserID = s_UserID s,
            p_CreatedAt = s_CreatedAt s, p_ExpiresAt = s_ExpiresAt s\<rparr>"
  proof
    assume "d = [] \<and> norm_data (s_Data s) = None"
    with ok tm show ?thesis
      by (simp add: members_def member_def user_field_def) (simp add: ascii_def)
  next
    assume "\<exists>ms. d = [(''data'', JObj ms)] \<and> wf_json (JObj ms) \<and>
      as_data (JObj ms) = Some (norm_data (s_Data s))"
    then obtain ms where "d = [(''data'', JObj ms)]" "wf_json (JObj ms)"
      "as_data (JObj ms) = Some (norm_data (s_Data s))" by blast
    with ok tm show ?thesis
      by (simp add: members_def member_def user_field_def del: as_data.simps) (simp add: ascii_def)
  qed
  with b assms(1) show ?thesis by (simp add: unmarshal_payload_def json_ok_def)
qed

text \<open>
  What \<open>Encode\<close> writes, \<open>Decode\<close> reads back as the restored session, until the session's
  expiry time.
\<close>

lemma Decode_Encode:
  assumes "json_ok J" "aead_ok (cs_gcm cs)" "wf_session s"
    and enc: "Encode J cs s supply = (Inr v, rest)"
  shows "Decode J cs now v =
    (if \<not> is_zero_time (s_ExpiresAt s) \<and> s_ExpiresAt s < now then Inl ErrExpired
     else Inr (restored s))"
proof -
  let ?p = "\<lparr>p_ID = s_ID s, p_Data = s_Data s, p_UserID = s_UserID s,
             p_CreatedAt = s_CreatedAt s, p_ExpiresAt = s_ExpiresAt s\<rparr>"
  from enc obtain b nonce where
    b: "marshal_payload J ?p = Some b" and
    n: "rand_read (NonceSize (cs_gcm cs)) supply = Some (nonce, rest)" and
    v: "v = b64_encode (nonce @ Seal (cs_gcm cs) nonce b)"
    by (auto simp: Encode_def Let_def split: option.splits prod.splits)
  have len: "length nonce = NonceSize (cs_gcm cs)"
    using n by (simp add: rand_read_Some)
  then have "Open (cs_gcm cs) nonce (Seal (cs_gcm cs) nonce b) = Some b"
    using assms(2) by (simp add: aead_ok_def)
  with len v marshal_unmarshal [OF assms(1,3) b] show ?thesis
    by (simp add: Decode_def Let_def restored_def)
qed

text \<open>Encoding succeeds on encodable sessions whose times can be written, with enough entropy.\<close>

lemma Encode_total:
  assumes "wf_session s" "js_fmt_time J (s_CreatedAt s) \<noteq> None" "js_fmt_time J (s_ExpiresAt s) \<noteq> None"
    and "NonceSize (cs_gcm cs) \<le> length supply"
  shows "\<exists>v. Encode J cs s supply = (Inr v, drop (NonceSize (cs_gcm cs)) supply)"
proof -
  let ?p = "\<lparr>p_ID = s_ID s, p_Data = s_Data s, p_UserID = s_UserID s,
             p_CreatedAt = s_CreatedAt s, p_ExpiresAt = s_ExpiresAt s\<rparr>"
  have "\<exists>d. data_field (s_Data s) = Some d"
    using assms(1) json_of_any_ok
    by (fastforce simp: wf_session_def data_field_def
        simp del: json_of_any.simps wf_any.simps norm_any.simps
        split: option.splits list.splits)
  with assms(2,3) have "\<exists>b. marshal_payload J ?p = Some b"
    by (auto simp: marshal_payload_def)
  with assms(4) show ?thesis
    by (auto simp: Encode_def Let_def rand_read_def)
qed

text \<open>What a value must be for \<open>Decode\<close> to accept it: the cipher opened it.\<close>

lemma Decode_authentic:
  assumes "Decode J cs now v = Inr s"
  shows "\<exists>c b. b64_decode v = Some c \<and> NonceSize (cs_gcm cs) \<le> length c \<and>
    Open (cs_gcm cs) (take (NonceSize (cs_gcm cs)) c) (drop (NonceSize (cs_gcm cs)) c) = Some b \<and>
    unmarshal_payload J b \<noteq> None"
  using assms by (auto simp: Decode_def Let_def split: option.splits if_splits)

lemma Decode_flags:
  "Decode J cs now v = Inr s \<Longrightarrow>
     \<not> s_IsNew s \<and> \<not> s_modified s \<and> \<not> s_destroyed s \<and> s_maxAge s = 0 \<and>
     (is_zero_time (s_ExpiresAt s) \<or> now \<le> s_ExpiresAt s)"
  by (auto simp: Decode_def Let_def split: option.splits if_splits)

section \<open>The parameters can be had\<close>

text \<open>
  A codec and a cipher that satisfy the hypotheses: the injective numbering of JSON values in
  unary, and the cipher that hides nothing.
\<close>

instance f64 :: countable by countable_datatype
instance json :: countable by countable_datatype

definition unary_codec :: json_codec where
  "unary_codec =
     \<lparr>js_print = (\<lambda>j. replicate (to_nat j) 0), js_parse = (\<lambda>b. Some (from_nat (length b))),
      js_fmt_time = (\<lambda>t. Some (replicate (to_nat t) CHR ''0'')),
      js_parse_time = (\<lambda>s. Some (from_nat (length s)))\<rparr>"

definition plain_aead :: aead where
  "plain_aead = \<lparr>NonceSize = 12, Seal = (\<lambda>n p. p), Open = (\<lambda>n c. Some c)\<rparr>"

lemma unary_codec_ok: "json_ok unary_codec"
  by (auto simp: json_ok_def unary_codec_def ascii_def list_all_iff)

lemma plain_aead_ok: "aead_ok plain_aead"
  by (simp add: aead_ok_def plain_aead_def)

end
