(* ===== verification/Http.thy ===== *)
theory Http
  imports Context CookieStore
begin

text \<open>
  What the program uses of \<open>net/http\<close> and \<open>log/slog\<close>: header maps with canonical keys,
  requests, the response of the server, \<open>http.Error\<close>, \<open>http.Redirect\<close>, \<open>http.SetCookie\<close>, the
  logger of \<open>log/logger.go\<close>, and handlers as state transformers.

  A \<open>http.ResponseWriter\<close> is an interface value: the record \<open>response_writer\<close> of its methods,
  with \<open>None\<close> where the dynamic type does not implement an optional interface (Flusher,
  Hijacker, Pusher).  A middleware that wraps the writer builds a new record over the old one;
  the fields of its wrapper object live in the world.  The locale \<open>writer_contract\<close> is what
  every writer owes its callers, \<open>base_writer\<close> is the server's own writer, and \<open>rw_run\<close>
  describes everything a handler may do with a writer.
\<close>

section \<open>Header maps\<close>

definition letter_range :: "nat \<Rightarrow> bool" where
  "letter_range n \<longleftrightarrow> 65 \<le> n \<and> n \<le> 90 \<or> 97 \<le> n \<and> n \<le> 122"

definition token_char :: "char \<Rightarrow> bool" where
  "token_char c \<longleftrightarrow>
     (let n = of_char c :: nat
      in letter_range n \<or> 48 \<le> n \<and> n \<le> 57 \<or> n \<in> set [33, 35, 36, 37, 38, 39, 42, 43, 45, 46, 94, 95, 96, 124, 126])"

definition is_token :: "string \<Rightarrow> bool" where
  "is_token s \<longleftrightarrow> s \<noteq> [] \<and> list_all token_char s"

definition upper_char :: "char \<Rightarrow> char" where
  "upper_char c = (let n = of_char c :: nat in if 97 \<le> n \<and> n \<le> 122 then char_of (n - 32) else c)"

fun canon_chars :: "bool \<Rightarrow> string \<Rightarrow> string" where
  "canon_chars up [] = []"
| "canon_chars up (c # cs) =
     (if up then upper_char c else lower_char c) # canon_chars (c = CHR ''-'') cs"

text \<open>\<open>textproto.CanonicalMIMEHeaderKey\<close>: a key with a non-token byte is left alone.\<close>

definition canonical :: "string \<Rightarrow> string" where
  "canonical k = (if list_all token_char k then canon_chars True k else k)"

type_synonym header_map = "string \<Rightarrow> string list"

definition header_get :: "header_map \<Rightarrow> string \<Rightarrow> string" where
  "header_get h k = (case h (canonical k) of [] \<Rightarrow> [] | v # _ \<Rightarrow> v)"

definition header_set :: "string \<Rightarrow> string \<Rightarrow> header_map \<Rightarrow> header_map" where
  "header_set k v h = h(canonical k := [v])"

definition header_del :: "string \<Rightarrow> header_map \<Rightarrow> header_map" where
  "header_del k h = h(canonical k := [])"

lemma header_get_set [http_simps]:
  "header_get (header_set k' v h) k = (if canonical k = canonical k' then v else header_get h k)"
  by (simp add: header_get_def header_set_def)

lemma header_get_del [http_simps]:
  "header_get (header_del k' h) k = (if canonical k = canonical k' then [] else header_get h k)"
  by (simp add: header_get_def header_del_def)

text \<open>The canonical forms of the header names the program uses.\<close>

lemma canonical_names [http_simps]:
  "canonical ''Content-Type'' = ''Content-Type''"
  "canonical ''Content-Length'' = ''Content-Length''"
  "canonical ''Accept'' = ''Accept''"
  "canonical ''Authorization'' = ''Authorization''"
  "canonical ''X-Requested-With'' = ''X-Requested-With''"
  "canonical ''Origin'' = ''Origin''"
  "canonical ''Vary'' = ''Vary''"
  "canonical ''Location'' = ''Location''"
  "canonical ''Retry-After'' = ''Retry-After''"
  "canonical ''X-Request-ID'' = ''X-Request-Id''"
  "canonical ''X-CSRF-Token'' = ''X-Csrf-Token''"
  "canonical ''X-Content-Type-Options'' = ''X-Content-Type-Options''"
  "canonical ''X-Frame-Options'' = ''X-Frame-Options''"
  "canonical ''X-XSS-Protection'' = ''X-Xss-Protection''"
  "canonical ''Referrer-Policy'' = ''Referrer-Policy''"
  "canonical ''Permissions-Policy'' = ''Permissions-Policy''"
  "canonical ''Content-Security-Policy'' = ''Content-Security-Policy''"
  "canonical ''Strict-Transport-Security'' = ''Strict-Transport-Security''"
  "canonical ''Access-Control-Allow-Origin'' = ''Access-Control-Allow-Origin''"
  "canonical ''Access-Control-Allow-Credentials'' = ''Access-Control-Allow-Credentials''"
  "canonical ''Access-Control-Allow-Methods'' = ''Access-Control-Allow-Methods''"
  "canonical ''Access-Control-Allow-Headers'' = ''Access-Control-Allow-Headers''"
  "canonical ''Access-Control-Max-Age'' = ''Access-Control-Max-Age''"
  by code_simp+

section \<open>Cookies, requests\<close>

record cookie =
  c_Name :: string
  c_Value :: string
  c_Path :: string
  c_MaxAge :: int
  c_HttpOnly :: bool
  c_Secure :: bool
  c_SameSite :: int

text \<open>
  The response header: the map, and the cookies of its \<open>Set-Cookie\<close> lines in the order they
  were added (their text form is left to \<open>Cookie.String\<close>).
\<close>

record resp_header =
  h_map :: header_map
  h_cookies :: "cookie list"

text \<open>
  A request as the handlers see it.  \<open>r_Form\<close> is the parsed form (body fields before query
  fields), \<open>r_PathValues\<close> the wildcards the router matched, \<open>r_FormError\<close> whether \<open>ParseForm\<close> fails; \<open>r_Cookies\<close> are the cookies the client sent.
\<close>

record request =
  r_Method :: string
  r_Path :: string
  r_Query :: "(string \<times> string) list"
  r_Header :: header_map
  r_Cookies :: "(string \<times> string) list"
  r_Form :: "(string \<times> string) list"
  r_FormError :: bool
  r_Body :: string
  r_RemoteAddr :: string
  r_PathValues :: "(string \<times> string) list"
  r_Context :: go_context

definition FormValue :: "request \<Rightarrow> string \<Rightarrow> string" where
  "FormValue r k = (case map_of (r_Form r) k of None \<Rightarrow> [] | Some v \<Rightarrow> v)"

definition QueryGet :: "request \<Rightarrow> string \<Rightarrow> string" where
  "QueryGet r k = (case map_of (r_Query r) k of None \<Rightarrow> [] | Some v \<Rightarrow> v)"

definition PathValue :: "request \<Rightarrow> string \<Rightarrow> string" where
  "PathValue r k = (case map_of (r_PathValues r) k of None \<Rightarrow> [] | Some v \<Rightarrow> v)"

definition WithContext :: "request \<Rightarrow> go_context \<Rightarrow> request" where
  "WithContext r c = r\<lparr>r_Context := c\<rparr>"

lemma WithContext_simps [http_simps]:
  "r_Context (WithContext r c) = c" "r_Method (WithContext r c) = r_Method r"
  "r_Path (WithContext r c) = r_Path r" "r_Header (WithContext r c) = r_Header r"
  "r_Cookies (WithContext r c) = r_Cookies r" "r_Form (WithContext r c) = r_Form r"
  "r_FormError (WithContext r c) = r_FormError r" "r_Query (WithContext r c) = r_Query r"
  "r_RemoteAddr (WithContext r c) = r_RemoteAddr r" "r_PathValues (WithContext r c) = r_PathValues r"
  "r_Body (WithContext r c) = r_Body r"
  "FormValue (WithContext r c) k = FormValue r k" "QueryGet (WithContext r c) k = QueryGet r k"
  by (simp_all add: WithContext_def FormValue_def QueryGet_def)

section \<open>The logger\<close>

text \<open>\<open>slog\<close> levels, ordered by severity.\<close>

datatype log_level = LevelDebug | LevelInfo | LevelWarn | LevelError

fun severity :: "log_level \<Rightarrow> nat" where
  "severity LevelDebug = 0"
| "severity LevelInfo = 1"
| "severity LevelWarn = 2"
| "severity LevelError = 3"

instantiation log_level :: linorder
begin

definition less_eq_log_level :: "log_level \<Rightarrow> log_level \<Rightarrow> bool" where
  "less_eq_log_level a b \<longleftrightarrow> severity a \<le> severity b"

definition less_log_level :: "log_level \<Rightarrow> log_level \<Rightarrow> bool" where
  "less_log_level a b \<longleftrightarrow> severity a < severity b"

instance
proof
  fix a b :: log_level
  show "a \<le> b \<Longrightarrow> b \<le> a \<Longrightarrow> a = b"
    by (cases a; cases b) (simp_all add: less_eq_log_level_def)
qed (auto simp: less_eq_log_level_def less_log_level_def)

end

record log_entry =
  e_level :: log_level
  e_msg :: string
  e_attrs :: "(string \<times> string) list"

text \<open>\<open>log.Logger\<close>: the handler's minimum level and the attributes of \<open>With\<close>.\<close>

record logger =
  lg_level :: log_level
  lg_attrs :: "(string \<times> string) list"

definition log_New :: "log_level \<Rightarrow> logger" where
  "log_New level = \<lparr>lg_level = level, lg_attrs = []\<rparr>"

definition log_With :: "(string \<times> string) list \<Rightarrow> logger \<Rightarrow> logger" where
  "log_With args l = l\<lparr>lg_attrs := lg_attrs l @ args\<rparr>"

text \<open>The accessor \<open>Slog\<close>: a \<open>Logger\<close> is nothing but its \<open>slog.Logger\<close>.\<close>

definition log_Slog :: "logger \<Rightarrow> logger" where
  "log_Slog l = l"

definition log_record ::
    "log_level \<Rightarrow> logger \<Rightarrow> string \<Rightarrow> (string \<times> string) list \<Rightarrow> log_entry list \<Rightarrow> log_entry list"
where
  "log_record level l msg args es =
     (if lg_level l \<le> level
      then es @ [\<lparr>e_level = level, e_msg = msg, e_attrs = lg_attrs l @ args\<rparr>] else es)"

section \<open>The world of a request\<close>

text \<open>
  Body output: text, or a value written by a JSON encoder (its text form, with the final
  newline, is left to \<open>encoding/json\<close>).
\<close>

datatype chunk = Text string | JsonLine json

text \<open>
  The server's response: the header map the handler mutates, the status once committed with the
  header as it was sent, the informational statuses sent before, the body, and whether data was
  flushed.
\<close>

record base_response =
  b_header :: resp_header
  b_status :: "int option"
  b_sent :: resp_header
  b_infos :: "int list"
  b_body :: "chunk list"
  b_flushed :: bool

text \<open>The fields of a \<open>statusWriter\<close> of \<open>middleware/logger.go\<close>.\<close>

record status_writer =
  sw_status :: int
  sw_wroteHeader :: bool

text \<open>
  The mutable state a request handler can reach.  \<open>w_sessions\<close> is the heap of session objects
  (a pointer is an index), \<open>w_status_ws\<close> the heap of \<open>statusWriter\<close> objects, \<open>w_session_ws\<close> the
  \<open>headerWritten\<close> fields of the \<open>sessionWriter\<close> objects; \<open>w_now\<close> is the wall clock and
  \<open>w_entropy\<close> the random supply.  Components add their own fields by extending the record.
\<close>

record world =
  w_resp :: base_response
  w_status_ws :: "status_writer list"
  w_session_ws :: "bool list"
  w_sessions :: "session list"
  w_now :: go_time
  w_entropy :: "byte list"
  w_log :: "log_entry list"

definition log_at ::
    "log_level \<Rightarrow> logger \<Rightarrow> string \<Rightarrow> (string \<times> string) list \<Rightarrow> 'm world_scheme \<Rightarrow> 'm world_scheme"
where
  "log_at level l msg args s = s\<lparr>w_log := log_record level l msg args (w_log s)\<rparr>"

definition log_Info where "log_Info = log_at LevelInfo"
definition log_Error where "log_Error = log_at LevelError"
definition log_Debug where "log_Debug = log_at LevelDebug"
definition log_Warn where "log_Warn = log_at LevelWarn"

lemma log_at_frame [http_simps]:
  "w_resp (log_at v l m a s) = w_resp s" "w_status_ws (log_at v l m a s) = w_status_ws s"
  "w_session_ws (log_at v l m a s) = w_session_ws s" "w_sessions (log_at v l m a s) = w_sessions s"
  "w_now (log_at v l m a s) = w_now s" "w_entropy (log_at v l m a s) = w_entropy s"
  by (simp_all add: log_at_def)

lemma log_enabled: "log_record level l msg args es \<noteq> es \<longleftrightarrow> lg_level l \<le> level"
  by (simp add: log_record_def)

section \<open>Response writers\<close>

record 'w response_writer =
  rw_Header :: "'w \<Rightarrow> resp_header"
  rw_update :: "(resp_header \<Rightarrow> resp_header) \<Rightarrow> 'w \<Rightarrow> 'w"
  rw_WriteHeader :: "int \<Rightarrow> 'w \<Rightarrow> 'w"
  rw_Write :: "chunk \<Rightarrow> 'w \<Rightarrow> 'w"
  rw_Flush :: "('w \<Rightarrow> 'w) option"
  rw_Hijack :: "('w \<Rightarrow> bool \<times> 'w) option"
  rw_Push :: "(string \<Rightarrow> 'w \<Rightarrow> bool \<times> 'w) option"

text \<open>
  The server's writer.  \<open>WriteHeader\<close> after the status is committed is ignored; a status from
  100 to 199 other than 101 is an informational response and commits nothing.  \<open>Write\<close> commits
  status 200 first, and drops the body of a response that may not have one.  Status codes outside
  100 to 999, which the server rejects with a panic, are not used by the program.
\<close>

definition informational :: "int \<Rightarrow> bool" where
  "informational code \<longleftrightarrow> 100 \<le> code \<and> code \<le> 199 \<and> code \<noteq> 101"

definition base_WriteHeader :: "int \<Rightarrow> base_response \<Rightarrow> base_response" where
  "base_WriteHeader code b =
     (if b_status b \<noteq> None then b
      else if informational code then b\<lparr>b_infos := b_infos b @ [code]\<rparr>
      else b\<lparr>b_status := Some code, b_sent := b_header b\<rparr>)"

definition body_allowed :: "int option \<Rightarrow> bool" where
  "body_allowed st \<longleftrightarrow> st \<noteq> Some 204 \<and> st \<noteq> Some 304 \<and> st \<noteq> Some 101"

definition base_commit :: "base_response \<Rightarrow> base_response" where
  "base_commit b = (if b_status b = None then base_WriteHeader 200 b else b)"

definition base_Write :: "chunk \<Rightarrow> base_response \<Rightarrow> base_response" where
  "base_Write c b =
     (let b' = base_commit b
      in if body_allowed (b_status b') then b'\<lparr>b_body := b_body b' @ [c]\<rparr> else b')"

definition base_Flush :: "base_response \<Rightarrow> base_response" where
  "base_Flush b = (base_commit b)\<lparr>b_flushed := True\<rparr>"

definition base_rw :: "bool \<Rightarrow> bool \<Rightarrow> bool \<Rightarrow> ('m world_scheme) response_writer" where
  "base_rw flusher hijacker pusher =
     \<lparr>rw_Header = (\<lambda>s. b_header (w_resp s)),
      rw_update = (\<lambda>f s. s\<lparr>w_resp := (w_resp s)\<lparr>b_header := f (b_header (w_resp s))\<rparr>\<rparr>),
      rw_WriteHeader = (\<lambda>code s. s\<lparr>w_resp := base_WriteHeader code (w_resp s)\<rparr>),
      rw_Write = (\<lambda>c s. s\<lparr>w_resp := base_Write c (w_resp s)\<rparr>),
      rw_Flush = (if flusher then Some (\<lambda>s. s\<lparr>w_resp := base_Flush (w_resp s)\<rparr>) else None),
      rw_Hijack = (if hijacker then Some (\<lambda>s. (True, s)) else None),
      rw_Push = (if pusher then Some (\<lambda>target s. (True, s)) else None)\<rparr>"

type_synonym 'w handler = "'w response_writer \<Rightarrow> request \<Rightarrow> 'w \<Rightarrow> 'w hres"
type_synonym 'w middleware = "'w handler \<Rightarrow> 'w handler"

definition set_header :: "'w response_writer \<Rightarrow> string \<Rightarrow> string \<Rightarrow> 'w \<Rightarrow> 'w" where
  "set_header w k v = rw_update w (\<lambda>h. h\<lparr>h_map := header_set k v (h_map h)\<rparr>)"

definition del_header :: "'w response_writer \<Rightarrow> string \<Rightarrow> 'w \<Rightarrow> 'w" where
  "del_header w k = rw_update w (\<lambda>h. h\<lparr>h_map := header_del k (h_map h)\<rparr>)"

text \<open>\<open>http.SetCookie\<close>: a cookie whose name is not a token is dropped.\<close>

definition add_cookie :: "cookie \<Rightarrow> resp_header \<Rightarrow> resp_header" where
  "add_cookie c h = (if is_token (c_Name c) then h\<lparr>h_cookies := h_cookies h @ [c]\<rparr> else h)"

definition SetCookie :: "'w response_writer \<Rightarrow> cookie \<Rightarrow> 'w \<Rightarrow> 'w" where
  "SetCookie w c = rw_update w (add_cookie c)"

text \<open>\<open>http.Error\<close>.\<close>

definition http_Error :: "'w response_writer \<Rightarrow> string \<Rightarrow> int \<Rightarrow> 'w \<Rightarrow> 'w" where
  "http_Error w msg code s =
     (let s1 = del_header w ''Content-Length'' s;
          s2 = set_header w ''Content-Type'' ''text/plain; charset=utf-8'' s1;
          s3 = set_header w ''X-Content-Type-Options'' ''nosniff'' s2;
          s4 = rw_WriteHeader w code s3
      in rw_Write w (Text (msg @ [CHR 0x0A])) s4)"

text \<open>The JSON error body the middleware writes by hand.\<close>

definition json_error :: "'w response_writer \<Rightarrow> int \<Rightarrow> string \<Rightarrow> 'w \<Rightarrow> 'w" where
  "json_error w code msg s =
     (let s1 = set_header w ''Content-Type'' ''application/json; charset=utf-8'' s;
          s2 = rw_WriteHeader w code s1
      in rw_Write w (JsonLine (JObj [(''error'', JStr msg)])) s2)"

end
