(* ===== verification/Form.thy ===== *)
theory Form
  imports Reflect Http
begin

text \<open>
  \<open>form/form.go\<close>: the map of field errors, the binding of form values to struct fields by their
  \<open>form\<close> tag, and the validation entry point.
\<close>

section \<open>Errors\<close>

text \<open>The map is an association list with distinct keys.\<close>

type_synonym form_errors = "(string \<times> string list) list"

definition HasErrors :: "form_errors \<Rightarrow> bool" where
  "HasErrors e \<longleftrightarrow> length e > 0"

definition errors_for :: "form_errors \<Rightarrow> string \<Rightarrow> string list" where
  "errors_for e k = (case map_of e k of None \<Rightarrow> [] | Some ms \<Rightarrow> ms)"

definition errors_Add :: "string \<Rightarrow> string \<Rightarrow> form_errors \<Rightarrow> form_errors" where
  "errors_Add k msg e = AList.update k (errors_for e k @ [msg]) e"

definition RequiredString :: "string \<Rightarrow> string \<Rightarrow> string \<Rightarrow> form_errors \<Rightarrow> form_errors" where
  "RequiredString k v label e =
     (if trim_space v = [] then errors_Add k (label @ '' is required'') e else e)"

lemma errors_for_Add [simp]:
  "errors_for (errors_Add k msg e) k' = (if k' = k then errors_for e k @ [msg] else errors_for e k')"
  by (simp add: errors_for_def errors_Add_def update_conv')

lemma HasErrors_Add [simp]: "HasErrors (errors_Add k msg e)"
  by (cases e) (auto simp: HasErrors_def errors_Add_def)

lemma HasErrors_Nil [simp]: "\<not> HasErrors []"
  by (simp add: HasErrors_def)

lemma HasErrors_RequiredString: "HasErrors (RequiredString k v label e) \<longleftrightarrow> trim_space v = [] \<or> HasErrors e"
  by (simp add: RequiredString_def)

lemma distinct_Add: "distinct (map fst e) \<Longrightarrow> distinct (map fst (errors_Add k msg e))"
  by (simp add: errors_Add_def distinct_update)

section \<open>Binding\<close>

datatype bind_error = ParseFormFailed | NeedsStructPtr

definition form_field :: "request \<Rightarrow> struct_field \<Rightarrow> struct_field" where
  "form_field r f =
     (let tag = Tag_Get f ''form''
      in if tag = [] \<or> tag = ''-'' then f
         else if fd_CanSet f \<and> fd_Type f = TString then f\<lparr>fd_Value := FString (FormValue r tag)\<rparr>
         else f)"

fun form_loop :: "request \<Rightarrow> struct_field list \<Rightarrow> struct_field list" where
  "form_loop r [] = []"
| "form_loop r (f # fs) = form_field r f # form_loop r fs"

definition Bind :: "request \<Rightarrow> reflect_dst \<Rightarrow> bind_error + struct_field list" where
  "Bind r dst =
     (if r_FormError r then Inl ParseFormFailed
      else case dst of NotStructPtr \<Rightarrow> Inl NeedsStructPtr | PtrStruct fs \<Rightarrow> Inr (form_loop r fs))"

lemma form_loop_map: "form_loop r fs = map (form_field r) fs"
  by (induction fs) simp_all

section \<open>Validation\<close>

text \<open>A form that implements \<open>Validator\<close> is its \<open>Validate\<close> method; \<open>None\<close> does not implement it.\<close>

definition Validate :: "form_errors option \<Rightarrow> form_errors option" where
  "Validate v = (case v of None \<Rightarrow> None | Some errs \<Rightarrow> (if HasErrors errs then Some errs else None))"

section \<open>Field descriptions for templates\<close>

record TextField =
  tf_Name :: string
  tf_Label :: string
  tf_Value :: string
  tf_Placeholder :: string
  tf_Required :: bool
  tf_Errors :: "string list"

record PasswordField =
  pf_Name :: string
  pf_Label :: string
  pf_Placeholder :: string
  pf_Required :: bool
  pf_MinLength :: int
  pf_Errors :: "string list"

end
