(* ===== verification/Writer.thy ===== *)
theory Writer
  imports Http
begin

text \<open>
  The contract of \<open>http.ResponseWriter\<close> (locale \<open>writer_contract\<close>), with the facts about
  \<open>http.Error\<close> and the JSON errors proved once for every writer that meets it, its
  interpretation by the server's writer, and the relation \<open>rw_run\<close>: the state changes a handler
  can make through a writer, interleaved with changes elsewhere in the world.  A handler is
  \<open>well_behaved\<close> when every call of it is such a run.
\<close>

section \<open>The contract\<close>

abbreviation resp_status :: "'m world_scheme \<Rightarrow> int option" where
  "resp_status s \<equiv> b_status (w_resp s)"

abbreviation resp_sent :: "'m world_scheme \<Rightarrow> resp_header" where
  "resp_sent s \<equiv> b_sent (w_resp s)"

abbreviation resp_header_map :: "'m world_scheme \<Rightarrow> header_map" where
  "resp_header_map s \<equiv> h_map (b_header (w_resp s))"

text \<open>The status after a call of \<open>WriteHeader\<close>.\<close>

definition commit_status :: "int \<Rightarrow> int option \<Rightarrow> int option" where
  "commit_status code st =
     (case st of Some d \<Rightarrow> Some d | None \<Rightarrow> if informational code then None else Some code)"

lemma commit_status_simps [simp]:
  "commit_status code (Some d) = Some d"
  "\<not> informational code \<Longrightarrow> commit_status code None = Some code"
  "informational code \<Longrightarrow> commit_status code None = None"
  "commit_status code (commit_status code st) = commit_status code st"
  by (simp_all add: commit_status_def split: option.splits)

lemma not_informational [simp]:
  "\<not> informational 200" "\<not> informational 201" "\<not> informational 204" "\<not> informational 303"
  "\<not> informational 400" "\<not> informational 401" "\<not> informational 403" "\<not> informational 422"
  "\<not> informational 429" "\<not> informational 500"
  by (simp_all add: informational_def)

locale writer_contract =
  fixes rw :: "('m world_scheme) response_writer"
  assumes Header: "rw_Header rw s = b_header (w_resp s)"
    and update_resp: "w_resp (rw_update rw f s) = (w_resp s)\<lparr>b_header := f (b_header (w_resp s))\<rparr>"
    and WriteHeader_status: "resp_status (rw_WriteHeader rw code s) = commit_status code (resp_status s)"
    and Write_status: "resp_status (rw_Write rw c s) = commit_status 200 (resp_status s)"
    and Flush_status: "rw_Flush rw = Some g \<Longrightarrow>
      resp_status (g s) = commit_status 200 (resp_status s) \<or> resp_status (g s) = resp_status s"
    and WriteHeader_sent:
      "resp_status s = Some d \<Longrightarrow> resp_sent (rw_WriteHeader rw code s) = resp_sent s"
    and Write_sent: "resp_status s = Some d \<Longrightarrow> resp_sent (rw_Write rw c s) = resp_sent s"
    and Flush_sent: "rw_Flush rw = Some g \<Longrightarrow> resp_status s = Some d \<Longrightarrow> resp_sent (g s) = resp_sent s"
    and WriteHeader_map:
      "resp_status s = None \<Longrightarrow> \<not> informational code \<Longrightarrow>
         h_map (resp_sent (rw_WriteHeader rw code s)) = resp_header_map s"
begin

lemma update_frame:
  "resp_status (rw_update rw f s) = resp_status s" "resp_sent (rw_update rw f s) = resp_sent s"
  by (simp_all add: update_resp)

lemma set_header_simps:
  "resp_status (set_header rw k v s) = resp_status s" "resp_sent (set_header rw k v s) = resp_sent s"
  "resp_header_map (set_header rw k v s) = header_set k v (resp_header_map s)"
  by (simp_all add: set_header_def update_resp)

lemma del_header_simps:
  "resp_status (del_header rw k s) = resp_status s" "resp_sent (del_header rw k s) = resp_sent s"
  "resp_header_map (del_header rw k s) = header_del k (resp_header_map s)"
  by (simp_all add: del_header_def update_resp)

lemma SetCookie_simps:
  "resp_status (SetCookie rw c s) = resp_status s" "resp_sent (SetCookie rw c s) = resp_sent s"
  "resp_header_map (SetCookie rw c s) = resp_header_map s"
  by (simp_all add: SetCookie_def update_resp add_cookie_def)

text \<open>\<open>http.Error\<close> and the JSON errors set the status only where none was committed.\<close>

lemma http_Error_status:
  "\<not> informational code \<Longrightarrow> resp_status (http_Error rw msg code s) = commit_status code (resp_status s)"
  by (cases "resp_status s")
    (simp_all add: http_Error_def Let_def WriteHeader_status Write_status set_header_simps del_header_simps)

lemma json_error_status:
  "\<not> informational code \<Longrightarrow> resp_status (json_error rw code msg s) = commit_status code (resp_status s)"
  by (cases "resp_status s")
    (simp_all add: json_error_def Let_def WriteHeader_status Write_status set_header_simps)

lemma http_Error_sent:
  "resp_status s = Some d \<Longrightarrow> resp_sent (http_Error rw msg code s) = resp_sent s"
proof -
  assume d: "resp_status s = Some d"
  let ?s3 = "set_header rw ''X-Content-Type-Options'' ''nosniff''
    (set_header rw ''Content-Type'' ''text/plain; charset=utf-8''
      (del_header rw ''Content-Length'' s))"
  have s3: "resp_status ?s3 = Some d" "resp_sent ?s3 = resp_sent s"
    using d by (simp_all add: set_header_simps del_header_simps)
  have s4: "resp_status (rw_WriteHeader rw code ?s3) = Some d"
      "resp_sent (rw_WriteHeader rw code ?s3) = resp_sent s"
    using s3 WriteHeader_sent [OF s3(1)] by (simp_all add: WriteHeader_status)
  then show ?thesis
    using Write_sent [OF s4(1)] by (simp add: http_Error_def Let_def)
qed

text \<open>An error response sent on an uncommitted response carries the headers set so far.\<close>

lemma http_Error_header:
  assumes "resp_status s = None" "\<not> informational code"
  shows "h_map (resp_sent (http_Error rw msg code s)) =
    header_set ''X-Content-Type-Options'' ''nosniff''
      (header_set ''Content-Type'' ''text/plain; charset=utf-8''
        (header_del ''Content-Length'' (resp_header_map s)))"
proof -
  let ?s3 = "set_header rw ''X-Content-Type-Options'' ''nosniff''
    (set_header rw ''Content-Type'' ''text/plain; charset=utf-8''
      (del_header rw ''Content-Length'' s))"
  have s3: "resp_status ?s3 = None" using assms(1) by (simp add: set_header_simps del_header_simps)
  have "resp_status (rw_WriteHeader rw code ?s3) = Some code"
    using s3 assms(2) by (simp add: WriteHeader_status)
  then show ?thesis
    using Write_sent WriteHeader_map [OF s3 assms(2)]
    by (simp add: http_Error_def Let_def set_header_simps del_header_simps)
qed

lemma json_error_header:
  assumes "resp_status s = None" "\<not> informational code"
  shows "h_map (resp_sent (json_error rw code msg s)) =
    header_set ''Content-Type'' ''application/json; charset=utf-8'' (resp_header_map s)"
proof -
  let ?s1 = "set_header rw ''Content-Type'' ''application/json; charset=utf-8'' s"
  have s1: "resp_status ?s1 = None" using assms(1) by (simp add: set_header_simps)
  have "resp_status (rw_WriteHeader rw code ?s1) = Some code"
    using s1 assms(2) by (simp add: WriteHeader_status)
  then show ?thesis
    using Write_sent WriteHeader_map [OF s1 assms(2)]
    by (simp add: json_error_def Let_def set_header_simps)
qed

end

interpretation base: writer_contract "base_rw fl hj pu" for fl hj pu
  by unfold_locales
    (auto simp: base_rw_def base_WriteHeader_def base_Write_def base_Flush_def base_commit_def
      commit_status_def Let_def split: option.splits if_splits)

section \<open>Runs of a handler\<close>

text \<open>
  The wrapper objects of the writers a handler was given lie below \<open>n\<close> and \<open>m\<close> in the two
  heaps of wrapper objects; nothing but the writers' own methods changes them or the response.
\<close>

definition same_response :: "nat \<Rightarrow> nat \<Rightarrow> 'm world_scheme \<Rightarrow> 'm world_scheme \<Rightarrow> bool" where
  "same_response n m s t \<longleftrightarrow>
     w_resp t = w_resp s \<and>
     take n (w_status_ws t) = take n (w_status_ws s) \<and>
     length (w_status_ws s) \<le> length (w_status_ws t) \<and>
     take m (w_session_ws t) = take m (w_session_ws s) \<and>
     length (w_session_ws s) \<le> length (w_session_ws t)"

inductive rw_run ::
    "(cookie \<Rightarrow> bool) \<Rightarrow> nat \<Rightarrow> nat \<Rightarrow> ('m world_scheme) response_writer \<Rightarrow>
     'm world_scheme \<Rightarrow> 'm world_scheme \<Rightarrow> bool"
  for P n m rw
where
  rr_refl: "rw_run P n m rw s s"
| rr_header: "rw_run P n m rw s t \<Longrightarrow>
     rw_run P n m rw s (rw_update rw (\<lambda>h. h\<lparr>h_map := f (h_map h)\<rparr>) t)"
| rr_cookie: "rw_run P n m rw s t \<Longrightarrow> P c \<Longrightarrow> rw_run P n m rw s (SetCookie rw c t)"
| rr_WriteHeader: "rw_run P n m rw s t \<Longrightarrow> rw_run P n m rw s (rw_WriteHeader rw code t)"
| rr_Write: "rw_run P n m rw s t \<Longrightarrow> rw_run P n m rw s (rw_Write rw c t)"
| rr_Flush: "rw_run P n m rw s t \<Longrightarrow> rw_Flush rw = Some g \<Longrightarrow> rw_run P n m rw s (g t)"
| rr_env: "rw_run P n m rw s t \<Longrightarrow> same_response n m t u \<Longrightarrow> rw_run P n m rw s u"

declare rr_refl [intro] rr_cookie [intro] rr_WriteHeader [intro] rr_Write [intro] rr_Flush [intro]

text \<open>The writers' methods keep the number of wrapper objects.\<close>

definition keeps_heaps :: "('m world_scheme) response_writer \<Rightarrow> bool" where
  "keeps_heaps rw \<longleftrightarrow>
     (\<forall>s f code c.
        length (w_status_ws (rw_update rw f s)) = length (w_status_ws s) \<and>
        length (w_session_ws (rw_update rw f s)) = length (w_session_ws s) \<and>
        length (w_status_ws (rw_WriteHeader rw code s)) = length (w_status_ws s) \<and>
        length (w_session_ws (rw_WriteHeader rw code s)) = length (w_session_ws s) \<and>
        length (w_status_ws (rw_Write rw c s)) = length (w_status_ws s) \<and>
        length (w_session_ws (rw_Write rw c s)) = length (w_session_ws s)) \<and>
     (\<forall>g s. rw_Flush rw = Some g \<longrightarrow>
          length (w_status_ws (g s)) = length (w_status_ws s) \<and>
          length (w_session_ws (g s)) = length (w_session_ws s))"

definition well_behaved :: "(cookie \<Rightarrow> bool) \<Rightarrow> ('m world_scheme) handler \<Rightarrow> bool" where
  "well_behaved P h \<longleftrightarrow>
     (\<forall>rw r s. keeps_heaps rw \<longrightarrow>
        rw_run P (length (w_status_ws s)) (length (w_session_ws s)) rw s (hres_state (h rw r s)))"

lemma rw_run_trans: "rw_run P n m rw t u \<Longrightarrow> rw_run P n m rw s t \<Longrightarrow> rw_run P n m rw s u"
  by (induction rule: rw_run.induct) (auto intro: rw_run.intros)

lemma same_response_refl [simp]: "same_response n m s s"
  by (simp add: same_response_def)

lemma same_response_mono:
  "same_response n m s t \<Longrightarrow> n' \<le> n \<Longrightarrow> m' \<le> m \<Longrightarrow> same_response n' m' s t"
  unfolding same_response_def
  by (metis min.absorb1 take_take)

lemma rw_run_mono:
  "rw_run P n m rw s t \<Longrightarrow> n' \<le> n \<Longrightarrow> m' \<le> m \<Longrightarrow> (\<And>c. P c \<Longrightarrow> Q c) \<Longrightarrow> rw_run Q n' m' rw s t"
  by (induction rule: rw_run.induct) (auto intro: rw_run.intros same_response_mono)

lemma rw_run_set_header [intro]: "rw_run P n m rw s t \<Longrightarrow> rw_run P n m rw s (set_header rw k v t)"
  unfolding set_header_def by (rule rr_header)

lemma rw_run_del_header [intro]: "rw_run P n m rw s t \<Longrightarrow> rw_run P n m rw s (del_header rw k t)"
  unfolding del_header_def by (rule rr_header)

lemma rw_run_http_Error [intro]:
  "rw_run P n m rw s t \<Longrightarrow> rw_run P n m rw s (http_Error rw msg code t)"
  unfolding http_Error_def Let_def by blast

lemma rw_run_json_error [intro]:
  "rw_run P n m rw s t \<Longrightarrow> rw_run P n m rw s (json_error rw code msg t)"
  unfolding json_error_def Let_def by blast

lemma rw_run_log [intro]: "rw_run P n m rw s t \<Longrightarrow> rw_run P n m rw s (log_at v l msg a t)"
  by (erule rr_env) (simp add: same_response_def http_simps)

lemma rw_run_entropy [intro]: "rw_run P n m rw s t \<Longrightarrow> rw_run P n m rw s (t\<lparr>w_entropy := e\<rparr>)"
  by (erule rr_env) (simp add: same_response_def)

lemma rw_run_sessions [intro]: "rw_run P n m rw s t \<Longrightarrow> rw_run P n m rw s (t\<lparr>w_sessions := e\<rparr>)"
  by (erule rr_env) (simp add: same_response_def)

lemma base_keeps_heaps: "keeps_heaps (base_rw fl hj pu)"
  by (auto simp: keeps_heaps_def base_rw_def)

lemma rw_run_heaps:
  "rw_run P n m rw s t \<Longrightarrow> keeps_heaps rw \<Longrightarrow>
     length (w_status_ws s) \<le> length (w_status_ws t) \<and> length (w_session_ws s) \<le> length (w_session_ws t)"
  by (induction rule: rw_run.induct)
    (auto simp: keeps_heaps_def same_response_def SetCookie_def intro: order_trans)

text \<open>Calling a well behaved handler after a run continues the run.\<close>

lemma well_behaved_next:
  assumes "well_behaved P h" "keeps_heaps rw"
    and run: "rw_run P (length (w_status_ws s)) (length (w_session_ws s)) rw s t"
  shows "rw_run P (length (w_status_ws s)) (length (w_session_ws s)) rw s (hres_state (h rw r t))"
proof -
  have "rw_run P (length (w_status_ws t)) (length (w_session_ws t)) rw t (hres_state (h rw r t))"
    using assms(1,2) by (simp add: well_behaved_def)
  then have "rw_run P (length (w_status_ws s)) (length (w_session_ws s)) rw t (hres_state (h rw r t))"
    using rw_run_heaps [OF run assms(2)] by (blast intro: rw_run_mono)
  then show ?thesis using run by (rule rw_run_trans)
qed

text \<open>
  On every writer that meets the contract, a handler cannot change a status or header once
  committed.
\<close>

context writer_contract
begin

lemma run_committed:
  "rw_run P n m rw s t \<Longrightarrow> resp_status s = Some d \<Longrightarrow> resp_status t = Some d \<and> resp_sent t = resp_sent s"
proof (induction rule: rw_run.induct)
  case (rr_WriteHeader s t code)
  then show ?case by (simp add: WriteHeader_status WriteHeader_sent)
next
  case (rr_Write s t c)
  then show ?case by (simp add: Write_status Write_sent)
next
  case (rr_Flush s t g)
  then show ?case using Flush_status [of g t] by (auto simp: Flush_sent)
next
  case (rr_env s t u)
  then show ?case by (simp add: same_response_def)
qed (simp_all add: update_frame SetCookie_simps)

end

section \<open>Sample states\<close>

abbreviation header_cookies :: "'m world_scheme \<Rightarrow> cookie list" where
  "header_cookies s \<equiv> h_cookies (b_header (w_resp s))"

text \<open>An empty world, to run requests on.\<close>

definition empty_header :: resp_header where
  "empty_header = \<lparr>h_map = (\<lambda>_. []), h_cookies = []\<rparr>"

definition fresh_world :: "go_time \<Rightarrow> byte list \<Rightarrow> world" where
  "fresh_world now supply =
     \<lparr>w_resp = \<lparr>b_header = empty_header, b_status = None, b_sent = empty_header, b_infos = [],
        b_body = [], b_flushed = False\<rparr>,
      w_status_ws = [], w_session_ws = [], w_sessions = [], w_now = now, w_entropy = supply, w_log = []\<rparr>"

lemma fresh_world_simps [simp]:
  "resp_status (fresh_world now e) = None" "resp_header_map (fresh_world now e) = (\<lambda>_. [])"
  "header_cookies (fresh_world now e) = []" "w_now (fresh_world now e) = now"
  "w_entropy (fresh_world now e) = e" "w_sessions (fresh_world now e) = []"
  "w_status_ws (fresh_world now e) = []" "w_session_ws (fresh_world now e) = []"
  "w_log (fresh_world now e) = []"
  by (simp_all add: fresh_world_def empty_header_def)

definition plain_request :: "string \<Rightarrow> string \<Rightarrow> request" where
  "plain_request meth path =
     \<lparr>r_Method = meth, r_Path = path, r_Query = [], r_Header = (\<lambda>_. []), r_Cookies = [], r_Form = [],
      r_FormError = False, r_Body = [], r_RemoteAddr = ''10.0.0.1:5000'',
      r_PathValues = [], r_Context = Background\<rparr>"

end
