(* ===== verification/Account.thy ===== *)
theory Account
  imports Auth Form Writer
begin

text \<open>
  \<open>modules/account\<close>: the user model, the forms, the repository interface and the service.  The
  interface \<open>Repository\<close> is the locale \<open>user_repository\<close>; the service's contract is proved from it
  and from \<open>password_hasher\<close> in the locale \<open>account_contract\<close>.
\<close>

section \<open>Model\<close>

record account_user =
  au_ID :: int
  au_Email :: string
  au_Name :: string
  au_PasswordHash :: string
  au_Roles :: "string list"
  au_CreatedAt :: go_time
  au_UpdatedAt :: go_time

record RegisterInput =
  ri_Email :: string
  ri_Name :: string
  ri_Password :: string

record LoginInput =
  li_Email :: string
  li_Password :: string

definition RegisterInput_Validate :: "RegisterInput \<Rightarrow> string option" where
  "RegisterInput_Validate i =
     (if trim_space (ri_Email i) = [] then Some ''account: register: email is required''
      else if \<not> contains (ri_Email i) ''@'' then Some ''account: register: invalid email format''
      else if trim_space (ri_Name i) = [] then Some ''account: register: name is required''
      else if length (ri_Password i) < 8 then Some ''account: register: password must be at least 8 characters''
      else None)"

definition LoginInput_Validate :: "LoginInput \<Rightarrow> string option" where
  "LoginInput_Validate i =
     (if trim_space (li_Email i) = [] then Some ''account: login: email is required''
      else if li_Password i = [] then Some ''account: login: password is required''
      else None)"

section \<open>Forms\<close>

record LoginForm =
  lf_Email :: string
  lf_Password :: string

record RegisterForm =
  rf_Email :: string
  rf_Name :: string
  rf_Password :: string
  rf_PasswordConfirm :: string

definition LoginForm_Validate :: "LoginForm \<Rightarrow> form_errors" where
  "LoginForm_Validate f =
     RequiredString ''password'' (lf_Password f) ''Password''
       (RequiredString ''email'' (lf_Email f) ''Email'' [])"

definition RegisterForm_Validate :: "RegisterForm \<Rightarrow> form_errors" where
  "RegisterForm_Validate f =
     (let e1 = RequiredString ''email'' (rf_Email f) ''Email'' [];
          e2 = RequiredString ''name'' (rf_Name f) ''Name'' e1;
          e3 = RequiredString ''password'' (rf_Password f) ''Password'' e2;
          e4 = (if length (rf_Password f) > 0 \<and> length (rf_Password f) < 8
                then errors_Add ''password'' ''Password must be at least 8 characters'' e3 else e3)
      in if rf_Password f \<noteq> rf_PasswordConfirm f
         then errors_Add ''password_confirm'' ''Passwords do not match'' e4 else e4)"

text \<open>The structs as \<open>reflect\<close> sees them, and the binding of a request to them.\<close>

definition LoginForm_fields :: "LoginForm \<Rightarrow> struct_field list" where
  "LoginForm_fields f =
     [string_field ''Email'' [(''form'', ''email'')] (lf_Email f),
      string_field ''Password'' [(''form'', ''password'')] (lf_Password f)]"

definition RegisterForm_fields :: "RegisterForm \<Rightarrow> struct_field list" where
  "RegisterForm_fields f =
     [string_field ''Email'' [(''form'', ''email'')] (rf_Email f),
      string_field ''Name'' [(''form'', ''name'')] (rf_Name f),
      string_field ''Password'' [(''form'', ''password'')] (rf_Password f),
      string_field ''PasswordConfirm'' [(''form'', ''password_confirm'')] (rf_PasswordConfirm f)]"

definition Bind_LoginForm :: "request \<Rightarrow> bind_error + LoginForm" where
  "Bind_LoginForm r =
     (case Bind r (PtrStruct (LoginForm_fields \<lparr>lf_Email = [], lf_Password = []\<rparr>)) of
        Inl e \<Rightarrow> Inl e
      | Inr fs \<Rightarrow> Inr \<lparr>lf_Email = field_string fs 0, lf_Password = field_string fs 1\<rparr>)"

definition Bind_RegisterForm :: "request \<Rightarrow> bind_error + RegisterForm" where
  "Bind_RegisterForm r =
     (case Bind r (PtrStruct (RegisterForm_fields
             \<lparr>rf_Email = [], rf_Name = [], rf_Password = [], rf_PasswordConfirm = []\<rparr>)) of
        Inl e \<Rightarrow> Inl e
      | Inr fs \<Rightarrow> Inr \<lparr>rf_Email = field_string fs 0, rf_Name = field_string fs 1,
                      rf_Password = field_string fs 2, rf_PasswordConfirm = field_string fs 3\<rparr>)"

lemma Bind_LoginForm_eq:
  "Bind_LoginForm r =
     (if r_FormError r then Inl ParseFormFailed
      else Inr \<lparr>lf_Email = FormValue r ''email'', lf_Password = FormValue r ''password''\<rparr>)"
  by (simp add: Let_def Bind_LoginForm_def Bind_def LoginForm_fields_def string_field_def form_field_def Tag_Get_def
      field_string_def)

lemma Bind_RegisterForm_eq:
  "Bind_RegisterForm r =
     (if r_FormError r then Inl ParseFormFailed
      else Inr \<lparr>rf_Email = FormValue r ''email'', rf_Name = FormValue r ''name'',
                rf_Password = FormValue r ''password'', rf_PasswordConfirm = FormValue r ''password_confirm''\<rparr>)"
  by (simp add: Let_def Bind_RegisterForm_def Bind_def RegisterForm_fields_def string_field_def form_field_def Tag_Get_def
      field_string_def)

lemma LoginForm_ok:
  "\<not> HasErrors (LoginForm_Validate f) \<longleftrightarrow> trim_space (lf_Email f) \<noteq> [] \<and> trim_space (lf_Password f) \<noteq> []"
  by (auto simp: LoginForm_Validate_def HasErrors_RequiredString)

lemma trim_space_Nil [simp]: "trim_space [] = []"
  by (simp add: trim_space_def)

lemma RegisterForm_ok:
  "\<not> HasErrors (RegisterForm_Validate f) \<longleftrightarrow>
     trim_space (rf_Email f) \<noteq> [] \<and> trim_space (rf_Name f) \<noteq> [] \<and> trim_space (rf_Password f) \<noteq> [] \<and>
     8 \<le> length (rf_Password f) \<and> rf_Password f = rf_PasswordConfirm f"
  by (cases "rf_Password f = []") (auto simp: RegisterForm_Validate_def Let_def HasErrors_RequiredString)

section \<open>Service\<close>

text \<open>The interfaces the service calls, as records of operations on the world.\<close>

record 'w repository =
  repo_Create :: "go_context \<Rightarrow> account_user \<Rightarrow> 'w \<Rightarrow> (string + account_user) \<times> 'w"
  repo_FindByID :: "go_context \<Rightarrow> int \<Rightarrow> 'w \<Rightarrow> (string + account_user option) \<times> 'w"
  repo_FindByEmail :: "go_context \<Rightarrow> string \<Rightarrow> 'w \<Rightarrow> (string + account_user option) \<times> 'w"

record hasher =
  hs_Hash :: "string \<Rightarrow> byte list \<Rightarrow> (string + string) \<times> byte list"
  hs_Verify :: "string \<Rightarrow> string \<Rightarrow> string option"

record 'w account_service =
  sv_repo :: "'w repository"
  sv_hasher :: hasher
  sv_logger :: logger
  sv_tokenService :: "TokenService option"

definition NewService :: "'w repository \<Rightarrow> hasher \<Rightarrow> logger \<Rightarrow> 'w account_service" where
  "NewService repo hs lg = \<lparr>sv_repo = repo, sv_hasher = hs, sv_logger = lg, sv_tokenService = None\<rparr>"

text \<open>\<open>Create\<close> sets the identifier of the user it is given; the result is that user.\<close>

definition svc_Register ::
    "('m world_scheme) account_service \<Rightarrow> go_context \<Rightarrow> RegisterInput \<Rightarrow> 'm world_scheme \<Rightarrow>
     (string + account_user) \<times> 'm world_scheme"
where
  "svc_Register sv ctx input s =
     (case RegisterInput_Validate input of
        Some err \<Rightarrow> (Inl err, s)
      | None \<Rightarrow>
          (let (found, s1) = repo_FindByEmail (sv_repo sv) ctx (ri_Email input) s;
               existing = (case found of Inl _ \<Rightarrow> None | Inr x \<Rightarrow> x)
           in if existing \<noteq> None then (Inl ''account: register: email already in use'', s1)
              else
                (case hs_Hash (sv_hasher sv) (ri_Password input) (w_entropy s1) of
                   (Inl err, rest) \<Rightarrow> (Inl (''account: register: '' @ err), s1\<lparr>w_entropy := rest\<rparr>)
                 | (Inr hash, rest) \<Rightarrow>
                     (let s2 = s1\<lparr>w_entropy := rest\<rparr>;
                          u = \<lparr>au_ID = 0, au_Email = ri_Email input, au_Name = ri_Name input,
                               au_PasswordHash = hash, au_Roles = [RoleViewer],
                               au_CreatedAt = w_now s2, au_UpdatedAt = w_now s2\<rparr>
                      in case repo_Create (sv_repo sv) ctx u s2 of
                           (Inl err, s3) \<Rightarrow> (Inl (''account: register: '' @ err), s3)
                         | (Inr u', s3) \<Rightarrow>
                             (Inr u', log_Info (sv_logger sv) ''user registered''
                               [(''user_id'', itoa (au_ID u')), (''email'', au_Email u')] s3)))))"

definition svc_Authenticate ::
    "('m world_scheme) account_service \<Rightarrow> go_context \<Rightarrow> LoginInput \<Rightarrow> 'm world_scheme \<Rightarrow>
     (string + account_user) \<times> 'm world_scheme"
where
  "svc_Authenticate sv ctx input s =
     (case LoginInput_Validate input of
        Some err \<Rightarrow> (Inl err, s)
      | None \<Rightarrow>
          (case repo_FindByEmail (sv_repo sv) ctx (li_Email input) s of
             (Inl err, s1) \<Rightarrow> (Inl (''account: authenticate: '' @ err), s1)
           | (Inr None, s1) \<Rightarrow> (Inl ''account: authenticate: invalid credentials'', s1)
           | (Inr (Some u), s1) \<Rightarrow>
               (case hs_Verify (sv_hasher sv) (li_Password input) (au_PasswordHash u) of
                  Some err \<Rightarrow> (Inl ''account: authenticate: invalid credentials'', s1)
                | None \<Rightarrow>
                    (Inr u, log_Info (sv_logger sv) ''user authenticated'' [(''user_id'', itoa (au_ID u))] s1))))"

definition svc_FindByID ::
    "('m world_scheme) account_service \<Rightarrow> go_context \<Rightarrow> int \<Rightarrow> 'm world_scheme \<Rightarrow>
     (string + account_user option) \<times> 'm world_scheme"
where
  "svc_FindByID sv ctx i s =
     (case repo_FindByID (sv_repo sv) ctx i s of
        (Inl err, s1) \<Rightarrow> (Inl (''account: find: '' @ err), s1)
      | (Inr u, s1) \<Rightarrow> (Inr u, s1))"

section \<open>The repository contract\<close>

text \<open>
  \<open>view\<close> is the stored data.  Finding does not change it and depends on nothing else; creating
  makes the user findable by its new identifier, and by its email unless an older user has it,
  and leaves every other lookup as it was.  \<open>room\<close> is what \<open>create\<close> needs of the store.
\<close>

locale user_repository =
  fixes create :: "go_context \<Rightarrow> account_user \<Rightarrow> 'm world_scheme \<Rightarrow> (string + account_user) \<times> 'm world_scheme"
    and find_id :: "go_context \<Rightarrow> int \<Rightarrow> 'm world_scheme \<Rightarrow> (string + account_user option) \<times> 'm world_scheme"
    and find_email :: "go_context \<Rightarrow> string \<Rightarrow> 'm world_scheme \<Rightarrow> (string + account_user option) \<times> 'm world_scheme"
    and view :: "'m world_scheme \<Rightarrow> 'v"
    and room :: "'v \<Rightarrow> bool"
  assumes find_id_view: "view (snd (find_id c i s)) = view s"
    and find_email_view: "view (snd (find_email c e s)) = view s"
    and find_id_pure: "view s = view t \<Longrightarrow> fst (find_id c i s) = fst (find_id c i t)"
    and find_email_pure: "view s = view t \<Longrightarrow> fst (find_email c e s) = fst (find_email c e t)"
    and create_user: "room (view s) \<Longrightarrow> create c u s = (Inr u', t) \<Longrightarrow> u' = u\<lparr>au_ID := au_ID u'\<rparr>"
    and create_find_id: "room (view s) \<Longrightarrow> create c u s = (Inr u', t) \<Longrightarrow>
      fst (find_id c i t) = (if i = au_ID u' then Inr (Some u') else fst (find_id c i s))"
    and create_find_email: "room (view s) \<Longrightarrow> create c u s = (Inr u', t) \<Longrightarrow>
      fst (find_email c e t) =
        (if e = au_Email u \<and> fst (find_email c e s) = Inr None then Inr (Some u') else fst (find_email c e s))"
    and view_log: "view (log_at v lg msg args s) = view s"
    and view_entropy: "view (s\<lparr>w_entropy := x\<rparr>) = view s"

locale account_contract =
  user_repository create find_id find_email view room + password_hasher lawful hash verify min_len
  for create :: "go_context \<Rightarrow> account_user \<Rightarrow> 'm world_scheme \<Rightarrow> (string + account_user) \<times> 'm world_scheme"
    and find_id :: "go_context \<Rightarrow> int \<Rightarrow> 'm world_scheme \<Rightarrow> (string + account_user option) \<times> 'm world_scheme"
    and find_email :: "go_context \<Rightarrow> string \<Rightarrow> 'm world_scheme \<Rightarrow> (string + account_user option) \<times> 'm world_scheme"
    and view :: "'m world_scheme \<Rightarrow> 'v"
    and room :: "'v \<Rightarrow> bool"
    and lawful :: bool
    and hash :: "string \<Rightarrow> byte list \<Rightarrow> (string + string) \<times> byte list"
    and verify :: "string \<Rightarrow> string \<Rightarrow> string option"
    and min_len :: nat
begin

abbreviation service :: "logger \<Rightarrow> TokenService option \<Rightarrow> ('m world_scheme) account_service" where
  "service lg ts \<equiv>
     \<lparr>sv_repo = \<lparr>repo_Create = create, repo_FindByID = find_id, repo_FindByEmail = find_email\<rparr>,
      sv_hasher = \<lparr>hs_Hash = hash, hs_Verify = verify\<rparr>, sv_logger = lg, sv_tokenService = ts\<rparr>"

text \<open>What a successful registration did.\<close>

lemma Register_Inr:
  assumes "svc_Register (service lg ts) ctx input s = (Inr u, t)"
  shows "\<exists>s1 h rest s2 s3. RegisterInput_Validate input = None \<and> find_email ctx (ri_Email input) s = (s1, s2) \<and>
    (\<forall>x. s1 \<noteq> Inr (Some x)) \<and> hash (ri_Password input) (w_entropy s2) = (Inr h, rest) \<and>
    create ctx \<lparr>au_ID = 0, au_Email = ri_Email input, au_Name = ri_Name input, au_PasswordHash = h,
      au_Roles = [RoleViewer], au_CreatedAt = w_now s2, au_UpdatedAt = w_now s2\<rparr> (s2\<lparr>w_entropy := rest\<rparr>) =
      (Inr u, s3) \<and>
    view t = view s3 \<and> view s2 = view s"
proof -
  obtain f s2 where f: "find_email ctx (ri_Email input) s = (f, s2)" by fastforce
  have v: "view s2 = view s" using find_email_view [of ctx "ri_Email input" s] f by simp
  have val: "RegisterInput_Validate input = None"
    using assms by (auto simp: svc_Register_def split: option.splits)
  have ex: "(case f of Inl _ \<Rightarrow> None | Inr x \<Rightarrow> x) = None"
    using assms val f by (auto simp: svc_Register_def Let_def split: if_splits)
  obtain h rest where h: "hash (ri_Password input) (w_entropy s2) = (Inr h, rest)"
    using assms val f ex by (auto simp: svc_Register_def Let_def split: prod.splits sum.splits)
  let ?u = "\<lparr>au_ID = 0, au_Email = ri_Email input, au_Name = ri_Name input, au_PasswordHash = h,
      au_Roles = [RoleViewer], au_CreatedAt = w_now s2, au_UpdatedAt = w_now s2\<rparr>"
  obtain s3 where c: "create ctx ?u (s2\<lparr>w_entropy := rest\<rparr>) = (Inr u, s3)"
      "t = log_Info lg ''user registered'' [(''user_id'', itoa (au_ID u)), (''email'', au_Email u)] s3"
    using assms val f ex h by (auto simp: svc_Register_def Let_def split: prod.splits sum.splits)
  then have "view t = view s3" by (simp add: log_Info_def view_log)
  with val f ex h c v show ?thesis by (auto split: sum.splits)
qed

text \<open>A registered user can log in with the password it registered with.\<close>

lemma Register_Authenticate:
  assumes "lawful" "room (view s)" "fst (find_email ctx (ri_Email input) s) = Inr None"
    and reg: "svc_Register (service lg ts) ctx input s = (Inr u, t)" and "view t' = view t"
  shows "fst (svc_Authenticate (service lg ts) ctx \<lparr>li_Email = ri_Email input, li_Password = ri_Password input\<rparr> t') =
      Inr u \<and> au_Email u = ri_Email input \<and> au_Name u = ri_Name input \<and> au_Roles u = [RoleViewer] \<and>
    fst (svc_FindByID (service lg ts) ctx (au_ID u) t') = Inr (Some u)"
proof -
  from Register_Inr [OF reg] obtain s1 h rest s2 s3 where
    val: "RegisterInput_Validate input = None" and h: "hash (ri_Password input) (w_entropy s2) = (Inr h, rest)" and
    c: "create ctx \<lparr>au_ID = 0, au_Email = ri_Email input, au_Name = ri_Name input, au_PasswordHash = h,
      au_Roles = [RoleViewer], au_CreatedAt = w_now s2, au_UpdatedAt = w_now s2\<rparr> (s2\<lparr>w_entropy := rest\<rparr>) =
      (Inr u, s3)" and
    v: "view t = view s3" "view s2 = view s" by metis
  have rm: "room (view (s2\<lparr>w_entropy := rest\<rparr>))" using v assms(2) by (simp add: view_entropy)
  from create_user [OF rm c]
  have u: "au_Email u = ri_Email input" "au_Name u = ri_Name input" "au_Roles u = [RoleViewer]" "au_PasswordHash u = h"
    by (metis account_user.select_convs account_user.update_convs(1))+
  have "fst (find_email ctx (ri_Email input) (s2\<lparr>w_entropy := rest\<rparr>)) = Inr None"
    using assms(3) find_email_pure [of "s2\<lparr>w_entropy := rest\<rparr>" s] v by (simp add: view_entropy)
  with create_find_email [OF rm c, of "ri_Email input"]
  have "fst (find_email ctx (ri_Email input) s3) = Inr (Some u)" by simp
  then have fe: "fst (find_email ctx (ri_Email input) t') = Inr (Some u)"
    using find_email_pure [of t' s3] v assms(5) by simp
  have fi: "fst (find_id ctx (au_ID u) t') = Inr (Some u)"
    using create_find_id [OF rm c, of "au_ID u"] find_id_pure [of t' s3] v assms(5) by simp
  have "LoginInput_Validate \<lparr>li_Email = ri_Email input, li_Password = ri_Password input\<rparr> = None"
    using val by (auto simp: RegisterInput_Validate_def LoginInput_Validate_def split: if_splits)
  with fe fi u verify_hash [OF assms(1) h] show ?thesis
    by (auto simp: svc_Authenticate_def svc_FindByID_def split: prod.splits)
qed

text \<open>Who is let in: only with a stored user of that email whose hash the password verifies.\<close>

lemma Authenticate_sound:
  "svc_Authenticate (service lg ts) ctx input s = (Inr u, t) \<Longrightarrow>
     fst (find_email ctx (li_Email input) s) = Inr (Some u) \<and> verify (li_Password input) (au_PasswordHash u) = None \<and>
     view t = view s"
  using find_email_view [of ctx "li_Email input" s]
  by (auto simp: svc_Authenticate_def log_Info_def view_log split: option.splits prod.splits sum.splits)

text \<open>An email in use is refused, and nothing is stored.\<close>

lemma Register_duplicate:
  assumes "fst (find_email ctx (ri_Email input) s) = Inr (Some x)"
  shows "\<exists>err. fst (svc_Register (service lg ts) ctx input s) = Inl err \<and>
    view (snd (svc_Register (service lg ts) ctx input s)) = view s"
  using assms find_email_view [of ctx "ri_Email input" s]
  by (auto simp: svc_Register_def Let_def split: option.splits prod.splits sum.splits)

end

end
