(* ===== verification/Middleware_RateLimit.thy ===== *)
theory Middleware_RateLimit
  imports Writer
begin

text \<open>
  \<open>middleware/rate_limit.go\<close>: one token bucket per client address, made on first use and thrown
  away when it has been idle for ten minutes.  The bucket (\<open>golang.org/x/time/rate\<close>) is a
  parameter.  Main result: the throwing away and the sharing of the map cannot be seen; every
  client is answered exactly as by a bucket of its own (\<open>Allow_per_client\<close>), provided an idle
  bucket is full again within the ten minutes (\<open>refills\<close>).
\<close>

section \<open>Limiters\<close>

record 'l rate_lib =
  lim_NewLimiter :: "int \<Rightarrow> int \<Rightarrow> 'l"
  lim_Allow :: "go_time \<Rightarrow> 'l \<Rightarrow> bool \<times> 'l"

record RateLimitConfig =
  rlc_RPS :: int
  rlc_Burst :: int

record 'l limiterEntry =
  le_limiter :: 'l
  le_lastSeen :: go_time

record 'l RateLimiter =
  rl_limiters :: "string \<rightharpoonup> 'l limiterEntry"
  rl_rps :: int
  rl_burst :: int
  rl_cleanupAfter :: duration
  rl_lastCleanup :: go_time
  rl_cleanupEvery :: int
  rl_requests :: int

definition NewRateLimiter :: "int \<Rightarrow> int \<Rightarrow> 'l RateLimiter" where
  "NewRateLimiter rps burst =
     \<lparr>rl_limiters = (\<lambda>_. None), rl_rps = rps, rl_burst = burst, rl_cleanupAfter = 10 * minute,
      rl_lastCleanup = 0, rl_cleanupEvery = 256, rl_requests = 0\<rparr>"

text \<open>The loop deletes every entry that has expired; the order does not matter.\<close>

definition keep_entry :: "'l RateLimiter \<Rightarrow> go_time \<Rightarrow> 'l limiterEntry \<Rightarrow> bool" where
  "keep_entry rl now e \<longleftrightarrow> \<not> (now - le_lastSeen e > rl_cleanupAfter rl)"

definition cleanupExpiredLocked :: "go_time \<Rightarrow> 'l RateLimiter \<Rightarrow> 'l RateLimiter" where
  "cleanupExpiredLocked now rl =
     (if rl_cleanupAfter rl \<le> 0 then rl
      else if \<not> is_zero_time (rl_lastCleanup rl) \<and> now - rl_lastCleanup rl < rl_cleanupAfter rl then rl
      else rl\<lparr>rl_limiters := (\<lambda>ip. case rl_limiters rl ip of
                Some e \<Rightarrow> (if keep_entry rl now e then Some e else None) | None \<Rightarrow> None),
              rl_lastCleanup := now\<rparr>)"

text \<open>The limiter is returned by reference; \<open>Allow\<close> below writes it back.\<close>

definition getLimiter :: "'l rate_lib \<Rightarrow> go_time \<Rightarrow> string \<Rightarrow> 'l RateLimiter \<Rightarrow> 'l limiterEntry \<times> 'l RateLimiter" where
  "getLimiter L now ip rl0 =
     (let rl1 = rl0\<lparr>rl_requests := wrap64 (rl_requests rl0 + 1)\<rparr>;
          rl = (if rl_cleanupEvery rl1 > 0 \<and> rl_requests rl1 mod rl_cleanupEvery rl1 = 0
                then cleanupExpiredLocked now rl1 else rl1);
          entry = (case rl_limiters rl ip of
                     None \<Rightarrow> \<lparr>le_limiter = lim_NewLimiter L (rl_rps rl) (rl_burst rl), le_lastSeen = now\<rparr>
                   | Some e \<Rightarrow> e\<lparr>le_lastSeen := now\<rparr>)
      in (entry, rl\<lparr>rl_limiters := (rl_limiters rl)(ip \<mapsto> entry)\<rparr>))"

definition Allow :: "'l rate_lib \<Rightarrow> go_time \<Rightarrow> string \<Rightarrow> 'l RateLimiter \<Rightarrow> bool \<times> 'l RateLimiter" where
  "Allow L now ip rl0 =
     (let (entry, rl) = getLimiter L now ip rl0;
          (ok, l) = lim_Allow L now (le_limiter entry)
      in (ok, rl\<lparr>rl_limiters := (rl_limiters rl)(ip \<mapsto> entry\<lparr>le_limiter := l\<rparr>)\<rparr>))"

section \<open>The middleware\<close>

text \<open>\<open>net.SplitHostPort\<close>: the host, or \<open>None\<close> for an error.\<close>

definition last_cut :: "char \<Rightarrow> string \<Rightarrow> (string \<times> string) option" where
  "last_cut c s = (case cut (rev s) c of None \<Rightarrow> None | Some (a, b) \<Rightarrow> Some (rev b, rev a))"

definition SplitHostPort :: "string \<Rightarrow> (string \<times> string) option" where
  "SplitHostPort s =
     (case last_cut (CHR '':'') s of
        None \<Rightarrow> None
      | Some (pre, port) \<Rightarrow>
          (if has_prefix s ''['' then
             (case cut s (CHR '']'') of
                None \<Rightarrow> None
              | Some (h, rest) \<Rightarrow>
                  (if length h + 1 \<noteq> length pre then None
                   else if CHR ''['' \<in> set (tl s) \<or> CHR '']'' \<in> set rest then None
                   else Some (tl h, port)))
           else if CHR '':'' \<in> set pre \<or> CHR ''['' \<in> set s \<or> CHR '']'' \<in> set s then None
           else Some (pre, port)))"

definition extractIP :: "request \<Rightarrow> string" where
  "extractIP r = (case SplitHostPort (r_RemoteAddr r) of None \<Rightarrow> r_RemoteAddr r | Some (ip, port) \<Rightarrow> ip)"

record 'l rl_world = world +
  w_rate_limiter :: "'l RateLimiter"

definition rate_limit_config :: "RateLimitConfig list \<Rightarrow> int \<times> int" where
  "rate_limit_config cfgs =
     (let cfg = (case cfgs of [] \<Rightarrow> \<lparr>rlc_RPS = 100, rlc_Burst = 0\<rparr> | c # _ \<Rightarrow> c);
          rps = (if rlc_RPS cfg = 0 then 100 else rlc_RPS cfg);
          burst = (if rlc_Burst cfg = 0 then rps * 2 else rlc_Burst cfg)
      in (rps, burst))"

text \<open>The limiter object is made when the middleware is built.\<close>

definition rate_limit_init :: "RateLimitConfig list \<Rightarrow> 'l RateLimiter" where
  "rate_limit_init cfgs = (let (rps, burst) = rate_limit_config cfgs in NewRateLimiter rps burst)"

definition RateLimit :: "'l rate_lib \<Rightarrow> (('l, 'm) rl_world_scheme) middleware" where
  "RateLimit L next w r s =
     (let (ok, rl) = Allow L (w_now s) (extractIP r) (w_rate_limiter s);
          s1 = s\<lparr>w_rate_limiter := rl\<rparr>
      in if \<not> ok then Done (http_Error w ''Too Many Requests'' 429 (set_header w ''Retry-After'' ''1'' s1))
         else next w r s1)"

section \<open>A client's own bucket\<close>

text \<open>The answers and the final state of one bucket asked at the given times.\<close>

fun bucket_run :: "'l rate_lib \<Rightarrow> go_time list \<Rightarrow> 'l \<Rightarrow> bool list \<times> 'l" where
  "bucket_run L [] l = ([], l)"
| "bucket_run L (t # ts) l =
     (let (ok, l') = lim_Allow L t l; (oks, l'') = bucket_run L ts l' in (ok # oks, l''))"

abbreviation answers :: "'l rate_lib \<Rightarrow> go_time list \<Rightarrow> 'l \<Rightarrow> bool list" where
  "answers L ts l \<equiv> fst (bucket_run L ts l)"

abbreviation after_run :: "'l rate_lib \<Rightarrow> go_time list \<Rightarrow> 'l \<Rightarrow> 'l" where
  "after_run L ts l \<equiv> snd (bucket_run L ts l)"

definition same_from :: "'l rate_lib \<Rightarrow> go_time \<Rightarrow> 'l \<Rightarrow> 'l \<Rightarrow> bool" where
  "same_from L t l l' \<longleftrightarrow> (\<forall>ts. sorted (t # ts) \<longrightarrow> answers L ts l = answers L ts l')"

text \<open>
  The documented refill: a bucket idle for longer than \<open>d\<close> answers like a new, full one.
\<close>

definition refills :: "'l rate_lib \<Rightarrow> int \<Rightarrow> int \<Rightarrow> duration \<Rightarrow> bool" where
  "refills L rps burst d \<longleftrightarrow>
     (\<forall>ts t. ts \<noteq> [] \<and> sorted ts \<and> t - last ts > d \<longrightarrow>
        same_from L t (after_run L ts (lim_NewLimiter L rps burst)) (lim_NewLimiter L rps burst))"

lemma bucket_run_append:
  "bucket_run L (ts @ us) l =
     (answers L ts l @ answers L us (after_run L ts l), after_run L us (after_run L ts l))"
  by (induction ts arbitrary: l) (simp_all add: case_prod_beta)

lemma same_from_refl [simp]: "same_from L t l l"
  by (simp add: same_from_def)

lemma same_from_trans: "same_from L t a b \<Longrightarrow> same_from L t b c \<Longrightarrow> same_from L t a c"
  by (simp add: same_from_def)

lemma same_from_mono: "same_from L t a b \<Longrightarrow> t \<le> u \<Longrightarrow> same_from L u a b"
  unfolding same_from_def by (metis list.set_intros(1) order_trans sorted_simps(2))

lemma same_from_Allow:
  assumes "same_from L t a b"
  shows "fst (lim_Allow L t a) = fst (lim_Allow L t b)"
    and "same_from L t (snd (lim_Allow L t a)) (snd (lim_Allow L t b))"
proof -
  have eq: "answers L (t # ts) a = answers L (t # ts) b" if "sorted (t # ts)" for ts
    by (rule assms [unfolded same_from_def, rule_format]) (use that in simp)
  show "fst (lim_Allow L t a) = fst (lim_Allow L t b)"
    using eq [of "[]"] by (simp add: case_prod_beta)
  show "same_from L t (snd (lim_Allow L t a)) (snd (lim_Allow L t b))"
    unfolding same_from_def using eq by (simp add: case_prod_beta)
qed

section \<open>The shared map hides nothing\<close>

text \<open>
  The state of one client in the map after it asked at the times \<open>ts\<close>: its entry, if any, is a
  bucket asked at times \<open>us\<close> that cannot be told from the client's own.
\<close>

definition entry_inv :: "'l rate_lib \<Rightarrow> 'l \<Rightarrow> 'l limiterEntry option \<Rightarrow> go_time list \<Rightarrow> bool" where
  "entry_inv L new oe us \<longleftrightarrow>
     (case oe of
        None \<Rightarrow> us = []
      | Some e \<Rightarrow> us \<noteq> [] \<and> le_lastSeen e = last us \<and> le_limiter e = after_run L us new)"

definition client_inv :: "'l rate_lib \<Rightarrow> 'l RateLimiter \<Rightarrow> string \<Rightarrow> go_time list \<Rightarrow> go_time \<Rightarrow> bool" where
  "client_inv L rl ip ts t \<longleftrightarrow>
     (\<exists>us. sorted us \<and> (\<forall>u \<in> set us. u \<le> t) \<and>
        same_from L t (after_run L ts (lim_NewLimiter L (rl_rps rl) (rl_burst rl)))
          (after_run L us (lim_NewLimiter L (rl_rps rl) (rl_burst rl))) \<and>
        entry_inv L (lim_NewLimiter L (rl_rps rl) (rl_burst rl)) (rl_limiters rl ip) us)"

definition limiter_ok :: "'l rate_lib \<Rightarrow> 'l RateLimiter \<Rightarrow> bool" where
  "limiter_ok L rl \<longleftrightarrow> refills L (rl_rps rl) (rl_burst rl) (rl_cleanupAfter rl)"

lemma client_inv_mono: "client_inv L rl ip ts t \<Longrightarrow> t \<le> u \<Longrightarrow> client_inv L rl ip ts u"
  unfolding client_inv_def using same_from_mono by (metis order_trans)

lemma client_inv_requests [simp]:
  "client_inv L (rl\<lparr>rl_requests := n\<rparr>) ip ts t = client_inv L rl ip ts t"
  by (simp add: client_inv_def)

lemma cleanup_fields [simp]:
  "rl_rps (cleanupExpiredLocked t rl) = rl_rps rl" "rl_burst (cleanupExpiredLocked t rl) = rl_burst rl"
  "rl_cleanupAfter (cleanupExpiredLocked t rl) = rl_cleanupAfter rl"
  by (simp_all add: cleanupExpiredLocked_def)

text \<open>A cleanup is not noticed.\<close>

lemma client_inv_cleanup:
  assumes ok: "limiter_ok L rl" and inv: "client_inv L rl ip ts t"
  shows "client_inv L (cleanupExpiredLocked t rl) ip ts t"
proof (cases "rl_limiters (cleanupExpiredLocked t rl) ip = rl_limiters rl ip")
  case True
  then show ?thesis using inv by (simp add: client_inv_def)
next
  case False
  let ?new = "lim_NewLimiter L (rl_rps rl) (rl_burst rl)"
  from inv obtain us where us: "sorted us" "same_from L t (after_run L ts ?new) (after_run L us ?new)"
    "entry_inv L ?new (rl_limiters rl ip) us"
    unfolding client_inv_def by blast
  from False obtain e where e: "rl_limiters rl ip = Some e" "\<not> keep_entry rl t e"
      "rl_limiters (cleanupExpiredLocked t rl) ip = None"
    by (auto simp: cleanupExpiredLocked_def split: if_splits option.splits)
  with us(3) have "us \<noteq> []" "t - last us > rl_cleanupAfter rl" by (simp_all add: keep_entry_def entry_inv_def)
  with ok us(1) have "same_from L t (after_run L us ?new) ?new"
    by (simp add: limiter_ok_def refills_def)
  with us(2) have "same_from L t (after_run L ts ?new) ?new" by (rule same_from_trans)
  with e(3) show ?thesis unfolding client_inv_def by (intro exI [of _ "[]"]) (simp add: entry_inv_def)
qed

lemma getLimiter_fields:
  "rl_rps (snd (getLimiter L t ip rl)) = rl_rps rl" "rl_burst (snd (getLimiter L t ip rl)) = rl_burst rl"
  "rl_cleanupAfter (snd (getLimiter L t ip rl)) = rl_cleanupAfter rl"
  by (simp_all add: getLimiter_def Let_def)

text \<open>The request counter and the cleanup before the lookup.\<close>

definition before_lookup :: "go_time \<Rightarrow> 'l RateLimiter \<Rightarrow> 'l RateLimiter" where
  "before_lookup t rl0 =
     (let rl1 = rl0\<lparr>rl_requests := wrap64 (rl_requests rl0 + 1)\<rparr>
      in if rl_cleanupEvery rl1 > 0 \<and> rl_requests rl1 mod rl_cleanupEvery rl1 = 0
         then cleanupExpiredLocked t rl1 else rl1)"

definition client_entry :: "'l rate_lib \<Rightarrow> go_time \<Rightarrow> string \<Rightarrow> 'l RateLimiter \<Rightarrow> 'l" where
  "client_entry L t ip rl =
     (case rl_limiters rl ip of None \<Rightarrow> lim_NewLimiter L (rl_rps rl) (rl_burst rl) | Some e \<Rightarrow> le_limiter e)"

lemma getLimiter_eq:
  "getLimiter L t ip rl0 =
     (let rl = before_lookup t rl0;
          entry = (case rl_limiters rl ip of
                     None \<Rightarrow> \<lparr>le_limiter = lim_NewLimiter L (rl_rps rl) (rl_burst rl), le_lastSeen = t\<rparr>
                   | Some e \<Rightarrow> e\<lparr>le_lastSeen := t\<rparr>)
      in (entry, rl\<lparr>rl_limiters := (rl_limiters rl)(ip \<mapsto> entry)\<rparr>))"
  by (simp add: getLimiter_def before_lookup_def Let_def)

lemma entry_fields:
  "e\<lparr>le_lastSeen := t, le_limiter := l\<rparr> = \<lparr>le_limiter = l, le_lastSeen = t\<rparr>" for e :: "'l limiterEntry"
  by (cases e) simp

lemma Allow_eq:
  "Allow L t ip rl0 =
     (let rl = before_lookup t rl0; (ok, l) = lim_Allow L t (client_entry L t ip rl)
      in (ok, rl\<lparr>rl_limiters := (rl_limiters rl)(ip \<mapsto> \<lparr>le_limiter = l, le_lastSeen = t\<rparr>)\<rparr>))"
  by (auto simp: Allow_def getLimiter_eq client_entry_def Let_def entry_fields split: option.splits prod.splits)

lemma before_lookup_fields [simp]:
  "rl_rps (before_lookup t rl) = rl_rps rl" "rl_burst (before_lookup t rl) = rl_burst rl"
  "rl_cleanupAfter (before_lookup t rl) = rl_cleanupAfter rl"
  by (simp_all add: before_lookup_def Let_def)

lemma client_inv_before_lookup:
  assumes "limiter_ok L rl" "client_inv L rl ip ts t"
  shows "client_inv L (before_lookup t rl) ip ts t"
proof -
  have "limiter_ok L (rl\<lparr>rl_requests := n\<rparr>)" for n using assms(1) by (simp add: limiter_ok_def)
  from client_inv_cleanup [OF this] show ?thesis
    using assms(2) by (simp add: before_lookup_def Let_def)
qed

text \<open>One request: the client gets the answer of its own bucket, the others are not affected.\<close>

lemma Allow_step:
  assumes ok: "limiter_ok L rl" and inv: "client_inv L rl ip ts t"
  shows "limiter_ok L (snd (Allow L t ip' rl))"
    and "ip' \<noteq> ip \<Longrightarrow> client_inv L (snd (Allow L t ip' rl)) ip ts t"
    and "fst (Allow L t ip rl) =
      fst (lim_Allow L t (after_run L ts (lim_NewLimiter L (rl_rps rl) (rl_burst rl))))"
    and "client_inv L (snd (Allow L t ip rl)) ip (ts @ [t]) t"
proof -
  let ?rl = "before_lookup t rl" and ?new = "lim_NewLimiter L (rl_rps rl) (rl_burst rl)"
  note inv' = client_inv_before_lookup [OF ok inv]
  show "limiter_ok L (snd (Allow L t ip' rl))"
    using ok by (simp add: Allow_eq Let_def limiter_ok_def case_prod_beta)
  show "client_inv L (snd (Allow L t ip' rl)) ip ts t" if "ip' \<noteq> ip"
    using inv' that by (simp add: Allow_eq Let_def client_inv_def case_prod_beta)
  from inv' obtain us where us: "sorted us" "\<forall>u \<in> set us. u \<le> t"
      "same_from L t (after_run L ts ?new) (after_run L us ?new)"
      "entry_inv L ?new (rl_limiters ?rl ip) us"
    unfolding client_inv_def by auto
  then have ce: "client_entry L t ip ?rl = after_run L us ?new"
    by (auto simp: client_entry_def entry_inv_def split: option.splits)
  show "fst (Allow L t ip rl) = fst (lim_Allow L t (after_run L ts ?new))"
    using same_from_Allow(1) [OF us(3)] ce by (simp add: Allow_eq Let_def case_prod_beta)
  have "same_from L t (after_run L (ts @ [t]) ?new) (after_run L (us @ [t]) ?new)"
    using same_from_Allow(2) [OF us(3)] by (simp add: bucket_run_append case_prod_beta)
  moreover have "sorted (us @ [t])" using us(1,2) by (simp add: sorted_append)
  ultimately show "client_inv L (snd (Allow L t ip rl)) ip (ts @ [t]) t"
    unfolding client_inv_def using us ce
    by (intro exI [of _ "us @ [t]"])
      (auto simp: Allow_eq Let_def case_prod_beta bucket_run_append entry_inv_def)
qed

text \<open>A sequence of requests on the shared limiter, with the answer each got.\<close>

fun serve :: "'l rate_lib \<Rightarrow> (go_time \<times> string) list \<Rightarrow> 'l RateLimiter \<Rightarrow> (string \<times> bool) list" where
  "serve L [] rl = []"
| "serve L ((t, ip) # reqs) rl = (let (ok, rl') = Allow L t ip rl in (ip, ok) # serve L reqs rl')"

definition times_of :: "string \<Rightarrow> (go_time \<times> string) list \<Rightarrow> go_time list" where
  "times_of ip reqs = map fst (filter (\<lambda>q. snd q = ip) reqs)"

definition answers_to :: "string \<Rightarrow> (string \<times> bool) list \<Rightarrow> bool list" where
  "answers_to ip as = map snd (filter (\<lambda>a. fst a = ip) as)"

lemma serve_client:
  "limiter_ok L rl \<Longrightarrow> client_inv L rl ip ts t0 \<Longrightarrow> sorted (t0 # map fst reqs) \<Longrightarrow>
     answers_to ip (serve L reqs rl) =
     answers L (times_of ip reqs) (after_run L ts (lim_NewLimiter L (rl_rps rl) (rl_burst rl)))"
proof (induction reqs arbitrary: rl ts t0)
  case Nil
  then show ?case by (simp add: answers_to_def times_of_def)
next
  case (Cons q reqs)
  obtain t ip' where q: "q = (t, ip')" by (cases q)
  have t: "t0 \<le> t" "sorted (t # map fst reqs)" using Cons.prems(3) q by simp_all
  have inv: "client_inv L rl ip ts t" by (rule client_inv_mono [OF Cons.prems(2) t(1)])
  note step = Allow_step [OF Cons.prems(1) inv]
  let ?rl' = "snd (Allow L t ip' rl)"
  have f: "rl_rps ?rl' = rl_rps rl" "rl_burst ?rl' = rl_burst rl"
    by (simp_all add: Allow_eq Let_def case_prod_beta)
  show ?case
  proof (cases "ip' = ip")
    case True
    from Cons.IH [OF step(1) _ t(2)] step(3,4) True f
    show ?thesis
      by (simp add: q answers_to_def times_of_def case_prod_beta bucket_run_append)
  next
    case False
    from Cons.IH [OF step(1) step(2) [OF False] t(2)] False f
    show ?thesis by (simp add: q answers_to_def times_of_def case_prod_beta)
  qed
qed

lemma client_inv_init: "client_inv L (NewRateLimiter rps burst) ip [] t"
  by (simp add: client_inv_def NewRateLimiter_def entry_inv_def)

section \<open>A token bucket with the promised behaviour\<close>

text \<open>Tokens are counted in billionths, the unit of time in nanoseconds.\<close>

record bucket =
  b_tokens :: int
  b_last :: "go_time option"
  b_rps :: int
  b_burst :: int

definition bucket_tokens :: "go_time \<Rightarrow> bucket \<Rightarrow> int" where
  "bucket_tokens t b =
     (case b_last b of
        None \<Rightarrow> b_burst b * second
      | Some u \<Rightarrow> min (b_burst b * second) (b_tokens b + (t - u) * b_rps b))"

definition bucket_lib :: "bucket rate_lib" where
  "bucket_lib =
     \<lparr>lim_NewLimiter = (\<lambda>rps burst. \<lparr>b_tokens = burst * second, b_last = None, b_rps = rps, b_burst = burst\<rparr>),
      lim_Allow = (\<lambda>t b. let n = bucket_tokens t b
         in if second \<le> n then (True, b\<lparr>b_tokens := n - second, b_last := Some t\<rparr>)
            else (False, b\<lparr>b_tokens := n, b_last := Some t\<rparr>))\<rparr>"

lemma bucket_after:
  "ts \<noteq> [] \<Longrightarrow> b_rps (after_run bucket_lib ts b) = b_rps b \<and> b_burst (after_run bucket_lib ts b) = b_burst b \<and>
     b_last (after_run bucket_lib ts b) = Some (last ts)"
proof (induction ts rule: rev_induct)
  case (snoc t ts)
  then show ?case
    by (cases "ts = []") (simp_all add: bucket_run_append case_prod_beta bucket_lib_def Let_def)
qed simp

lemma bucket_nonneg:
  assumes "0 \<le> b_rps b" "0 \<le> b_burst b" "sorted ts" "0 \<le> b_tokens b" "b_last b = None"
  shows "0 \<le> b_tokens (after_run bucket_lib ts b)"
  using assms(3)
proof (induction ts rule: rev_induct)
  case (snoc t ts)
  let ?b = "after_run bucket_lib ts b"
  have ih: "0 \<le> b_tokens ?b" and le: "\<forall>u \<in> set ts. u \<le> t"
    using snoc by (simp_all add: sorted_append)
  have "0 \<le> bucket_tokens t ?b"
  proof (cases "ts = []")
    case False
    then have "last ts \<le> t" using le by simp
    then have "0 \<le> (t - last ts) * b_rps b" using assms(1) by simp
    with False ih assms(2) show ?thesis by (simp add: bucket_tokens_def bucket_after)
  qed (use assms in \<open>simp add: bucket_tokens_def\<close>)
  then show ?case by (simp add: bucket_run_append case_prod_beta bucket_lib_def Let_def)
qed (use assms in simp)

lemma bucket_full_same:
  assumes "bucket_tokens t a = bucket_tokens t b" "b_rps a = b_rps b" "b_burst a = b_burst b"
  shows "lim_Allow bucket_lib t a = lim_Allow bucket_lib t b"
  using assms by (cases a; cases b) (simp add: bucket_lib_def Let_def)

lemma bucket_refills:
  assumes "0 \<le> rps" "0 \<le> burst" "burst * second \<le> d * rps"
  shows "refills bucket_lib rps burst d"
  unfolding refills_def same_from_def
proof (intro allI impI)
  fix ts us :: "go_time list" and t :: go_time
  assume ts: "ts \<noteq> [] \<and> sorted ts \<and> d < t - last ts" and us: "sorted (t # us)"
  let ?n = "lim_NewLimiter bucket_lib rps burst" let ?a = "after_run bucket_lib ts ?n"
  have n: "b_rps ?n = rps" "b_burst ?n = burst" "b_last ?n = None" "b_tokens ?n = burst * second"
    by (simp_all add: bucket_lib_def)
  have a: "b_rps ?a = rps" "b_burst ?a = burst" "b_last ?a = Some (last ts)" "0 \<le> b_tokens ?a"
    using bucket_after [of ts ?n] bucket_nonneg [of ?n ts] ts n assms(1,2) by auto
  show "answers bucket_lib us ?a = answers bucket_lib us ?n"
  proof (cases us)
    case (Cons u vs)
    then have "d * rps \<le> (u - last ts) * rps" using us ts assms(1) by (intro mult_right_mono) auto
    then have "bucket_tokens u ?a = bucket_tokens u ?n" using a n assms(3) by (simp add: bucket_tokens_def)
    then have "lim_Allow bucket_lib u ?a = lim_Allow bucket_lib u ?n"
      using a n by (intro bucket_full_same) simp_all
    with Cons show ?thesis by simp
  qed simp
qed

section \<open>Properties\<close>

text \<open>C3. Clients do not affect each other, and the cleanup is not noticed: in every sequence of
  requests in time order, the answers a client gets from the shared limiter are those of a
  token bucket of its own asked at the times of its own requests.\<close>

theorem Allow_per_client:
  assumes "refills L rps burst (10 * minute)" "sorted (map fst reqs)"
  shows "answers_to ip (serve L reqs (NewRateLimiter rps burst)) =
    answers L (times_of ip reqs) (lim_NewLimiter L rps burst)"
proof (cases reqs)
  case (Cons q reqs')
  have "limiter_ok L (NewRateLimiter rps burst)"
    using assms(1) by (simp add: limiter_ok_def NewRateLimiter_def)
  from serve_client [OF this client_inv_init, of "fst q" reqs] assms(2) Cons
  show ?thesis by (simp add: NewRateLimiter_def)
qed (simp add: answers_to_def times_of_def)

theorem Allow_per_client_witness:
  "answers_to ''a'' (serve bucket_lib [(0, ''a''), (1, ''b''), (2, ''a''), (3, ''a'')] (NewRateLimiter 1 2)) =
   [True, True, False]"
proof -
  have "refills bucket_lib 1 2 (10 * minute)" by (rule bucket_refills) simp_all
  from Allow_per_client [OF this, of "[(0, ''a''), (1, ''b''), (2, ''a''), (3, ''a'')]" "''a''"]
  show ?thesis by (simp add: times_of_def bucket_lib_def bucket_tokens_def Let_def)
qed

text \<open>The middleware asks the limiter for the client's address, answers 429 with
  \<open>Retry-After\<close> without calling the handler when it refuses, and calls the handler on the
  same request otherwise.\<close>

lemma RateLimit_spec:
  "if fst (Allow L (w_now s) (extractIP r) (w_rate_limiter s))
   then (\<exists>s'. (\<forall>next. RateLimit L next (base_rw fl hj pu) r s = next (base_rw fl hj pu) r s') \<and>
          w_resp s' = w_resp s \<and>
          w_rate_limiter s' = snd (Allow L (w_now s) (extractIP r) (w_rate_limiter s)))
   else (\<exists>u. (\<forall>next. RateLimit L next (base_rw fl hj pu) r s = Done u) \<and>
          resp_status u = commit_status 429 (resp_status s) \<and>
          header_get (resp_header_map u) ''Retry-After'' = ''1'')"
proof -
  obtain ok rl where a: "Allow L (w_now s) (extractIP r) (w_rate_limiter s) = (ok, rl)" by fastforce
  have h: "header_get (resp_header_map (http_Error (base_rw fl hj pu) m 429 x)) ''Retry-After'' =
      header_get (resp_header_map x) ''Retry-After''" for m and x :: "('a, 'b) rl_world_scheme"
    by (simp add: http_Error_def base_rw_def set_header_def del_header_def base_WriteHeader_def
        base_Write_def base_commit_def Let_def http_simps)
  show ?thesis
  proof (cases ok)
    case True
    show ?thesis
      by (simp add: RateLimit_def a True) (rule exI [of _ "s\<lparr>w_rate_limiter := rl\<rparr>"], simp)
  next
    case False
    then show ?thesis
      by (simp add: RateLimit_def a base.http_Error_status base.set_header_simps http_simps h)
  qed
qed

text \<open>Addresses of both families, with and without a port.\<close>

lemma cut_rev_port:
  "CHR '':'' \<notin> set port \<Longrightarrow> last_cut (CHR '':'') (pre @ CHR '':'' # port) = Some (pre, port)"
  using cut_append [of "CHR '':''" "rev port" "rev pre"] by (simp add: last_cut_def)

lemma extractIP_v4:
  assumes "r_RemoteAddr r = ip @ CHR '':'' # port" "CHR '':'' \<notin> set port"
    and "\<not> {CHR '':'', CHR ''['', CHR '']''} \<inter> set ip \<noteq> {}" "\<not> {CHR ''['', CHR '']''} \<inter> set port \<noteq> {}"
  shows "extractIP r = ip"
proof -
  have "\<not> has_prefix (ip @ CHR '':'' # port) ''[''" using assms(3) by (cases ip) auto
  then show ?thesis using assms by (simp add: extractIP_def SplitHostPort_def cut_rev_port)
qed

lemma extractIP_v6:
  assumes "r_RemoteAddr r = ''['' @ ip @ '']:'' @ port" "CHR '':'' \<notin> set port"
    and "\<not> {CHR ''['', CHR '']''} \<inter> set ip \<noteq> {}" "\<not> {CHR ''['', CHR '']''} \<inter> set port \<noteq> {}"
  shows "extractIP r = ip"
proof -
  have "last_cut (CHR '':'') (''['' @ ip @ '']:'' @ port) = Some (''['' @ ip @ '']'', port)"
    using cut_rev_port [of port "''['' @ ip @ '']''"] assms(2) by simp
  moreover have "cut (''['' @ ip @ '']:'' @ port) (CHR '']'') = Some (''['' @ ip, CHR '':'' # port)"
    using cut_append [of "CHR '']''" "''['' @ ip" "CHR '':'' # port"] assms(3) by simp
  ultimately show ?thesis using assms by (simp add: extractIP_def SplitHostPort_def)
qed

end
