(* ===== verification/Url.thy ===== *)
theory Url
  imports Writer
begin

text \<open>
  The parts of \<open>net/url\<close>, \<open>path\<close> and \<open>net/http\<close> that redirects use.  All redirect targets of the
  program begin with one slash; such a target has no scheme and no host, so \<open>url.Parse\<close> can only
  fail on it for a control character or a bad percent escape.
\<close>

section \<open>Parsing rooted targets\<close>

definition rooted :: "string \<Rightarrow> bool" where
  "rooted u \<longleftrightarrow> has_prefix u ''/'' \<and> \<not> has_prefix u ''//''"

definition ctl_char :: "char \<Rightarrow> bool" where
  "ctl_char c \<longleftrightarrow> (let n = of_char c :: nat in n < 32 \<or> n = 127)"

definition hex_char :: "char \<Rightarrow> bool" where
  "hex_char c \<longleftrightarrow>
     (let n = of_char c :: nat in 48 \<le> n \<and> n \<le> 57 \<or> 97 \<le> n \<and> n \<le> 102 \<or> 65 \<le> n \<and> n \<le> 70)"

fun percent_ok :: "string \<Rightarrow> bool" where
  "percent_ok [] \<longleftrightarrow> True"
| "percent_ok (c # cs) \<longleftrightarrow>
     (if c = CHR ''%''
      then (case cs of a # b # ds \<Rightarrow> hex_char a \<and> hex_char b | _ \<Rightarrow> False) \<and> percent_ok cs
      else percent_ok cs)"

definition before :: "char \<Rightarrow> string \<Rightarrow> string" where
  "before c s = (case cut s c of None \<Rightarrow> s | Some (a, b) \<Rightarrow> a)"

definition after :: "char \<Rightarrow> string \<Rightarrow> string" where
  "after c s = (case cut s c of None \<Rightarrow> [] | Some (a, b) \<Rightarrow> b)"

text \<open>\<open>url.Parse\<close> of a rooted target succeeds.\<close>

definition url_Parse_ok :: "string \<Rightarrow> bool" where
  "url_Parse_ok u \<longleftrightarrow>
     (let main = before (CHR ''#'') u
      in \<not> list_ex ctl_char main \<and> percent_ok (before (CHR ''?'') main) \<and> percent_ok (after (CHR ''#'') u))"

section \<open>path.Clean of a rooted path\<close>

fun split_on :: "char \<Rightarrow> string \<Rightarrow> string list" where
  "split_on c [] = [[]]"
| "split_on c (x # xs) =
     (if x = c then [] # split_on c xs
      else case split_on c xs of [] \<Rightarrow> [[x]] | y # ys \<Rightarrow> (x # y) # ys)"

fun clean_segs :: "string list \<Rightarrow> string list \<Rightarrow> string list" where
  "clean_segs st [] = st"
| "clean_segs st (seg # segs) =
     (if seg = [] \<or> seg = ''.'' then clean_segs st segs
      else if seg = ''..'' then clean_segs (butlast st) segs
      else clean_segs (st @ [seg]) segs)"

definition path_Clean :: "string \<Rightarrow> string" where
  "path_Clean p = ''/'' @ join (clean_segs [] (split_on (CHR ''/'') p)) ''/''"

lemma clean_segs_set: "set (clean_segs st segs) \<subseteq> set st \<union> (set segs - {[], ''.'', ''..''})"
proof (induction st segs rule: clean_segs.induct)
  case (2 st seg segs)
  have b: "set (butlast st) \<subseteq> set st" by (auto dest: in_set_butlastD)
  consider "seg = [] \<or> seg = ''.''" | "seg = ''..''" | "seg \<notin> {[], ''.'', ''..''}" by blast
  then show ?case
  proof cases
    case 1
    with 2(1) show ?thesis by auto
  next
    case c: 2
    then have "set (clean_segs (butlast st) segs) \<subseteq> set (butlast st) \<union> (set segs - {[], ''.'', ''..''})"
      using 2(2) by simp
    with b c show ?thesis by auto
  next
    case 3
    then have "set (clean_segs (st @ [seg]) segs) \<subseteq> set (st @ [seg]) \<union> (set segs - {[], ''.'', ''..''})"
      using 2(3) by simp
    with 3 show ?thesis by auto
  qed
qed simp

lemma split_on_no_sep: "seg \<in> set (split_on c s) \<Longrightarrow> c \<notin> set seg"
  by (induction c s arbitrary: seg rule: split_on.induct) (auto split: if_splits list.splits)

text \<open>A cleaned path starts with one slash.\<close>

lemma path_Clean_rooted: "rooted (path_Clean p)"
proof (cases "clean_segs [] (split_on (CHR ''/'') p)")
  case Nil
  then show ?thesis by (simp add: path_Clean_def rooted_def)
next
  case (Cons seg segs)
  then have "seg \<in> set (split_on (CHR ''/'') p) - {[], ''.'', ''..''}"
    using clean_segs_set [of "[]" "split_on (CHR ''/'') p"] by fastforce
  then have "seg \<noteq> []" "CHR ''/'' \<notin> set seg" using split_on_no_sep by auto
  then obtain x xs where "seg = x # xs" "x \<noteq> CHR ''/''" by (cases seg) auto
  with Cons show ?thesis by (cases segs) (simp_all add: path_Clean_def rooted_def)
qed

section \<open>http.Redirect\<close>

fun html_escape :: "string \<Rightarrow> string" where
  "html_escape [] = []"
| "html_escape (c # cs) =
     (if c = CHR ''&'' then ''&amp;'' else if c = CHR ''<'' then ''&lt;''
      else if c = CHR ''>'' then ''&gt;'' else if c = CHR 0x22 then ''&#34;''
      else if c = CHR 0x27 then ''&#39;'' else [c]) @ html_escape cs"

fun hexEscapeNonASCII :: "string \<Rightarrow> string" where
  "hexEscapeNonASCII [] = []"
| "hexEscapeNonASCII (c # cs) =
     (if (of_char c :: nat) \<ge> 128 then CHR ''%'' # hex_encode [of_char c] else [c]) @ hexEscapeNonASCII cs"

definition status_text :: "int \<Rightarrow> string" where
  "status_text code =
     (if code = 200 then ''OK'' else if code = 301 then ''Moved Permanently'' else if code = 303 then ''See Other'' else if code = 400 then ''Bad Request''
      else if code = 401 then ''Unauthorized'' else if code = 403 then ''Forbidden''
      else if code = 404 then ''Not Found'' else if code = 405 then ''Method Not Allowed'' else if code = 422 then ''Unprocessable Entity''
      else if code = 429 then ''Too Many Requests'' else if code = 500 then ''Internal Server Error'' else [])"

text \<open>
  The rewriting of a rooted target: the path before the query is cleaned, a trailing slash kept;
  a target that does not parse is left as it is.
\<close>

definition redirect_target :: "string \<Rightarrow> string" where
  "redirect_target url =
     (if rooted url \<and> url_Parse_ok url then
        (let p = before (CHR ''?'') url;
             query = drop (length p) url;
             q = path_Clean p
         in (if p \<noteq> [] \<and> last p = CHR ''/'' \<and> last q \<noteq> CHR ''/'' then q @ ''/'' else q) @ query)
      else url)"

definition http_Redirect :: "'w response_writer \<Rightarrow> request \<Rightarrow> string \<Rightarrow> int \<Rightarrow> 'w \<Rightarrow> 'w" where
  "http_Redirect w r url0 code s =
     (let url = redirect_target url0;
          hadCT = (h_map (rw_Header w s) ''Content-Type'' \<noteq> []);
          s1 = set_header w ''Location'' (hexEscapeNonASCII url) s;
          s2 = (if \<not> hadCT \<and> (r_Method r = ''GET'' \<or> r_Method r = ''HEAD'')
                then set_header w ''Content-Type'' ''text/html; charset=utf-8'' s1 else s1);
          s3 = rw_WriteHeader w code s2
      in if \<not> hadCT \<and> r_Method r = ''GET''
         then rw_Write w (Text (''<a href='' @ [CHR 0x22] @ html_escape url @ [CHR 0x22] @ ''>'' @
                status_text code @ ''</a>.'' @ [CHR 0x0A, CHR 0x0A])) s3
         else s3)"

lemma rooted_append: "rooted p \<Longrightarrow> rooted (p @ q) \<longleftrightarrow> p \<noteq> ''/'' \<or> \<not> has_prefix q ''/''"
  by (cases p rule: remdups_adj.cases; cases q) (auto simp: rooted_def)

lemma before_drop: "before c s @ drop (length (before c s)) s = s \<and>
    (drop (length (before c s)) s = [] \<or> hd (drop (length (before c s)) s) = c)"
proof (cases "cut s c")
  case (Some ab)
  obtain a b where ab: "ab = (a, b)" by (cases ab)
  with Some have "s = a @ c # b" using cut_SomeD by blast
  with Some ab show ?thesis by (simp add: before_def)
qed (simp add: before_def)

text \<open>The target that goes out stays rooted.\<close>

lemma redirect_target_rooted:
  assumes "rooted url"
  shows "rooted (redirect_target url)"
proof (cases "url_Parse_ok url")
  case True
  let ?p = "before (CHR ''?'') url" and ?q = "path_Clean (before (CHR ''?'') url)"
  let ?query = "drop (length ?p) url"
  have q: "\<not> has_prefix ?query ''/''"
    using before_drop [of "CHR ''?''" url] by (cases ?query) auto
  have l: "rooted (?q @ ''/'')" if "last ?q \<noteq> CHR ''/''"
    using path_Clean_rooted [of ?p] that by (auto simp: rooted_append)
  have "?q @ ''/'' \<noteq> ''/''" if "last ?q \<noteq> CHR ''/''" using path_Clean_rooted [of ?p] by (auto simp: rooted_def)
  then show ?thesis
    using assms True q l path_Clean_rooted [of ?p]
    by (auto simp: redirect_target_def Let_def rooted_append)
next
  case False
  with assms show ?thesis by (simp add: redirect_target_def)
qed

context writer_contract
begin

lemma http_Redirect_status:
  "\<not> informational code \<Longrightarrow> resp_status (http_Redirect rw r url code s) = commit_status code (resp_status s)"
  by (cases "resp_status s")
    (auto simp: http_Redirect_def Let_def WriteHeader_status Write_status set_header_simps)

text \<open>On an uncommitted response the client gets the \<open>Location\<close> header.\<close>

lemma http_Redirect_location:
  assumes "resp_status s = None" "\<not> informational code"
  shows "header_get (h_map (resp_sent (http_Redirect rw r url code s))) ''Location'' =
    hexEscapeNonASCII (redirect_target url)"
proof -
  let ?s1 = "set_header rw ''Location'' (hexEscapeNonASCII (redirect_target url)) s"
  have sent: "header_get (h_map (resp_sent (rw_WriteHeader rw code x))) ''Location'' =
      header_get (resp_header_map x) ''Location''" if "resp_status x = None" for x
    using WriteHeader_map [OF that assms(2)] by simp
  have st: "resp_status (rw_WriteHeader rw code x) = Some code" if "resp_status x = None" for x
    using that assms(2) by (simp add: WriteHeader_status)
  have w: "resp_sent (rw_Write rw c (rw_WriteHeader rw code x)) = resp_sent (rw_WriteHeader rw code x)"
    if "resp_status x = None" for x c
    using Write_sent [OF st [OF that]] .
  have x: "resp_status (set_header rw k v ?s1) = None" "resp_status ?s1 = None" for k v
    using assms(1) by (simp_all add: set_header_simps)
  show ?thesis
    using x by (auto simp: http_Redirect_def Let_def w sent set_header_simps http_simps)
qed

end

lemma rw_run_http_Redirect [intro]:
  "rw_run P n m rw s t \<Longrightarrow> rw_run P n m rw s (http_Redirect rw r url code t)"
  unfolding http_Redirect_def Let_def by (auto intro!: rw_run_set_header)

end
