(* ===== verification/Render.thy ===== *)
theory Render
  imports Middleware_RateLimit Url
begin

text \<open>
  \<open>render/render.go\<close>: loading of a page with its layouts and components, the template cache,
  and the HTML, JSON and error answers.  The file system (\<open>io/fs\<close>) and \<open>html/template\<close> are
  parameters: a file defines named templates, a page is the map of all names its files define.
\<close>

section \<open>Paths\<close>

fun clean_rel_segs :: "string list \<Rightarrow> string list \<Rightarrow> string list" where
  "clean_rel_segs st [] = st"
| "clean_rel_segs st (seg # segs) =
     (if seg = [] \<or> seg = ''.'' then clean_rel_segs st segs
      else if seg = ''..'' \<and> st \<noteq> [] \<and> last st \<noteq> ''..'' then clean_rel_segs (butlast st) segs
      else clean_rel_segs (st @ [seg]) segs)"

definition filepath_Clean :: "string \<Rightarrow> string" where
  "filepath_Clean p =
     (if p = [] then ''.''
      else if hd p = CHR ''/'' then path_Clean p
      else case clean_rel_segs [] (split_on (CHR ''/'') p) of [] \<Rightarrow> ''.'' | ss \<Rightarrow> join ss ''/'')"

definition filepath_Join :: "string \<Rightarrow> string \<Rightarrow> string" where
  "filepath_Join a b =
     (if a \<noteq> [] then filepath_Clean (a @ ''/'' @ b) else if b \<noteq> [] then filepath_Clean b else [])"

definition filepath_Base :: "string \<Rightarrow> string" where
  "filepath_Base p =
     (if p = [] then ''.''
      else let q = rev (dropWhile (\<lambda>c. c = CHR ''/'') (rev p));
               b = rev (takeWhile (\<lambda>c. c \<noteq> CHR ''/'') (rev q))
           in if b = [] then ''/'' else b)"

section \<open>Parameters\<close>

record render_fs =
  fs_Glob :: "string \<Rightarrow> string + string list"
  fs_ReadFile :: "string \<Rightarrow> string + string"

text \<open>
  \<open>tl_Parse name text\<close> gives the templates a file of that name defines; \<open>tl_Execute set root data\<close>
  the output written and the error, if any.
\<close>

record ('t, 'd) tmpl_lib =
  tl_Parse :: "string \<Rightarrow> string \<Rightarrow> string + (string \<times> 't) list"
  tl_Execute :: "(string \<rightharpoonup> 't) \<Rightarrow> string \<Rightarrow> 'd \<Rightarrow> string list \<times> string option"

text \<open>Executing a name that is not defined writes nothing and is an error.\<close>

definition tmpl_ok :: "('t, 'd) tmpl_lib \<Rightarrow> bool" where
  "tmpl_ok T \<longleftrightarrow> (\<forall>defs root d. defs root = None \<longrightarrow> (\<exists>err. tl_Execute T defs root d = ([], Some err)))"

section \<open>Renderer\<close>

record render_config =
  rc_TemplateDir :: string
  rc_LayoutDir :: string
  rc_ComponentDir :: string
  rc_Reload :: bool

record renderer =
  re_cfg :: render_config
  re_logger :: logger

record ('l, 't) render_world = "'l rl_world" +
  w_tmpls :: "string \<rightharpoonup> (string \<rightharpoonup> 't)"

definition New_renderer :: "render_config \<Rightarrow> logger \<Rightarrow> renderer" where
  "New_renderer cfg lg = \<lparr>re_cfg = cfg, re_logger = lg\<rparr>"

text \<open>The two nested loops of \<open>loadTemplate\<close>.\<close>

fun parse_files ::
    "('t, 'd) tmpl_lib \<Rightarrow> render_fs \<Rightarrow> string list \<Rightarrow> (string \<rightharpoonup> 't) \<Rightarrow> string + (string \<rightharpoonup> 't)"
where
  "parse_files T F [] defs = Inr defs"
| "parse_files T F (m # ms) defs =
     (case fs_ReadFile F m of
        Inl err \<Rightarrow> Inl (''render: read '' @ m @ '': '' @ err)
      | Inr data \<Rightarrow>
          (case tl_Parse T m data of
             Inl err \<Rightarrow> Inl (''render: parse '' @ m @ '': '' @ err)
           | Inr ds \<Rightarrow> parse_files T F ms (defs ++ map_of (rev ds))))"

fun parse_patterns ::
    "('t, 'd) tmpl_lib \<Rightarrow> render_fs \<Rightarrow> string list \<Rightarrow> (string \<rightharpoonup> 't) \<Rightarrow> string + (string \<rightharpoonup> 't)"
where
  "parse_patterns T F [] defs = Inr defs"
| "parse_patterns T F (pat # pats) defs =
     (case fs_Glob F pat of
        Inl err \<Rightarrow> Inl (''render: glob '' @ pat @ '': '' @ err)
      | Inr matches \<Rightarrow>
          (case parse_files T F matches defs of
             Inl err \<Rightarrow> Inl err
           | Inr defs' \<Rightarrow> parse_patterns T F pats defs'))"

definition template_patterns :: "render_config \<Rightarrow> string \<Rightarrow> string list" where
  "template_patterns cfg name =
     [filepath_Join (rc_LayoutDir cfg) ''*.html'', filepath_Join (rc_ComponentDir cfg) ''*.html'', name]"

definition parse_page ::
    "('t, 'd) tmpl_lib \<Rightarrow> render_fs \<Rightarrow> renderer \<Rightarrow> string \<Rightarrow> string + (string \<rightharpoonup> 't)" where
  "parse_page T F re name = parse_patterns T F (template_patterns (re_cfg re) name) (\<lambda>_. None)"

definition loadTemplate ::
    "('t, 'd) tmpl_lib \<Rightarrow> render_fs \<Rightarrow> renderer \<Rightarrow> string \<Rightarrow> ('l, 't, 'm) render_world_scheme \<Rightarrow>
     (string + (string \<rightharpoonup> 't)) \<times> ('l, 't, 'm) render_world_scheme"
where
  "loadTemplate T F re name s =
     (case (if \<not> rc_Reload (re_cfg re) then w_tmpls s name else None) of
        Some tmpl \<Rightarrow> (Inr tmpl, s)
      | None \<Rightarrow>
          (case parse_page T F re name of
             Inl err \<Rightarrow> (Inl err, s)
           | Inr tmpl \<Rightarrow>
               (Inr tmpl, if \<not> rc_Reload (re_cfg re) then s\<lparr>w_tmpls := (w_tmpls s)(name \<mapsto> tmpl)\<rparr> else s)))"

fun write_all :: "'w response_writer \<Rightarrow> string list \<Rightarrow> 'w \<Rightarrow> 'w" where
  "write_all w [] s = s"
| "write_all w (x # xs) s = write_all w xs (rw_Write w (Text x) s)"

definition render_HTML ::
    "('t, 'd) tmpl_lib \<Rightarrow> render_fs \<Rightarrow> renderer \<Rightarrow> (('l, 't, 'm) render_world_scheme) response_writer \<Rightarrow>
     string \<Rightarrow> 'd \<Rightarrow> ('l, 't, 'm) render_world_scheme \<Rightarrow> ('l, 't, 'm) render_world_scheme"
where
  "render_HTML T F re w name data s =
     (case loadTemplate T F re name s of
        (Inl err, s1) \<Rightarrow>
          http_Error w (status_text 500) 500
            (log_Error (re_logger re) ''render: load template'' [(''name'', name), (''error'', err)] s1)
      | (Inr tmpl, s1) \<Rightarrow>
          (let s2 = set_header w ''Content-Type'' ''text/html; charset=utf-8'' s1;
               (out, err) = tl_Execute T tmpl (filepath_Base name) data;
               s3 = write_all w out s2
           in case err of
                None \<Rightarrow> s3
              | Some e \<Rightarrow>
                  log_Error (re_logger re) ''render: execute template'' [(''name'', name), (''error'', e)] s3))"

text \<open>The data is the JSON value it encodes to, \<open>None\<close> when it cannot be encoded.\<close>

definition render_JSON ::
    "renderer \<Rightarrow> ('m world_scheme) response_writer \<Rightarrow> int \<Rightarrow> json option \<Rightarrow> 'm world_scheme \<Rightarrow> 'm world_scheme"
where
  "render_JSON re w status data s =
     (let s1 = set_header w ''Content-Type'' ''application/json; charset=utf-8'' s;
          s2 = rw_WriteHeader w status s1
      in case data of
           Some j \<Rightarrow> rw_Write w (JsonLine j) s2
         | None \<Rightarrow> log_Error (re_logger re) ''render: encode json'' [(''error'', ''unsupported type'')] s2)"

definition render_Error ::
    "renderer \<Rightarrow> ('m world_scheme) response_writer \<Rightarrow> request \<Rightarrow> int \<Rightarrow> string \<Rightarrow> 'm world_scheme \<Rightarrow> 'm world_scheme"
where
  "render_Error re w r status msg s =
     (if header_get (r_Header r) ''Accept'' = ''application/json''
      then render_JSON re w status (Some (JObj [(''error'', JStr msg)])) s
      else http_Error w msg status s)"

section \<open>Lemmas\<close>

context writer_contract
begin

lemma render_JSON_status:
  "\<not> informational status \<Longrightarrow> resp_status (render_JSON re rw status data s) = commit_status status (resp_status s)"
  by (cases "resp_status s")
    (auto simp: render_JSON_def Let_def WriteHeader_status Write_status set_header_simps log_Error_def
      http_simps split: option.split)

lemma render_Error_status:
  "\<not> informational status \<Longrightarrow> resp_status (render_Error re rw r status msg s) = commit_status status (resp_status s)"
  by (simp add: render_Error_def render_JSON_status http_Error_status)

end

lemma write_all_run: "rw_run P n m rw s t \<Longrightarrow> rw_run P n m rw s (write_all rw xs t)"
  by (induction xs arbitrary: t) (simp_all add: rr_Write)

lemma rw_run_tmpls:
  "rw_run P n m rw s t \<Longrightarrow> rw_run P n m rw s (t\<lparr>w_tmpls := e\<rparr>)"
  by (erule rr_env) (simp add: same_response_def)

lemma loadTemplate_run:
  "rw_run P n m rw s t \<Longrightarrow> rw_run P n m rw s (snd (loadTemplate T F re name t))"
  by (auto simp: loadTemplate_def rw_run_tmpls split: option.splits sum.splits)

lemma rw_run_render_HTML [intro]:
  assumes "rw_run P n m rw s t"
  shows "rw_run P n m rw s (render_HTML T F re rw name data t)"
proof -
  obtain res t1 where l: "loadTemplate T F re name t = (res, t1)" by fastforce
  have t1: "rw_run P n m rw s t1" using loadTemplate_run [OF assms, of T F re name] l by simp
  show ?thesis
    using t1 l
    by (auto simp: render_HTML_def log_Error_def Let_def intro!: write_all_run rw_run_log rw_run_set_header
        split: sum.split prod.split option.split)
qed

lemma rw_run_render_JSON [intro]:
  "rw_run P n m rw s t \<Longrightarrow> rw_run P n m rw s (render_JSON re rw status data t)"
  by (auto simp: render_JSON_def log_Error_def Let_def split: option.split)

lemma rw_run_render_Error [intro]:
  "rw_run P n m rw s t \<Longrightarrow> rw_run P n m rw s (render_Error re rw r status msg t)"
  by (auto simp: render_Error_def)

section \<open>Properties\<close>


definition sample_renderer :: renderer where
  "sample_renderer = New_renderer \<lparr>rc_TemplateDir = ''t'', rc_LayoutDir = ''layouts'', rc_ComponentDir = ''c'',
     rc_Reload = False\<rparr> (log_New LevelInfo)"

definition sample_fs :: render_fs where
  "sample_fs = \<lparr>fs_Glob = (\<lambda>p. if p = ''a/x.html'' then Inr [''a/x.html''] else Inr []),
     fs_ReadFile = (\<lambda>p. Inr ''hi'')\<rparr>"

definition sample_tmpl :: "(string, unit) tmpl_lib" where
  "sample_tmpl = \<lparr>tl_Parse = (\<lambda>name text. Inr [(name, text)]),
     tl_Execute = (\<lambda>defs root d. case defs root of None \<Rightarrow> ([], Some ''incomplete'') | Some x \<Rightarrow> ([x], None))\<rparr>"

definition render_start :: "(nat, string) render_world" where
  "render_start = \<lparr>w_resp = w_resp (fresh_world 0 []), w_status_ws = [], w_session_ws = [], w_sessions = [],
     w_now = 0, w_entropy = [], w_log = [], w_rate_limiter = NewRateLimiter 1 1, w_tmpls = (\<lambda>_. None)\<rparr>"


text \<open>
  A page whose files do not define a template named like the last element of its path renders as
  an empty page with status 200: the root template has that name, and nothing but the log tells.
  The account pages define \<open>title\<close> and \<open>content\<close> only.
\<close>

lemma HTML_undefined_root:
  assumes "tmpl_ok T" "loadTemplate T F re name s = (Inr tmpl, s1)" "tmpl (filepath_Base name) = None"
  shows "\<exists>e. render_HTML T F re w name data s =
    log_Error (re_logger re) ''render: execute template'' [(''name'', name), (''error'', e)]
      (set_header w ''Content-Type'' ''text/html; charset=utf-8'' s1)"
proof -
  obtain e where "tl_Execute T tmpl (filepath_Base name) data = ([], Some e)"
    using assms(1,3) unfolding tmpl_ok_def by blast
  with assms(2) show ?thesis by (auto simp: render_HTML_def Let_def)
qed

text \<open>A client that prefers JSON but names a second type gets the plain-text error.\<close>

lemma Error_exact_accept:
  "header_get (r_Header r) ''Accept'' = ''application/json, text/plain'' \<Longrightarrow>
     render_Error re w r status msg s = http_Error w msg status s"
  by (simp add: render_Error_def)

end
