(* ===== verification/Middleware_Basic.thy ===== *)
theory Middleware_Basic
  imports Writer
begin

text \<open>
  The middleware without state of its own: \<open>middleware/middleware.go\<close> (\<open>Chain\<close>),
  \<open>recovery.go\<close>, \<open>request_id.go\<close>, \<open>logger.go\<close> with its \<open>statusWriter\<close>, \<open>context_detect.go\<close>,
  \<open>security_headers.go\<close> and \<open>cors.go\<close>.  Each is a function from handlers to handlers.  The
  lemmas say what each adds to the request and the response on every branch, that each keeps a
  handler \<open>well_behaved\<close>, and that \<open>statusWriter\<close> meets the writer contract whenever the writer
  it wraps does.
\<close>

section \<open>Chain\<close>

text \<open>The loop \<open>for i := len (mw) - 1; i >= 0; i--\<close>, counting what is left to apply.\<close>

fun chain_loop :: "'w middleware list \<Rightarrow> nat \<Rightarrow> 'w handler \<Rightarrow> 'w handler" where
  "chain_loop mw 0 final = final"
| "chain_loop mw (Suc i) final = chain_loop mw i ((mw ! i) final)"

definition Chain :: "'w middleware list \<Rightarrow> 'w middleware" where
  "Chain mw = (\<lambda>final. chain_loop mw (length mw) final)"

lemma chain_loop_foldr: "i \<le> length mw \<Longrightarrow> chain_loop mw i final = foldr (\<lambda>m h. m h) (take i mw) final"
  by (induction i arbitrary: final) (simp_all add: take_Suc_conv_app_nth)

lemma Chain_foldr: "Chain mw final = foldr (\<lambda>m h. m h) mw final"
  by (simp add: Chain_def chain_loop_foldr)

lemma Chain_simps [simp]:
  "Chain [] final = final" "Chain (m # ms) final = m (Chain ms final)"
  "Chain (ms @ ns) final = Chain ms (Chain ns final)"
  by (simp_all add: Chain_foldr)

section \<open>Recovery\<close>

text \<open>\<open>stack\<close> is the text of \<open>debug.Stack ()\<close>.\<close>

definition Recovery :: "string \<Rightarrow> logger \<Rightarrow> ('m world_scheme) middleware" where
  "Recovery stack logger next w r s =
     (case next w r s of
        Done t \<Rightarrow> Done t
      | Panicked rec t \<Rightarrow>
          (let t1 = log_Error logger ''panic recovered''
             [(''error'', rec), (''stack'', stack), (''method'', r_Method r), (''path'', r_Path r)] t
           in Done (http_Error w ''Internal Server Error'' 500 t1)))"

section \<open>RequestID\<close>

text \<open>
  The error of \<open>rand.Read\<close> is ignored: what the supply could not fill stays zero.
\<close>

definition generateID :: "byte list \<Rightarrow> string \<times> byte list" where
  "generateID supply =
     (case rand_read 16 supply of
        Some (b, rest) \<Rightarrow> (hex_encode b, rest)
      | None \<Rightarrow> (hex_encode (take 16 (supply @ replicate 16 0)), []))"

definition RequestID :: "('m world_scheme) middleware" where
  "RequestID next w r s =
     (let hid = header_get (r_Header r) ''X-Request-ID'';
          (rid, s1) = (if hid = [] then
                        (let (g, rest) = generateID (w_entropy s) in (g, s\<lparr>w_entropy := rest\<rparr>))
                      else (hid, s));
          ctx = set_request_id (r_Context r) rid
      in next w (WithContext r ctx) (set_header w ''X-Request-ID'' rid s1))"

lemma length_generateID: "length (fst (generateID supply)) = 32"
  by (auto simp: generateID_def rand_read_def split: option.splits)

section \<open>Logger and statusWriter\<close>

definition sw_WriteHeader :: "nat \<Rightarrow> ('m world_scheme) response_writer \<Rightarrow> int \<Rightarrow> 'm world_scheme \<Rightarrow> 'm world_scheme"
where
  "sw_WriteHeader i w code s =
     (let sw = w_status_ws s ! i;
          s1 = (if \<not> sw_wroteHeader sw
                then s\<lparr>w_status_ws := (w_status_ws s)[i := sw\<lparr>sw_status := code, sw_wroteHeader := True\<rparr>]\<rparr>
                else s)
      in rw_WriteHeader w code s1)"

text \<open>\<open>Header\<close> and \<open>Write\<close> are those of the embedded writer.\<close>

definition status_rw :: "nat \<Rightarrow> ('m world_scheme) response_writer \<Rightarrow> ('m world_scheme) response_writer" where
  "status_rw i w =
     w\<lparr>rw_WriteHeader := sw_WriteHeader i w,
       rw_Flush := Some (\<lambda>s. case rw_Flush w of Some f \<Rightarrow> f s | None \<Rightarrow> s),
       rw_Hijack := Some (\<lambda>s. case rw_Hijack w of Some h \<Rightarrow> h s | None \<Rightarrow> (False, s)),
       rw_Push := Some (\<lambda>target s. case rw_Push w of Some p \<Rightarrow> p target s | None \<Rightarrow> (False, s))\<rparr>"

text \<open>\<open>dur_string\<close> is \<open>Duration.String\<close>.\<close>

definition Logger :: "(duration \<Rightarrow> string) \<Rightarrow> logger \<Rightarrow> ('m world_scheme) middleware" where
  "Logger dur_string logger next w r s =
     (let start = w_now s;
          i = length (w_status_ws s);
          s1 = s\<lparr>w_status_ws := w_status_ws s @ [\<lparr>sw_status = 200, sw_wroteHeader = False\<rparr>]\<rparr>
      in and_then (next (status_rw i w) r s1)
           (\<lambda>t. let reqID = (case get_request_id (r_Context r) of Some x \<Rightarrow> x | None \<Rightarrow> [])
                in Done (log_Info logger ''request''
                     [(''method'', r_Method r), (''path'', r_Path r),
                      (''status'', itoa (sw_status (w_status_ws t ! i))),
                      (''duration'', dur_string (w_now t - start)),
                      (''request_id'', reqID)] t)))"

section \<open>Request context detection\<close>

definition DetectRequestContext :: "request \<Rightarrow> request_context" where
  "DetectRequestContext r =
     (let ct = header_get (r_Header r) ''Content-Type'';
          accept = header_get (r_Header r) ''Accept'';
          auth = header_get (r_Header r) ''Authorization''
      in if contains ct ''application/json'' then ContextAPI
         else if contains accept ''application/json'' \<and> \<not> contains accept ''text/html'' then ContextAPI
         else if has_prefix auth ''Bearer '' then ContextAPI
         else if header_get (r_Header r) ''X-Requested-With'' = ''XMLHttpRequest'' then ContextAPI
         else ContextSSR)"

definition ContextDetect :: "'w middleware" where
  "ContextDetect next w r s =
     (let rc = DetectRequestContext r
      in next w (WithContext r (set_request_context (r_Context r) rc)) s)"

definition ForceContext :: "request_context \<Rightarrow> 'w middleware" where
  "ForceContext rc next w r s =
     next w (WithContext r (set_request_context (r_Context r) rc)) s"

section \<open>Security headers\<close>

record SecurityHeadersConfig =
  ContentSecurityPolicy :: string
  HSTSEnabled :: bool
  HSTSMaxAge :: int

definition default_csp :: string where
  "default_csp =
     ''default-src 'self'; '' @ ''script-src 'self'; '' @ ''style-src 'self' 'unsafe-inline'; '' @
     ''img-src 'self' data:; '' @ ''font-src 'self'; '' @ ''connect-src 'self'; '' @
     ''frame-ancestors 'none'; '' @ ''base-uri 'self'; '' @ ''form-action '' @ [CHR 0x27] @ ''self'' @ [CHR 0x27]"

definition security_config :: "SecurityHeadersConfig list \<Rightarrow> SecurityHeadersConfig" where
  "security_config cfgs =
     (case cfgs of
        [] \<Rightarrow> \<lparr>ContentSecurityPolicy = [], HSTSEnabled = False, HSTSMaxAge = 63072000\<rparr>
      | c # _ \<Rightarrow> (if HSTSMaxAge c = 0 then c\<lparr>HSTSMaxAge := 63072000\<rparr> else c))"

definition SecurityHeaders :: "SecurityHeadersConfig list \<Rightarrow> ('m world_scheme) middleware" where
  "SecurityHeaders cfgs next w r s =
     (let cfg = security_config cfgs;
          csp = (if ContentSecurityPolicy cfg = [] then default_csp else ContentSecurityPolicy cfg);
          s1 = set_header w ''X-Content-Type-Options'' ''nosniff'' s;
          s2 = set_header w ''X-Frame-Options'' ''DENY'' s1;
          s3 = set_header w ''X-XSS-Protection'' ''0'' s2;
          s4 = set_header w ''Referrer-Policy'' ''strict-origin-when-cross-origin'' s3;
          s5 = set_header w ''Permissions-Policy'' ''camera=(), microphone=(), geolocation=()'' s4;
          s6 = (if GetRequestContext (r_Context r) = ContextSSR
                then set_header w ''Content-Security-Policy'' csp s5 else s5);
          s7 = (if HSTSEnabled cfg
                then set_header w ''Strict-Transport-Security''
                       (''max-age='' @ itoa (HSTSMaxAge cfg) @ ''; includeSubDomains'') s6 else s6)
      in next w r s7)"

section \<open>CORS\<close>

record CORSConfig =
  AllowedOrigins :: "string list"
  AllowedMethods :: "string list"
  AllowedHeaders :: "string list"
  AllowCredentials :: bool
  CORSMaxAge :: int

definition cors_config :: "CORSConfig \<Rightarrow> CORSConfig" where
  "cors_config cfg =
     (let c1 = (if AllowedMethods cfg = []
                then cfg\<lparr>AllowedMethods := [''GET'', ''POST'', ''PUT'', ''PATCH'', ''DELETE'']\<rparr> else cfg);
          c2 = (if AllowedHeaders c1 = []
                then c1\<lparr>AllowedHeaders := [''Content-Type'', ''Authorization'', ''X-CSRF-Token'']\<rparr> else c1)
      in if CORSMaxAge c2 = 0 then c2\<lparr>CORSMaxAge := 86400\<rparr> else c2)"

fun isAllowedOrigin :: "string \<Rightarrow> string list \<Rightarrow> bool" where
  "isAllowedOrigin origin [] = False"
| "isAllowedOrigin origin (a # as) =
     (if a = ''*'' \<or> a = origin then True else isAllowedOrigin origin as)"

text \<open>The headers for an allowed origin, and those of a preflight answer.\<close>

definition cors_allow :: "CORSConfig \<Rightarrow> string \<Rightarrow> 'w response_writer \<Rightarrow> 'w \<Rightarrow> 'w" where
  "cors_allow cfg origin w s =
     (if isAllowedOrigin origin (AllowedOrigins cfg)
      then (let a = set_header w ''Access-Control-Allow-Origin'' origin s;
                b = set_header w ''Vary'' ''Origin'' a
            in if AllowCredentials cfg
               then set_header w ''Access-Control-Allow-Credentials'' ''true'' b else b)
      else s)"

definition cors_preflight :: "CORSConfig \<Rightarrow> 'w response_writer \<Rightarrow> 'w \<Rightarrow> 'w" where
  "cors_preflight cfg w s =
     (let a = set_header w ''Access-Control-Allow-Methods'' (join (AllowedMethods cfg) '', '') s;
          b = set_header w ''Access-Control-Allow-Headers'' (join (AllowedHeaders cfg) '', '') a
      in set_header w ''Access-Control-Max-Age'' (itoa (CORSMaxAge cfg)) b)"

definition CORS :: "CORSConfig \<Rightarrow> ('m world_scheme) middleware" where
  "CORS cfg0 next w r s =
     (let cfg = cors_config cfg0;
          rc = GetRequestContext (r_Context r);
          origin = header_get (r_Header r) ''Origin''
      in if rc = ContextSSR then next w r s
         else if origin = [] then next w r s
         else
           (let s1 = cors_allow cfg origin w s
            in if r_Method r = ''OPTIONS'' then Done (rw_WriteHeader w 204 (cors_preflight cfg w s1))
               else next w r s1))"

lemma isAllowedOrigin_iff: "isAllowedOrigin origin as \<longleftrightarrow> ''*'' \<in> set as \<or> origin \<in> set as"
  by (induction as) auto

declare Recovery_def [mw_defs] RequestID_def [mw_defs] Logger_def [mw_defs]
  ContextDetect_def [mw_defs] ForceContext_def [mw_defs] SecurityHeaders_def [mw_defs] CORS_def [mw_defs]

section \<open>statusWriter meets the contract\<close>

lemma status_rw_contract:
  assumes "writer_contract w"
  shows "writer_contract (status_rw i w)"
proof -
  note c = writer_contract.Header [OF assms] writer_contract.update_resp [OF assms]
    writer_contract.WriteHeader_status [OF assms] writer_contract.Write_status [OF assms]
    writer_contract.WriteHeader_sent [OF assms] writer_contract.Write_sent [OF assms]
    writer_contract.WriteHeader_map [OF assms]
  note f = writer_contract.Flush_status [OF assms] writer_contract.Flush_sent [OF assms]
  have flush: "resp_status (g s) = commit_status 200 (resp_status s) \<or> resp_status (g s) = resp_status s"
    if "rw_Flush (status_rw i w) = Some g" for g s
    using that f(1) by (cases "rw_Flush w") (auto simp: status_rw_def)
  show ?thesis
    by unfold_locales
      (use flush f(2) in \<open>auto simp: status_rw_def sw_WriteHeader_def Let_def c split: option.splits\<close>)
qed


section \<open>Middleware keeps handlers well behaved\<close>

lemma status_rw_keeps_heaps: "keeps_heaps w \<Longrightarrow> keeps_heaps (status_rw i w)"
  by (auto simp: keeps_heaps_def status_rw_def sw_WriteHeader_def Let_def split: option.splits)

text \<open>A run on the status writer is a run on the writer it wraps.\<close>

lemma status_rw_run:
  "rw_run P (Suc i) m (status_rw i w) s t \<Longrightarrow> rw_run P i m w s t"
proof (induction rule: rw_run.induct)
  case (rr_WriteHeader s t code)
  let ?sw = "w_status_ws t ! i"
  let ?u = "if \<not> sw_wroteHeader ?sw
    then t\<lparr>w_status_ws := (w_status_ws t)[i := ?sw\<lparr>sw_status := code, sw_wroteHeader := True\<rparr>]\<rparr> else t"
  have "rw_run P i m w s ?u"
    using rr_WriteHeader.IH by (rule rr_env) (simp add: same_response_def)
  then have "rw_run P i m w s (rw_WriteHeader w code ?u)"
    by (rule rw_run.rr_WriteHeader)
  then show ?case by (simp add: status_rw_def sw_WriteHeader_def Let_def)
next
  case (rr_Flush s t g)
  then show ?case by (auto simp: status_rw_def split: option.splits)
next
  case (rr_env s t u)
  then show ?case by (meson rw_run.rr_env same_response_mono le_SucI order_refl)
next
  case (rr_header s t f)
  then show ?case by (simp add: status_rw_def rw_run.rr_header)
next
  case (rr_cookie s t c)
  then have "rw_run P i m w s (SetCookie w c t)" by blast
  then show ?case by (simp add: status_rw_def SetCookie_def)
next
  case (rr_Write s t c)
  then show ?case by (simp add: status_rw_def rw_run.rr_Write)
qed blast

lemma Recovery_well_behaved:
  assumes "well_behaved P next" shows "well_behaved P (Recovery stack logger next)"
  unfolding well_behaved_def
proof (intro allI impI)
  fix rw r and s :: "'a world_scheme"
  let ?R = "rw_run P (length (w_status_ws s)) (length (w_session_ws s)) rw s"
  assume k: "keeps_heaps rw"
  have "?R (hres_state (next rw r s))" using well_behaved_next [OF assms k rr_refl] .
  then show "?R (hres_state (Recovery stack logger next rw r s))"
    by (cases "next rw r s")
      (simp_all add: Recovery_def Let_def log_Error_def rw_run_http_Error rw_run_log)
qed

text \<open>The middleware that only prepares the request and the header.\<close>

lemma RequestID_well_behaved:
  assumes "well_behaved P next" shows "well_behaved P (RequestID next)"
  unfolding well_behaved_def RequestID_def Let_def
  by (auto intro!: well_behaved_next [OF assms] rw_run_set_header rw_run_entropy
      split: prod.splits if_splits)

lemma ContextDetect_well_behaved:
  assumes "well_behaved P next" shows "well_behaved P (ContextDetect next)"
  unfolding well_behaved_def ContextDetect_def Let_def
  by (auto intro!: well_behaved_next [OF assms])

lemma ForceContext_well_behaved:
  assumes "well_behaved P next" shows "well_behaved P (ForceContext rc next)"
  unfolding well_behaved_def ForceContext_def
  by (auto intro!: well_behaved_next [OF assms])

lemma SecurityHeaders_well_behaved:
  assumes "well_behaved P next" shows "well_behaved P (SecurityHeaders cfgs next)"
  unfolding well_behaved_def SecurityHeaders_def Let_def
  by (auto intro!: well_behaved_next [OF assms] rw_run_set_header)

lemma CORS_well_behaved:
  assumes "well_behaved P next" shows "well_behaved P (CORS cfg next)"
  unfolding well_behaved_def CORS_def cors_allow_def cors_preflight_def Let_def
  by (auto intro!: well_behaved_next [OF assms] rw_run_set_header rr_WriteHeader)

lemma Logger_well_behaved:
  assumes "well_behaved P next" shows "well_behaved P (Logger dur logger next)"
  unfolding well_behaved_def
proof (intro allI impI)
  fix rw r and s :: "'a world_scheme"
  let ?i = "length (w_status_ws s)"
  let ?R = "rw_run P ?i (length (w_session_ws s)) rw s"
  let ?s = "s\<lparr>w_status_ws := w_status_ws s @ [\<lparr>sw_status = 200, sw_wroteHeader = False\<rparr>]\<rparr>"
  assume "keeps_heaps rw"
  then have "rw_run P (Suc ?i) (length (w_session_ws s)) (status_rw ?i rw) ?s
      (hres_state (next (status_rw ?i rw) r ?s))"
    using well_behaved_next [OF assms status_rw_keeps_heaps rr_refl, of rw ?s ?i r] by simp
  then have "rw_run P ?i (length (w_session_ws s)) rw ?s (hres_state (next (status_rw ?i rw) r ?s))"
    by (rule status_rw_run)
  moreover have "?R ?s" by (rule rr_env [OF rr_refl]) (simp add: same_response_def)
  ultimately have "?R (hres_state (next (status_rw ?i rw) r ?s))" by (rule rw_run_trans)
  then show "?R (hres_state (Logger dur logger next rw r s))"
    by (cases "next (status_rw ?i rw) r ?s") (simp_all add: Logger_def Let_def log_Info_def rw_run_log)
qed

section \<open>Scripted handlers\<close>

text \<open>
  A straight-line handler: a list of calls on its writer.  Any single execution of a handler
  that only writes a response is one of these.
\<close>

datatype act = ASetHeader string string | AWriteHeader int | AWrite chunk | AFlush

fun run_act :: "'w response_writer \<Rightarrow> act \<Rightarrow> 'w \<Rightarrow> 'w" where
  "run_act w (ASetHeader k v) s = set_header w k v s"
| "run_act w (AWriteHeader code) s = rw_WriteHeader w code s"
| "run_act w (AWrite c) s = rw_Write w c s"
| "run_act w AFlush s = (case rw_Flush w of None \<Rightarrow> s | Some g \<Rightarrow> g s)"

definition script :: "act list \<Rightarrow> 'w handler" where
  "script acts w r s = Done (fold (run_act w) acts s)"

lemma script_well_behaved: "well_behaved P (script acts)"
proof -
  have "rw_run P n m w s t \<Longrightarrow> rw_run P n m w s (run_act w a t)" for n m w a and s t :: "'a world_scheme"
    by (cases a) (auto split: option.splits)
  then have "rw_run P n m w s t \<Longrightarrow> rw_run P n m w s (fold (run_act w) acts t)" for n m w and s t :: "'a world_scheme"
    by (induction acts arbitrary: t) simp_all
  then show ?thesis by (simp add: well_behaved_def script_def rr_refl)
qed

text \<open>
  The status on the wire (the server sends 200 when the handler committed none), and the order
  in which a handler must use its writer: \<open>WriteHeader\<close>, with a final status, before \<open>Write\<close> and
  \<open>Flush\<close>, or not at all.
\<close>

definition wire_status :: "'m world_scheme \<Rightarrow> int" where
  "wire_status s = (case resp_status s of None \<Rightarrow> 200 | Some d \<Rightarrow> d)"

definition status_changing :: "act \<Rightarrow> bool" where
  "status_changing a = (case a of ASetHeader _ _ \<Rightarrow> False | _ \<Rightarrow> True)"

fun is_WriteHeader :: "act \<Rightarrow> bool" where
  "is_WriteHeader (AWriteHeader _) = True"
| "is_WriteHeader _ = False"

lemma WriteHeader_changing: "is_WriteHeader a \<Longrightarrow> status_changing a"
  by (cases a) (simp_all add: status_changing_def)

definition status_first :: "act list \<Rightarrow> bool" where
  "status_first acts \<longleftrightarrow>
     (case filter status_changing acts of
        [] \<Rightarrow> True
      | a # as \<Rightarrow> (case a of AWriteHeader code \<Rightarrow> \<not> informational code
                 | _ \<Rightarrow> list_all (\<lambda>b. \<not> is_WriteHeader b) as))"

text \<open>What the status writer over the server's writer does, act by act.\<close>

lemma run_act_headers:
  "\<not> status_changing a \<Longrightarrow>
     resp_status (run_act (status_rw i (base_rw fl hj pu)) a s) = resp_status s \<and>
     w_status_ws (run_act (status_rw i (base_rw fl hj pu)) a s) = w_status_ws s"
  by (cases a) (simp_all add: status_changing_def set_header_def status_rw_def base_rw_def)

lemma run_act_no_WriteHeader:
  "\<not> is_WriteHeader a \<Longrightarrow>
     w_status_ws (run_act (status_rw i (base_rw fl hj pu)) a s) = w_status_ws s \<and>
     (resp_status s = Some d \<longrightarrow> resp_status (run_act (status_rw i (base_rw fl hj pu)) a s) = Some d) \<and>
     (resp_status s = None \<longrightarrow> resp_status (run_act (status_rw i (base_rw fl hj pu)) a s) \<in> {None, Some 200})"
  by (cases a) (auto simp: set_header_def status_rw_def base_rw_def base_Write_def base_Flush_def
      base_commit_def base_WriteHeader_def Let_def)

lemma run_act_wrote:
  assumes "resp_status s = Some d" "sw_wroteHeader (w_status_ws s ! i)"
  shows "resp_status (run_act (status_rw i (base_rw fl hj pu)) a s) = Some d \<and>
    w_status_ws (run_act (status_rw i (base_rw fl hj pu)) a s) = w_status_ws s"
  using assms
  by (cases a) (auto simp: set_header_def status_rw_def sw_WriteHeader_def base_rw_def base_Write_def
      base_Flush_def base_commit_def base_WriteHeader_def Let_def)

lemma fold_headers:
  "filter status_changing acts = [] \<Longrightarrow>
     resp_status (fold (run_act (status_rw i (base_rw fl hj pu))) acts s) = resp_status s \<and>
     w_status_ws (fold (run_act (status_rw i (base_rw fl hj pu))) acts s) = w_status_ws s"
  by (induction acts arbitrary: s) (auto simp: run_act_headers split: if_splits)

lemma fold_no_WriteHeader:
  "list_all (\<lambda>a. \<not> is_WriteHeader a) acts \<Longrightarrow> resp_status s \<in> {None, Some 200} \<Longrightarrow>
     resp_status (fold (run_act (status_rw i (base_rw fl hj pu))) acts s) \<in> {None, Some 200} \<and>
     w_status_ws (fold (run_act (status_rw i (base_rw fl hj pu))) acts s) = w_status_ws s"
proof (induction acts arbitrary: s)
  case (Cons a acts)
  then have "resp_status (run_act (status_rw i (base_rw fl hj pu)) a s) \<in> {None, Some 200}"
    using run_act_no_WriteHeader [of a i fl hj pu s] by auto
  with Cons show ?case using run_act_no_WriteHeader [of a i fl hj pu s] by simp
qed simp

lemma fold_wrote:
  "resp_status s = Some d \<Longrightarrow> sw_wroteHeader (w_status_ws s ! i) \<Longrightarrow>
     resp_status (fold (run_act (status_rw i (base_rw fl hj pu))) acts s) = Some d \<and>
     w_status_ws (fold (run_act (status_rw i (base_rw fl hj pu))) acts s) = w_status_ws s"
  by (induction acts arbitrary: s) (simp_all add: run_act_wrote)

lemma status_first_agrees:
  assumes "status_first acts" "resp_status s = None" "i < length (w_status_ws s)"
    and "w_status_ws s ! i = \<lparr>sw_status = 200, sw_wroteHeader = False\<rparr>"
  shows "sw_status (w_status_ws (fold (run_act (status_rw i (base_rw fl hj pu))) acts s) ! i) =
    wire_status (fold (run_act (status_rw i (base_rw fl hj pu))) acts s)"
  using assms
proof (induction acts arbitrary: s)
  case Nil
  then show ?case by (simp add: wire_status_def)
next
  case (Cons a acts)
  let ?w = "status_rw i (base_rw fl hj pu)"
  show ?case
  proof (cases "status_changing a")
    case False
    then have "status_first acts" using Cons.prems(1) by (simp add: status_first_def)
    with Cons False show ?thesis by (simp add: run_act_headers)
  next
    case True
    show ?thesis
    proof (cases a)
      case (AWriteHeader code)
      then have "\<not> informational code"
        using Cons.prems(1) True by (simp add: status_first_def)
      then have "resp_status (run_act ?w a s) = Some code" "sw_wroteHeader (w_status_ws (run_act ?w a s) ! i)"
        "sw_status (w_status_ws (run_act ?w a s) ! i) = code"
        using AWriteHeader Cons.prems
        by (simp_all add: status_rw_def sw_WriteHeader_def base_rw_def base_WriteHeader_def Let_def)
      then show ?thesis
        using fold_wrote [of "run_act ?w a s" code i fl hj pu acts] by (simp add: wire_status_def)
    next
      case (ASetHeader k v)
      with True show ?thesis by (simp add: status_changing_def)
    next
      case (AWrite c)
      then have "list_all (\<lambda>b. \<not> is_WriteHeader b) (filter status_changing acts)"
        using Cons.prems(1) True by (simp add: status_first_def)
      then have "list_all (\<lambda>b. \<not> is_WriteHeader b) (a # acts)"
        using AWrite WriteHeader_changing by (auto simp: list_all_iff)
      from fold_no_WriteHeader [OF this, of s i fl hj pu] show ?thesis
        using Cons.prems by (auto simp: wire_status_def)
    next
      case AFlush
      then have "list_all (\<lambda>b. \<not> is_WriteHeader b) (filter status_changing acts)"
        using Cons.prems(1) True by (simp add: status_first_def)
      then have "list_all (\<lambda>b. \<not> is_WriteHeader b) (a # acts)"
        using AFlush WriteHeader_changing by (auto simp: list_all_iff)
      from fold_no_WriteHeader [OF this, of s i fl hj pu] show ?thesis
        using Cons.prems by (auto simp: wire_status_def)
    qed
  qed
qed

section \<open>Properties\<close>

text \<open>Recovery never lets a panic through.  A handler that returns is not disturbed; after a
  panic the response has status 500 with the plain-text error when nothing had been sent, and
  keeps the status and header already sent otherwise, and the panic is logged.\<close>

lemma Recovery_spec:
  "case next (base_rw fl hj pu) r s of
     Done t \<Rightarrow> Recovery stack logger next (base_rw fl hj pu) r s = Done t
   | Panicked rec t \<Rightarrow>
       (\<exists>u. Recovery stack logger next (base_rw fl hj pu) r s = Done u \<and>
          resp_status u = commit_status 500 (resp_status t) \<and>
          (case resp_status t of
             Some d \<Rightarrow> resp_sent u = resp_sent t
           | None \<Rightarrow> header_get (h_map (resp_sent u)) ''Content-Type'' = ''text/plain; charset=utf-8'') \<and>
          w_log u = log_record LevelError logger ''panic recovered''
            [(''error'', rec), (''stack'', stack), (''method'', r_Method r), (''path'', r_Path r)] (w_log t))"
proof (cases "next (base_rw fl hj pu) r s")
  case (Panicked rec t)
  have "w_log (http_Error (base_rw fl hj pu) m c x) = w_log x" for m c and x :: "'a world_scheme"
    by (simp add: http_Error_def base_rw_def set_header_def del_header_def Let_def)
  with Panicked show ?thesis
    by (auto simp: Recovery_def Let_def log_Error_def base.http_Error_status base.http_Error_sent
        base.http_Error_header http_simps log_at_def split: option.splits)
qed (simp add: Recovery_def)

text \<open>The request ID: the handler runs with an ID in its context that is also in the response
  header; it is the client's \<open>X-Request-ID\<close> when that is not empty, else 32 hexadecimal digits.\<close>

lemma RequestID_spec:
  "\<exists>rid r' s'. (\<forall>next. RequestID next (base_rw fl hj pu) r s = next (base_rw fl hj pu) r' s') \<and>
     get_request_id (r_Context r') = Some rid \<and>
     header_get (resp_header_map s') ''X-Request-ID'' = rid \<and>
     (if header_get (r_Header r) ''X-Request-ID'' = []
      then rid = fst (generateID (w_entropy s)) \<and> length rid = 32
      else rid = header_get (r_Header r) ''X-Request-ID'')"
proof -
  let ?h = "header_get (r_Header r) ''X-Request-ID''"
  let ?rid = "if ?h = [] then fst (generateID (w_entropy s)) else ?h"
  let ?s = "if ?h = [] then s\<lparr>w_entropy := snd (generateID (w_entropy s))\<rparr> else s"
  let ?r = "WithContext r (set_request_id (r_Context r) ?rid)"
  let ?t = "set_header (base_rw fl hj pu) ''X-Request-ID'' ?rid ?s"
  have "\<forall>next. RequestID next (base_rw fl hj pu) r s = next (base_rw fl hj pu) ?r ?t"
    by (simp add: RequestID_def Let_def split: prod.splits)
  moreover have "get_request_id (r_Context ?r) = Some ?rid"
    "header_get (resp_header_map ?t) ''X-Request-ID'' = ?rid"
    by (simp_all add: http_simps base.set_header_simps)
  ultimately show ?thesis
    by (intro exI [of _ ?rid] exI [of _ ?r] exI [of _ ?t]) (simp add: length_generateID)
qed

text \<open>C37. The access log names the status the client got: for a handler that settles the status
  before it writes the body, the status recorded by \<open>statusWriter\<close>, and logged, is the status on
  the wire.\<close>

theorem Logger_status:
  assumes "status_first acts" "resp_status s = None" "lg_level logger \<le> LevelInfo"
  shows "\<exists>u e. Logger dur logger (script acts) (base_rw fl hj pu) r s = Done u \<and>
    w_log u \<noteq> [] \<and> last (w_log u) = e \<and>
    map_of (e_attrs (e\<lparr>e_attrs := drop (length (lg_attrs logger)) (e_attrs e)\<rparr>)) ''status'' =
      Some (itoa (wire_status u))"
proof -
  let ?i = "length (w_status_ws s)"
  let ?w = "status_rw ?i (base_rw fl hj pu)"
  let ?s = "s\<lparr>w_status_ws := w_status_ws s @ [\<lparr>sw_status = 200, sw_wroteHeader = False\<rparr>]\<rparr>"
  let ?t = "fold (run_act ?w) acts ?s"
  have "sw_status (w_status_ws ?t ! ?i) = wire_status ?t"
    using assms(1,2) by (intro status_first_agrees) simp_all
  with assms(3) show ?thesis
    by (simp add: Logger_def script_def Let_def log_Info_def log_at_def log_record_def wire_status_def)
qed

theorem Logger_status_witness:
  "\<exists>u. Logger (\<lambda>_. []) (log_New LevelInfo) (script [AWriteHeader 404, AWrite (Text ''no'')])
      (base_rw True True True) (plain_request ''GET'' ''/'') (fresh_world 0 []) = Done u \<and> w_log u \<noteq> []"
proof -
  have "status_first [AWriteHeader 404, AWrite (Text ''no'')]"
    by (simp add: status_first_def status_changing_def informational_def)
  moreover have "lg_level (log_New LevelInfo) \<le> LevelInfo" by (simp add: log_New_def)
  ultimately show ?thesis
    using Logger_status [of _ "fresh_world 0 []"] by fastforce
qed

text \<open>
  A handler that writes its body first and sets an error status afterwards is logged with the
  status it asked for, though the client was sent 200.
\<close>

lemma Logger_status_after_Write:
  assumes "resp_status s = None"
  shows "\<exists>u. Logger dur logger (script [AWrite c, AWriteHeader 500]) (base_rw fl hj pu) r s = Done u \<and>
    sw_status (w_status_ws u ! length (w_status_ws s)) = 500 \<and> wire_status u = 200"
  using assms
  by (simp add: Logger_def script_def Let_def log_Info_def log_at_def status_rw_def sw_WriteHeader_def
      base_rw_def base_Write_def base_commit_def base_WriteHeader_def wire_status_def)

text \<open>The same happens with an informational status, which commits nothing.\<close>

lemma Logger_status_informational:
  assumes "resp_status s = None"
  shows "\<exists>u. Logger dur logger (script [AWriteHeader 103, AWriteHeader 200]) (base_rw fl hj pu) r s = Done u \<and>
    sw_status (w_status_ws u ! length (w_status_ws s)) = 103 \<and> wire_status u = 200"
  using assms
  by (simp add: Logger_def script_def Let_def log_Info_def log_at_def status_rw_def sw_WriteHeader_def
      base_rw_def base_WriteHeader_def wire_status_def informational_def)

text \<open>A request that panics leaves no access log line: \<open>Logger\<close> does not defer it.\<close>

lemma Logger_panic:
  assumes "next (status_rw (length (w_status_ws s)) w) r
     (s\<lparr>w_status_ws := w_status_ws s @ [\<lparr>sw_status = 200, sw_wroteHeader = False\<rparr>]\<rparr>) = Panicked p t"
  shows "Logger dur logger next w r s = Panicked p t"
  using assms by (simp add: Logger_def Let_def)

text \<open>The security headers the handler starts with: the five universal ones always, the
  content security policy exactly in the SSR context, HSTS exactly when it is enabled, and the
  response is otherwise untouched.\<close>

lemma SecurityHeaders_spec:
  "\<exists>s'. (\<forall>next. SecurityHeaders cfgs next (base_rw fl hj pu) r s = next (base_rw fl hj pu) r s') \<and>
     resp_status s' = resp_status s \<and>
     header_get (resp_header_map s') ''X-Content-Type-Options'' = ''nosniff'' \<and>
     header_get (resp_header_map s') ''X-Frame-Options'' = ''DENY'' \<and>
     header_get (resp_header_map s') ''X-XSS-Protection'' = ''0'' \<and>
     header_get (resp_header_map s') ''Referrer-Policy'' = ''strict-origin-when-cross-origin'' \<and>
     header_get (resp_header_map s') ''Permissions-Policy'' =
       ''camera=(), microphone=(), geolocation=()'' \<and>
     header_get (resp_header_map s') ''Content-Security-Policy'' =
       (if GetRequestContext (r_Context r) = ContextSSR
        then (if ContentSecurityPolicy (security_config cfgs) = [] then default_csp
              else ContentSecurityPolicy (security_config cfgs))
        else header_get (resp_header_map s) ''Content-Security-Policy'') \<and>
     header_get (resp_header_map s') ''Strict-Transport-Security'' =
       (if HSTSEnabled (security_config cfgs)
        then ''max-age='' @ itoa (HSTSMaxAge (security_config cfgs)) @ ''; includeSubDomains''
        else header_get (resp_header_map s) ''Strict-Transport-Security'')"
  unfolding SecurityHeaders_def Let_def
  by (rule exI, rule conjI, rule allI, rule refl)
    (simp add: http_simps base.set_header_simps)



text \<open>
  A browser's preflight carries none of the headers the detection rules look at, so it is taken
  for an SSR request and goes to the handler without any CORS header: the preflight branch is
  reached only by preflights that a browser does not send.
\<close>

lemma preflight_not_detected:
  assumes "header_get (r_Header r) ''Content-Type'' = []" "header_get (r_Header r) ''Authorization'' = []"
    and "header_get (r_Header r) ''X-Requested-With'' = []"
    and "header_get (r_Header r) ''Accept'' = ''*/*''"
  shows "ContextDetect (CORS cfg next) w r s =
    next w (WithContext r (set_request_context (r_Context r) ContextSSR)) s"
  using assms by (simp add: ContextDetect_def CORS_def DetectRequestContext_def Let_def http_simps)

text \<open>
  A content type that a cross-site form post may carry without a preflight, and that the first
  rule nevertheless takes for an API request.
\<close>

lemma simple_content_type_detected_as_api:
  "header_get (r_Header r) ''Content-Type'' = ''text/plain; application/json'' \<Longrightarrow>
     DetectRequestContext r = ContextAPI"
  by (simp add: DetectRequestContext_def Let_def)

end
