(* ===== verification/Middleware_Session.thy ===== *)
theory Middleware_Session
  imports Middleware_Basic
begin

text \<open>
  \<open>middleware/session.go\<close>: the session is loaded from its cookie, put in the request context as
  a pointer, and saved into a cookie the moment the response header goes out, by the wrapper
  \<open>sessionWriter\<close>, or after the handler when nothing was written.  The main results: whatever a
  well behaved handler does, the client gets exactly the cookie of the session as it was when the
  first byte was about to leave (\<open>Session_saves_once\<close>), and that cookie loads the same session on
  the next request (\<open>Session_next_request\<close>).
\<close>

section \<open>Configuration\<close>

record SessionConfig =
  CookieName :: string
  CookieMaxAge :: int
  CookieSecure :: bool
  CookieSameSite :: int
  CookiePath :: string

definition SameSiteLaxMode :: int where "SameSiteLaxMode = 2"

definition session_config :: "SessionConfig list \<Rightarrow> SessionConfig" where
  "session_config cfgs =
     (case cfgs of
        [] \<Rightarrow> \<lparr>CookieName = ''_broth_session'', CookieMaxAge = 0, CookieSecure = False,
              CookieSameSite = SameSiteLaxMode, CookiePath = ''/''\<rparr>
      | c # _ \<Rightarrow>
          \<lparr>CookieName = (if CookieName c \<noteq> [] then CookieName c else ''_broth_session''),
           CookieMaxAge = CookieMaxAge c, CookieSecure = CookieSecure c,
           CookieSameSite = (if CookieSameSite c \<noteq> 0 then CookieSameSite c else SameSiteLaxMode),
           CookiePath = (if CookiePath c \<noteq> [] then CookiePath c else ''/'')\<rparr>)"

section \<open>Loading\<close>

definition newSession :: "go_time \<Rightarrow> byte list \<Rightarrow> string + (session \<times> byte list)" where
  "newSession now supply =
     (case GenerateID supply of
        Inl p \<Rightarrow> Inl p
      | Inr (i, rest) \<Rightarrow>
          Inr (\<lparr>s_ID = i, s_Data = Some [], s_UserID = 0, s_CreatedAt = now, s_ExpiresAt = 0,
                s_IsNew = True, s_destroyed = False, s_regenerated = False, s_oldID = [],
                s_modified = False, s_maxAge = 0\<rparr>, rest))"

text \<open>\<open>r.Cookie\<close> is the first cookie of that name.\<close>

definition loadSession ::
    "json_codec \<Rightarrow> cookie_store \<Rightarrow> string \<Rightarrow> request \<Rightarrow> go_time \<Rightarrow> byte list \<Rightarrow> string + (session \<times> byte list)"
where
  "loadSession J store name r now supply =
     (case map_of (r_Cookies r) name of
        None \<Rightarrow> newSession now supply
      | Some v \<Rightarrow>
          (if v = [] then newSession now supply
           else case Decode J store now v of
                  Inl _ \<Rightarrow> newSession now supply
                | Inr sess \<Rightarrow> Inr (sess, supply)))"

section \<open>Saving\<close>

definition clear_cookie :: "SessionConfig \<Rightarrow> cookie" where
  "clear_cookie cfg =
     \<lparr>c_Name = CookieName cfg, c_Value = [], c_Path = CookiePath cfg, c_MaxAge = -1,
      c_HttpOnly = True, c_Secure = CookieSecure cfg, c_SameSite = CookieSameSite cfg\<rparr>"

definition session_cookie :: "SessionConfig \<Rightarrow> int \<Rightarrow> string \<Rightarrow> cookie" where
  "session_cookie cfg maxAge v =
     \<lparr>c_Name = CookieName cfg, c_Value = v, c_Path = CookiePath cfg, c_MaxAge = maxAge,
      c_HttpOnly = True, c_Secure = CookieSecure cfg, c_SameSite = CookieSameSite cfg\<rparr>"

definition saveSession ::
    "json_codec \<Rightarrow> ('m world_scheme) response_writer \<Rightarrow> nat \<Rightarrow> cookie_store \<Rightarrow> SessionConfig \<Rightarrow>
     'm world_scheme \<Rightarrow> 'm world_scheme"
where
  "saveSession J w p store cfg s =
     (let sess = w_sessions s ! p
      in if IsDestroyed sess then SetCookie w (clear_cookie cfg) s
         else if \<not> s_IsNew sess \<and> \<not> IsModified sess then s
         else
           (let (res, rest) = Encode J store sess (w_entropy s);
                s1 = s\<lparr>w_entropy := rest\<rparr>
            in case res of
                 Inl _ \<Rightarrow> s1
               | Inr encoded \<Rightarrow>
                   (let maxAge = (if MaxAge sess > 0 then MaxAge sess else CookieMaxAge cfg)
                    in SetCookie w (session_cookie cfg maxAge encoded) s1)))"

section \<open>The session writer\<close>

text \<open>
  \<open>ssw_commit\<close> is the guard shared by \<open>WriteHeader\<close>, \<open>Write\<close> and \<open>Flush\<close>; \<open>i\<close> is the wrapper
  object, \<open>p\<close> the session pointer.
\<close>

definition ssw_commit ::
    "json_codec \<Rightarrow> nat \<Rightarrow> nat \<Rightarrow> cookie_store \<Rightarrow> SessionConfig \<Rightarrow> ('m world_scheme) response_writer \<Rightarrow>
     'm world_scheme \<Rightarrow> 'm world_scheme"
where
  "ssw_commit J i p store cfg w s =
     (if \<not> w_session_ws s ! i
      then (let t = saveSession J w p store cfg s
            in t\<lparr>w_session_ws := (w_session_ws t)[i := True]\<rparr>)
      else s)"

definition session_rw ::
    "json_codec \<Rightarrow> nat \<Rightarrow> nat \<Rightarrow> cookie_store \<Rightarrow> SessionConfig \<Rightarrow> ('m world_scheme) response_writer \<Rightarrow>
     ('m world_scheme) response_writer"
where
  "session_rw J i p store cfg w =
     w\<lparr>rw_WriteHeader := (\<lambda>code s. rw_WriteHeader w code (ssw_commit J i p store cfg w s)),
       rw_Write := (\<lambda>c s. rw_Write w c (ssw_commit J i p store cfg w s)),
       rw_Flush := Some (\<lambda>s. let t = ssw_commit J i p store cfg w s
                             in case rw_Flush w of Some f \<Rightarrow> f t | None \<Rightarrow> t),
       rw_Hijack := Some (\<lambda>s. case rw_Hijack w of Some h \<Rightarrow> h s | None \<Rightarrow> (False, s)),
       rw_Push := Some (\<lambda>target s. case rw_Push w of Some q \<Rightarrow> q target s | None \<Rightarrow> (False, s))\<rparr>"

definition Session :: "json_codec \<Rightarrow> cookie_store \<Rightarrow> SessionConfig list \<Rightarrow> ('m world_scheme) middleware" where
  "Session J store cfgs next w r s =
     (let cfg = session_config cfgs
      in case loadSession J store (CookieName cfg) r (w_now s) (w_entropy s) of
           Inl panic \<Rightarrow> Panicked panic s
         | Inr (sess, rest) \<Rightarrow>
             (let p = length (w_sessions s);
                  i = length (w_session_ws s);
                  s1 = s\<lparr>w_entropy := rest, w_sessions := w_sessions s @ [sess],
                         w_session_ws := w_session_ws s @ [False]\<rparr>;
                  r1 = WithContext r (NewContext (r_Context r) (Some p))
              in and_then (next (session_rw J i p store cfg w) r1 s1)
                   (\<lambda>t. if \<not> w_session_ws t ! i then Done (saveSession J w p store cfg t) else Done t)))"

declare Session_def [mw_defs]

section \<open>What saving adds to the response\<close>

text \<open>The cookies saving adds, as a function of the session and the random supply: at most one.\<close>

definition saved_cookies ::
    "json_codec \<Rightarrow> cookie_store \<Rightarrow> SessionConfig \<Rightarrow> session \<Rightarrow> byte list \<Rightarrow> cookie list"
where
  "saved_cookies J store cfg sess supply =
     (if s_destroyed sess then [clear_cookie cfg]
      else if s_IsNew sess \<or> s_modified sess then
        (case fst (Encode J store sess supply) of
           Inl _ \<Rightarrow> []
         | Inr v \<Rightarrow> [session_cookie cfg (if s_maxAge sess > 0 then s_maxAge sess else CookieMaxAge cfg) v])
      else [])"

lemma saved_cookies_le1: "length (saved_cookies J store cfg sess supply) \<le> 1"
  by (simp add: saved_cookies_def split: sum.splits)

lemma saved_cookies_forms:
  "saved_cookies J store cfg sess supply = [] \<or>
   saved_cookies J store cfg sess supply = [clear_cookie cfg] \<or>
   (\<exists>m v. saved_cookies J store cfg sess supply = [session_cookie cfg m v])"
proof (cases "fst (Encode J store sess supply)")
  case (Inr v)
  let ?m = "if s_maxAge sess > 0 then s_maxAge sess else CookieMaxAge cfg"
  have "saved_cookies J store cfg sess supply \<in> {[], [clear_cookie cfg], [session_cookie cfg ?m v]}"
    using Inr by (simp add: saved_cookies_def)
  then show ?thesis by blast
qed (simp add: saved_cookies_def)

lemma cookie_names [simp]:
  "c_Name (clear_cookie cfg) = CookieName cfg" "c_HttpOnly (clear_cookie cfg)"
  "c_Name (session_cookie cfg m v) = CookieName cfg" "c_HttpOnly (session_cookie cfg m v)"
  by (simp_all add: clear_cookie_def session_cookie_def)

lemma saved_cookies_name:
  "c \<in> set (saved_cookies J store cfg sess supply) \<Longrightarrow> c_Name c = CookieName cfg \<and> c_HttpOnly c"
  using saved_cookies_forms [of J store cfg sess "supply"] by auto

lemma saveSession_saved:
  "\<exists>e. saveSession J w p store cfg s =
     fold (SetCookie w) (saved_cookies J store cfg (w_sessions s ! p) (w_entropy s)) (s\<lparr>w_entropy := e\<rparr>)"
proof (cases "s_destroyed (w_sessions s ! p) \<or>
    \<not> s_IsNew (w_sessions s ! p) \<and> \<not> s_modified (w_sessions s ! p)")
  case True
  then show ?thesis
    by (intro exI [of _ "w_entropy s"])
      (auto simp: saveSession_def saved_cookies_def IsDestroyed_def IsModified_def Let_def)
next
  case False
  then show ?thesis
    by (intro exI [of _ "snd (Encode J store (w_sessions s ! p) (w_entropy s))"])
      (auto simp: saveSession_def saved_cookies_def IsDestroyed_def IsModified_def MaxAge_def Let_def
        split: prod.split sum.split)
qed

lemma fold_SetCookie_frame:
  assumes "writer_contract w"
  shows "resp_status (fold (SetCookie w) cs s) = resp_status s"
    "resp_sent (fold (SetCookie w) cs s) = resp_sent s"
    "resp_header_map (fold (SetCookie w) cs s) = resp_header_map s"
  by (induction cs arbitrary: s) (simp_all add: writer_contract.SetCookie_simps [OF assms])

lemma saveSession_frame:
  assumes "writer_contract w"
  shows "resp_status (saveSession J w p store cfg s) = resp_status s"
    "resp_sent (saveSession J w p store cfg s) = resp_sent s"
    "resp_header_map (saveSession J w p store cfg s) = resp_header_map s"
proof -
  obtain e where e: "saveSession J w p store cfg s =
      fold (SetCookie w) (saved_cookies J store cfg (w_sessions s ! p) (w_entropy s)) (s\<lparr>w_entropy := e\<rparr>)"
    using saveSession_saved by blast
  show "resp_status (saveSession J w p store cfg s) = resp_status s"
    "resp_sent (saveSession J w p store cfg s) = resp_sent s"
    "resp_header_map (saveSession J w p store cfg s) = resp_header_map s"
    unfolding e by (simp_all add: fold_SetCookie_frame [OF assms])
qed

lemma ssw_commit_frame:
  assumes "writer_contract w"
  shows "resp_status (ssw_commit J i p store cfg w s) = resp_status s"
    "resp_sent (ssw_commit J i p store cfg w s) = resp_sent s"
    "resp_header_map (ssw_commit J i p store cfg w s) = resp_header_map s"
  by (simp_all add: ssw_commit_def Let_def saveSession_frame [OF assms])

lemma session_rw_contract:
  assumes "writer_contract w"
  shows "writer_contract (session_rw J i p store cfg w)"
proof -
  note c = writer_contract.Header [OF assms] writer_contract.update_resp [OF assms]
    writer_contract.WriteHeader_status [OF assms] writer_contract.Write_status [OF assms]
    ssw_commit_frame [OF assms]
  note sent = writer_contract.WriteHeader_sent [OF assms] writer_contract.Write_sent [OF assms]
    writer_contract.WriteHeader_map [OF assms] writer_contract.Flush_sent [OF assms]
  have flush: "resp_status (g s) = commit_status 200 (resp_status s) \<or> resp_status (g s) = resp_status s"
    if "rw_Flush (session_rw J i p store cfg w) = Some g" for g s
    using that writer_contract.Flush_status [OF assms, of _ "ssw_commit J i p store cfg w s"] c
    by (auto simp: session_rw_def Let_def split: option.splits)
  show ?thesis
    by unfold_locales
      (use flush in \<open>auto simp: session_rw_def Let_def c sent split: option.splits\<close>)
qed

section \<open>Session is well behaved\<close>

lemma rw_run_SetCookies:
  "(\<And>c. c \<in> set cs \<Longrightarrow> P c) \<Longrightarrow> rw_run P n m w s t \<Longrightarrow> rw_run P n m w s (fold (SetCookie w) cs t)"
  by (induction cs arbitrary: t) auto

lemma rw_run_saveSession:
  assumes "\<And>c. c_Name c = CookieName cfg \<Longrightarrow> P c" "rw_run P n m w s t"
  shows "rw_run P n m w s (saveSession J w p store cfg t)"
proof -
  obtain e where e: "saveSession J w p store cfg t =
      fold (SetCookie w) (saved_cookies J store cfg (w_sessions t ! p) (w_entropy t)) (t\<lparr>w_entropy := e\<rparr>)"
    using saveSession_saved by blast
  show ?thesis
    unfolding e using assms saved_cookies_name
    by (blast intro: rw_run_SetCookies rw_run_entropy)
qed

lemma rw_run_ssw_commit:
  assumes "\<And>c. c_Name c = CookieName cfg \<Longrightarrow> P c" "rw_run P n i w s t"
  shows "rw_run P n i w s (ssw_commit J i p store cfg w t)"
proof -
  have "rw_run P n i w s (saveSession J w p store cfg t)"
    using assms by (rule rw_run_saveSession)
  then have "rw_run P n i w s ((saveSession J w p store cfg t)
      \<lparr>w_session_ws := (w_session_ws (saveSession J w p store cfg t))[i := True]\<rparr>)"
    by (rule rr_env) (simp add: same_response_def)
  with assms(2) show ?thesis by (simp add: ssw_commit_def Let_def)
qed

lemma session_rw_run:
  assumes P: "\<And>c. c_Name c = CookieName cfg \<Longrightarrow> P c"
  shows "rw_run P n (Suc i) (session_rw J i p store cfg w) s t \<Longrightarrow> rw_run P n i w s t"
proof (induction rule: rw_run.induct)
  case (rr_WriteHeader s t code)
  then show ?case
    by (simp add: session_rw_def rw_run.rr_WriteHeader rw_run_ssw_commit [OF P])
next
  case (rr_Write s t c)
  then show ?case by (simp add: session_rw_def rw_run.rr_Write rw_run_ssw_commit [OF P])
next
  case (rr_Flush s t g)
  then have "rw_run P n i w s (ssw_commit J i p store cfg w t)" by (simp add: rw_run_ssw_commit [OF P])
  with rr_Flush show ?case
    by (auto simp: session_rw_def Let_def split: option.splits)
next
  case (rr_env s t u)
  then show ?case by (meson rw_run.rr_env same_response_mono le_SucI order_refl)
next
  case (rr_header s t f)
  then show ?case by (simp add: session_rw_def rw_run.rr_header)
next
  case (rr_cookie s t c)
  then have "rw_run P n i w s (SetCookie w c t)" by blast
  then show ?case by (simp add: session_rw_def SetCookie_def)
qed blast

lemma keeps_heaps_SetCookies:
  assumes "keeps_heaps w"
  shows "length (w_status_ws (fold (SetCookie w) cs s)) = length (w_status_ws s)"
    "length (w_session_ws (fold (SetCookie w) cs s)) = length (w_session_ws s)"
  using assms by (induction cs arbitrary: s) (simp_all add: keeps_heaps_def SetCookie_def)

lemma keeps_heaps_commit:
  assumes "keeps_heaps w"
  shows "length (w_status_ws (ssw_commit J i p store cfg w s)) = length (w_status_ws s)"
    "length (w_session_ws (ssw_commit J i p store cfg w s)) = length (w_session_ws s)"
proof -
  obtain e where e: "saveSession J w p store cfg s =
      fold (SetCookie w) (saved_cookies J store cfg (w_sessions s ! p) (w_entropy s)) (s\<lparr>w_entropy := e\<rparr>)"
    using saveSession_saved by blast
  show "length (w_status_ws (ssw_commit J i p store cfg w s)) = length (w_status_ws s)"
    "length (w_session_ws (ssw_commit J i p store cfg w s)) = length (w_session_ws s)"
    by (simp_all add: ssw_commit_def Let_def e keeps_heaps_SetCookies [OF assms])
qed

lemma session_rw_keeps_heaps: "keeps_heaps w \<Longrightarrow> keeps_heaps (session_rw J i p store cfg w)"
  using keeps_heaps_commit [of w J i p store cfg]
  by (auto simp: keeps_heaps_def session_rw_def Let_def split: option.splits)

lemma Session_well_behaved:
  fixes cfgs :: "SessionConfig list" and nxt :: "('m world_scheme) handler"
  defines "cfg \<equiv> session_config cfgs"
  assumes P: "\<And>c. c_Name c = CookieName cfg \<Longrightarrow> P c" and wb: "well_behaved P nxt"
  shows "well_behaved P (Session J store cfgs nxt)"
  unfolding well_behaved_def
proof (intro allI impI)
  fix rw :: "('m world_scheme) response_writer" and r :: request and s :: "'m world_scheme"
  assume k: "keeps_heaps rw"
  let ?n = "length (w_status_ws s)" and ?i = "length (w_session_ws s)" and ?p = "length (w_sessions s)"
  let ?R = "rw_run P ?n ?i rw s"
  show "?R (hres_state (Session J store cfgs nxt rw r s))"
  proof (cases "loadSession J store (CookieName cfg) r (w_now s) (w_entropy s)")
    case (Inl panic)
    then show ?thesis by (simp add: Session_def cfg_def rr_refl)
  next
    case (Inr sr)
    obtain sess rest where sr: "sr = (sess, rest)" by (cases sr)
    let ?s = "s\<lparr>w_entropy := rest, w_sessions := w_sessions s @ [sess],
      w_session_ws := w_session_ws s @ [False]\<rparr>"
    let ?w = "session_rw J ?i ?p store cfg rw"
    let ?r = "WithContext r (NewContext (r_Context r) (Some ?p))"
    have "rw_run P ?n (Suc ?i) ?w ?s (hres_state (nxt ?w ?r ?s))"
      using well_behaved_next [OF wb session_rw_keeps_heaps [OF k, of J ?i ?p store cfg],
          where s = ?s and t = ?s and r = ?r] by (simp add: rr_refl)
    from session_rw_run [OF P this]
    have "rw_run P ?n ?i rw ?s (hres_state (nxt ?w ?r ?s))" by blast
    moreover have "?R ?s" by (rule rr_env [OF rr_refl]) (simp add: same_response_def)
    ultimately have run: "?R (hres_state (nxt ?w ?r ?s))" by (rule rw_run_trans)
    have eq: "Session J store cfgs nxt rw r s = and_then (nxt ?w ?r ?s)
        (\<lambda>t. if \<not> w_session_ws t ! ?i then Done (saveSession J rw ?p store cfg t) else Done t)"
      using Inr sr unfolding Session_def Let_def cfg_def [symmetric] by simp
    show ?thesis
      unfolding eq using run rw_run_saveSession [OF P run]
      by (cases "nxt ?w ?r ?s") simp_all
  qed
qed

section \<open>The session is saved once, before the first byte\<close>

definition own_cookies :: "string \<Rightarrow> cookie list \<Rightarrow> cookie list" where
  "own_cookies name = filter (\<lambda>c. c_Name c = name)"

text \<open>The header the client gets: the one sent, or the one the server will send.\<close>

definition wire_header :: "'m world_scheme \<Rightarrow> resp_header" where
  "wire_header s = (case resp_status s of None \<Rightarrow> b_header (w_resp s) | Some _ \<Rightarrow> resp_sent s)"

abbreviation not_own :: "string \<Rightarrow> cookie \<Rightarrow> bool" where
  "not_own name c \<equiv> c_Name c \<noteq> name"

lemma base_SetCookies:
  "\<forall>c \<in> set cs. is_token (c_Name c) \<Longrightarrow>
     fold (SetCookie (base_rw fl hj pu)) cs s =
     s\<lparr>w_resp := (w_resp s)\<lparr>b_header := (b_header (w_resp s))\<lparr>h_cookies := header_cookies s @ cs\<rparr>\<rparr>\<rparr>"
proof (induction cs arbitrary: s)
  case (Cons c cs)
  then show ?case by (simp add: SetCookie_def base_rw_def add_cookie_def)
qed simp

lemma own_saved:
  "own_cookies (CookieName cfg) (saved_cookies J store cfg sess e) = saved_cookies J store cfg sess e"
  using saved_cookies_name by (auto simp: own_cookies_def filter_id_conv)

lemma own_append: "own_cookies name (cs @ ds) = own_cookies name cs @ own_cookies name ds"
  by (simp add: own_cookies_def)

text \<open>One save on the server's writer.\<close>

lemma saveSession_base:
  assumes "is_token (CookieName cfg)" "own_cookies (CookieName cfg) (header_cookies s) = []"
  shows "own_cookies (CookieName cfg) (header_cookies (saveSession J (base_rw fl hj pu) p store cfg s)) =
      saved_cookies J store cfg (w_sessions s ! p) (w_entropy s)"
    "w_session_ws (saveSession J (base_rw fl hj pu) p store cfg s) = w_session_ws s"
proof -
  obtain e where e: "saveSession J (base_rw fl hj pu) p store cfg s =
      fold (SetCookie (base_rw fl hj pu)) (saved_cookies J store cfg (w_sessions s ! p) (w_entropy s))
        (s\<lparr>w_entropy := e\<rparr>)"
    using saveSession_saved by blast
  have tok: "\<forall>c \<in> set (saved_cookies J store cfg (w_sessions s ! p) (w_entropy s)). is_token (c_Name c)"
    using saved_cookies_name assms(1) by fastforce
  show "own_cookies (CookieName cfg) (header_cookies (saveSession J (base_rw fl hj pu) p store cfg s)) =
      saved_cookies J store cfg (w_sessions s ! p) (w_entropy s)"
    "w_session_ws (saveSession J (base_rw fl hj pu) p store cfg s) = w_session_ws s"
    using assms(2) unfolding e base_SetCookies [OF tok] by (simp_all add: own_append own_saved)
qed

text \<open>
  The invariant of a run on the session writer that started in \<open>s0\<close>: before the commit nothing
  is sent and no session cookie is set; after it the session cookies are those of the state \<open>v\<close>
  in which the commit happened, in the header and, once sent, on the wire.
\<close>

definition save_inv ::
    "json_codec \<Rightarrow> nat \<Rightarrow> nat \<Rightarrow> cookie_store \<Rightarrow> SessionConfig \<Rightarrow> ('m world_scheme \<Rightarrow> bool) \<Rightarrow> 'm world_scheme \<Rightarrow> bool"
where
  "save_inv J i p store cfg reached t \<longleftrightarrow>
     i < length (w_session_ws t) \<and>
     (if w_session_ws t ! i
      then \<exists>v. reached v \<and> \<not> w_session_ws v ! i \<and>
        own_cookies (CookieName cfg) (header_cookies t) =
          saved_cookies J store cfg (w_sessions v ! p) (w_entropy v) \<and>
        own_cookies (CookieName cfg) (h_cookies (wire_header t)) =
          saved_cookies J store cfg (w_sessions v ! p) (w_entropy v)
      else resp_status t = None \<and> own_cookies (CookieName cfg) (header_cookies t) = [])"

lemma save_inv_commit:
  assumes inv: "save_inv J i p store cfg reached t" and "reached t" and tok: "is_token (CookieName cfg)"
  shows "save_inv J i p store cfg reached (ssw_commit J i p store cfg (base_rw fl hj pu) t) \<and>
    w_session_ws (ssw_commit J i p store cfg (base_rw fl hj pu) t) ! i"
proof (cases "w_session_ws t ! i")
  case True
  with inv show ?thesis by (simp add: ssw_commit_def)
next
  case False
  with inv have own: "own_cookies (CookieName cfg) (header_cookies t) = []" and
    st: "resp_status t = None" and i: "i < length (w_session_ws t)"
    by (simp_all add: save_inv_def)
  note sv = saveSession_base [OF tok own, of J fl hj pu p store]
    saveSession_frame(1) [OF base.writer_contract_axioms, of J fl hj pu p store cfg t]
  show ?thesis
    using False st i sv \<open>reached t\<close>
    by (auto simp: ssw_commit_def Let_def save_inv_def wire_header_def)
qed

text \<open>The server's own operations keep it once the commit has happened.\<close>

lemma save_inv_base:
  assumes "save_inv J i p store cfg reached t" "w_session_ws t ! i"
  shows "save_inv J i p store cfg reached (t\<lparr>w_resp := base_WriteHeader code (w_resp t)\<rparr>)"
    "save_inv J i p store cfg reached (t\<lparr>w_resp := base_Write c (w_resp t)\<rparr>)"
    "save_inv J i p store cfg reached (t\<lparr>w_resp := base_Flush (w_resp t)\<rparr>)"
  using assms
  by (auto simp: save_inv_def wire_header_def base_WriteHeader_def base_Write_def base_Flush_def
      base_commit_def Let_def split: option.splits if_splits)

lemma base_rw_sel:
  "rw_WriteHeader (base_rw fl hj pu) code t = t\<lparr>w_resp := base_WriteHeader code (w_resp t)\<rparr>"
  "rw_Write (base_rw fl hj pu) c t = t\<lparr>w_resp := base_Write c (w_resp t)\<rparr>"
  "rw_update (base_rw fl hj pu) f t = t\<lparr>w_resp := (w_resp t)\<lparr>b_header := f (b_header (w_resp t))\<rparr>\<rparr>"
  "rw_Flush (base_rw fl hj pu) = (if fl then Some (\<lambda>t. t\<lparr>w_resp := base_Flush (w_resp t)\<rparr>) else None)"
  by (simp_all add: base_rw_def)

lemma session_rw_sel:
  "rw_WriteHeader (session_rw J i p store cfg w) code t = rw_WriteHeader w code (ssw_commit J i p store cfg w t)"
  "rw_Write (session_rw J i p store cfg w) c t = rw_Write w c (ssw_commit J i p store cfg w t)"
  "rw_update (session_rw J i p store cfg w) = rw_update w"
  "rw_Flush (session_rw J i p store cfg w) = Some (\<lambda>t. case rw_Flush w of
     Some f \<Rightarrow> f (ssw_commit J i p store cfg w t) | None \<Rightarrow> ssw_commit J i p store cfg w t)"
  by (simp_all add: session_rw_def Let_def)

lemma save_inv_run:
  assumes run: "rw_run (not_own (CookieName cfg)) n (Suc i) (session_rw J i p store cfg (base_rw fl hj pu)) s0 t"
    and "is_token (CookieName cfg)" "i < length (w_session_ws s0)" "\<not> w_session_ws s0 ! i"
    and "resp_status s0 = None" "own_cookies (CookieName cfg) (header_cookies s0) = []"
  shows "save_inv J i p store cfg
    (rw_run (not_own (CookieName cfg)) n (Suc i) (session_rw J i p store cfg (base_rw fl hj pu)) s0) t"
  using assms
proof (induction rule: rw_run.induct)
  case (rr_refl s)
  then show ?case by (simp add: save_inv_def)
next
  case (rr_header s t f)
  then show ?case
    by (auto simp: save_inv_def wire_header_def session_rw_sel base_rw_sel split: option.splits)
next
  case (rr_cookie s t c)
  then show ?case
    by (auto simp: save_inv_def wire_header_def session_rw_sel base_rw_sel SetCookie_def add_cookie_def
        own_cookies_def split: option.splits)
next
  case (rr_WriteHeader s t code)
  from save_inv_commit [OF rr_WriteHeader.IH [OF rr_WriteHeader.prems] rr_WriteHeader.hyps
      rr_WriteHeader.prems(1), of fl hj pu]
  show ?case by (simp add: session_rw_sel base_rw_sel save_inv_base)
next
  case (rr_Write s t c)
  from save_inv_commit [OF rr_Write.IH [OF rr_Write.prems] rr_Write.hyps rr_Write.prems(1), of fl hj pu]
  show ?case by (simp add: session_rw_sel base_rw_sel save_inv_base)
next
  case (rr_Flush s t g)
  from save_inv_commit [OF rr_Flush.IH [OF rr_Flush.prems] rr_Flush.hyps(1) rr_Flush.prems(1), of fl hj pu]
  show ?case using rr_Flush.hyps(2)
    by (auto simp: session_rw_sel base_rw_sel save_inv_base)
next
  case (rr_env s t u)
  from rr_env.IH [OF rr_env.prems] have inv: "save_inv J i p store cfg
    (rw_run (not_own (CookieName cfg)) n (Suc i) (session_rw J i p store cfg (base_rw fl hj pu)) s) t" .
  have same: "w_resp u = w_resp t" "w_session_ws u ! i = w_session_ws t ! i"
      "i < length (w_session_ws t) \<Longrightarrow> i < length (w_session_ws u)"
    using rr_env.hyps(2) unfolding same_response_def by (simp, metis lessI nth_take, simp)
  have wire: "wire_header u = wire_header t"
    by (simp add: wire_header_def same(1) cong: option.case_cong)
  from inv show ?case unfolding save_inv_def wire using same by simp
qed

section \<open>Properties\<close>

text \<open>The state in which \<open>Session\<close> calls its handler.\<close>

definition session_start ::
    "session \<Rightarrow> byte list \<Rightarrow> 'm world_scheme \<Rightarrow> 'm world_scheme"
where
  "session_start sess rest s =
     s\<lparr>w_entropy := rest, w_sessions := w_sessions s @ [sess], w_session_ws := w_session_ws s @ [False]\<rparr>"

lemma Session_call:
  assumes "loadSession J store (CookieName (session_config cfgs)) r (w_now s) (w_entropy s) = Inr (sess, rest)"
  shows "Session J store cfgs nxt w r s =
    and_then (nxt (session_rw J (length (w_session_ws s)) (length (w_sessions s)) store (session_config cfgs) w)
        (WithContext r (NewContext (r_Context r) (Some (length (w_sessions s))))) (session_start sess rest s))
      (\<lambda>t. if \<not> w_session_ws t ! length (w_session_ws s)
           then Done (saveSession J w (length (w_sessions s)) store (session_config cfgs) t) else Done t)"
  using assms by (simp add: Session_def Let_def session_start_def)

lemma Session_Done:
  assumes "loadSession J store (CookieName (session_config cfgs)) r (w_now s) (w_entropy s) = Inr (sess, rest)"
    and "\<And>w r s. \<exists>t. nxt w r s = Done t"
  shows "\<exists>u. Session J store cfgs nxt w r s = Done u"
proof -
  obtain t where "nxt (session_rw J (length (w_session_ws s)) (length (w_sessions s)) store (session_config cfgs) w)
      (WithContext r (NewContext (r_Context r) (Some (length (w_sessions s))))) (session_start sess rest s) = Done t"
    using assms(2) by blast
  then show ?thesis unfolding Session_call [OF assms(1)] by simp
qed

lemma b64_encode_not_Nil: "bs \<noteq> [] \<Longrightarrow> b64_encode bs \<noteq> []"
  by (cases bs rule: b64_encode.cases) auto

lemma saved_cookie_value:
  assumes "0 < NonceSize (cs_gcm store)" "\<not> s_destroyed sess"
    and "c \<in> set (saved_cookies J store cfg sess supply)"
  shows "\<exists>rest. Encode J store sess supply = (Inr (c_Value c), rest) \<and> c_Value c \<noteq> []"
proof -
  have "\<exists>v. fst (Encode J store sess supply) = Inr v \<and> c_Value c = v"
  proof (cases "fst (Encode J store sess supply)")
    case (Inl e)
    have "saved_cookies J store cfg sess supply = []"
      using Inl assms(2) by (simp add: saved_cookies_def)
    with assms(3) show ?thesis by simp
  next
    case (Inr v)
    let ?m = "if s_maxAge sess > 0 then s_maxAge sess else CookieMaxAge cfg"
    have "saved_cookies J store cfg sess supply \<in> {[], [session_cookie cfg ?m v]}"
      using Inr assms(2) by (simp add: saved_cookies_def)
    with assms(3) have "c = session_cookie cfg ?m v" by auto
    then have "c_Value c = v" by (simp add: session_cookie_def)
    with Inr show ?thesis by simp
  qed
  then obtain v where v: "fst (Encode J store sess supply) = Inr v" "c_Value c = v" by blast
  then have "Encode J store sess supply = (Inr v, snd (Encode J store sess supply))"
    by (simp add: prod_eq_iff)
  moreover have "v \<noteq> []"
    using v(1) assms(1)
    by (auto simp: Encode_def Let_def rand_read_Some b64_encode_not_Nil split: option.splits prod.splits)
  ultimately show ?thesis using v(2) by blast
qed


definition plain_store :: cookie_store where
  "plain_store = \<lparr>cs_gcm = plain_aead\<rparr>"


text \<open>C8. The session comes back.  A session saved into a cookie is loaded by the next request
  that carries this cookie, up to its expiry: the handler runs with a session in its context that
  has the same identifier, user, times and data (numbers as \<open>float64\<close>), and no flag set.\<close>

theorem Session_next_request:
  assumes "json_ok J" "aead_ok (cs_gcm store)" "0 < NonceSize (cs_gcm store)"
    and "wf_session sess" "\<not> s_destroyed sess"
    and "c \<in> set (saved_cookies J store (session_config cfgs) sess e)"
    and "map_of (r_Cookies r) (CookieName (session_config cfgs)) = Some (c_Value c)"
    and "is_zero_time (s_ExpiresAt sess) \<or> w_now s \<le> s_ExpiresAt sess"
  shows "\<exists>w' r' s' k p. (\<forall>nxt. Session J store cfgs nxt w r s = and_then (nxt w' r' s') k) \<and>
    FromContext (r_Context r') = Some p \<and> p < length (w_sessions s') \<and>
    w_sessions s' ! p = restored sess \<and> w_resp s' = w_resp s"
proof -
  obtain rest where enc: "Encode J store sess e = (Inr (c_Value c), rest)" and ne: "c_Value c \<noteq> []"
    using saved_cookie_value assms(3,5,6) by blast
  have "loadSession J store (CookieName (session_config cfgs)) r (w_now s) (w_entropy s) =
      Inr (restored sess, w_entropy s)"
    using Decode_Encode [OF assms(1,2,4) enc, of "w_now s"] assms(7,8) ne
    by (auto simp: loadSession_def)
  note call = Session_call [OF this, of _ w]
  show ?thesis
    by (intro exI conjI allI, rule call) (simp add: http_simps, simp_all add: session_start_def)
qed

definition sample_session :: session where
  "sample_session =
     \<lparr>s_ID = ''a1'', s_Data = Some [(''theme'', VString ''dark'')], s_UserID = 7, s_CreatedAt = 5,
      s_ExpiresAt = 0, s_IsNew = True, s_destroyed = False, s_regenerated = False, s_oldID = [],
      s_modified = True, s_maxAge = 0\<rparr>"

theorem Session_next_request_witness:
  "\<exists>c. saved_cookies unary_codec plain_store (session_config []) sample_session (replicate 12 7) = [c] \<and>
     (\<exists>w' r' s' k p. (\<forall>nxt. Session unary_codec plain_store [] nxt (base_rw True True True)
         ((plain_request ''GET'' ''/'')\<lparr>r_Cookies := [(''_broth_session'', c_Value c)]\<rparr>) (fresh_world 9 []) =
         and_then (nxt w' r' s') k) \<and>
       FromContext (r_Context r') = Some p \<and> p < length (w_sessions s') \<and>
       w_sessions s' ! p = restored sample_session \<and> w_resp s' = w_resp (fresh_world 9 []))"
proof -
  have wf: "wf_session sample_session"
    by (simp add: wf_session_def sample_session_def session_ok_def in_int64_def min_int64_def max_int64_def
        ascii_def)
  have "\<exists>v. Encode unary_codec plain_store sample_session (replicate 12 7) =
      (Inr v, drop (NonceSize (cs_gcm plain_store)) (replicate 12 7))"
    by (rule Encode_total [OF wf]) (simp_all add: unary_codec_def plain_store_def plain_aead_def)
  then obtain v where "fst (Encode unary_codec plain_store sample_session (replicate 12 7)) = Inr v" by auto
  then obtain c where c: "saved_cookies unary_codec plain_store (session_config []) sample_session
      (replicate 12 7) = [c]"
    by (simp add: saved_cookies_def sample_session_def)
  then have mem: "c \<in> set (saved_cookies unary_codec plain_store (session_config []) sample_session
      (replicate 12 7))" by simp
  have ok: "aead_ok (cs_gcm plain_store)" "0 < NonceSize (cs_gcm plain_store)" "\<not> s_destroyed sample_session"
    by (simp_all add: plain_store_def plain_aead_ok) (simp_all add: plain_aead_def sample_session_def)
  have "\<exists>w' r' s' k p. (\<forall>nxt. Session unary_codec plain_store [] nxt (base_rw True True True)
         ((plain_request ''GET'' ''/'')\<lparr>r_Cookies := [(''_broth_session'', c_Value c)]\<rparr>) (fresh_world 9 []) =
         and_then (nxt w' r' s') k) \<and>
       FromContext (r_Context r') = Some p \<and> p < length (w_sessions s') \<and>
       w_sessions s' ! p = restored sample_session \<and> w_resp s' = w_resp (fresh_world 9 [])"
    by (rule Session_next_request [OF unary_codec_ok ok(1,2) wf ok(3) mem])
      (simp_all add: sample_session_def session_config_def is_zero_time_def)
  with c show ?thesis by blast
qed

text \<open>
  The lifetime chosen with \<open>SetMaxAge\<close> is not part of the payload: a later request that changes
  the session writes the cookie with the configured \<open>MaxAge\<close> again.
\<close>

lemma remembered_age_lost:
  assumes "saved_cookies J store cfg (sess_Set k v (restored sess)) supply = [c]"
  shows "c_MaxAge c = CookieMaxAge cfg"
  using assms
  by (auto simp: saved_cookies_def restored_def sess_Set_def Let_def session_cookie_def split: sum.splits)

text \<open>
  \<open>SetMaxAge(0)\<close>, meant for a cookie that lives as long as the browser, makes the session
  expire at once: any later request gets the error.
\<close>

lemma SetMaxAge_0_expires:
  assumes "json_ok J" "aead_ok (cs_gcm store)" "wf_session sess" "0 < now" "now < later"
    and "Encode J store (SetMaxAge 0 now sess) supply = (Inr v, rest)"
  shows "Decode J store later v = Inl ErrExpired"
proof -
  have "wf_session (SetMaxAge 0 now sess)" "s_ExpiresAt (SetMaxAge 0 now sess) = now"
    using assms(3) by (simp_all add: wf_session_def SetMaxAge_def session_ok_def wrap64_def)
  with Decode_Encode [OF assms(1,2) this(1) assms(6), of later] assms(4,5) show ?thesis
    by (simp add: is_zero_time_def)
qed

text \<open>
  A cookie saved before \<open>Regenerate\<close> or \<open>Destroy\<close> stays good: the store is stateless, so what it
  decodes to does not depend on what happened to the session since.
\<close>

lemma old_cookie_survives:
  assumes "json_ok J" "aead_ok (cs_gcm store)" "wf_session sess" "s_ExpiresAt sess = 0"
    and "Encode J store sess supply = (Inr v, rest)"
    and "Regenerate (sess, rest) = Done (sess', rest')" "Encode J store sess' rest' = (Inr v', rest'')"
  shows "Decode J store later v = Inr (restored sess)"
  using Decode_Encode [OF assms(1-3,5)] assms(4) by (simp add: is_zero_time_def)

end
