(* ===== verification/Middleware_Auth.thy ===== *)
theory Middleware_Auth
  imports Auth Url Middleware_Session
begin

text \<open>
  \<open>middleware/auth.go\<close> and \<open>middleware/authorize.go\<close>: the user of a request comes from a bearer
  token in the API context and from the session in the SSR context; \<open>RequireAuth\<close> and
  \<open>RequireRole\<close> let a request through only with a user, and with a role.
\<close>

section \<open>Configuration\<close>

text \<open>
  \<open>UserFinder\<close> is the application's callback; it returns an error, a user, or neither, and may
  change the world.
\<close>

record 'w AuthConfig =
  ac_TokenService :: "TokenService option"
  ac_UserFinder :: "(go_context \<Rightarrow> int \<Rightarrow> 'w \<Rightarrow> (string + user option) \<times> 'w) option"

section \<open>Authentication\<close>

definition authenticateBearer ::
    "jwt_lib \<Rightarrow> go_time \<Rightarrow> request \<Rightarrow> 'w AuthConfig \<Rightarrow> string + user option" where
  "authenticateBearer L now r cfg =
     (let header = header_get (r_Header r) ''Authorization''
      in if header = [] then Inr None
         else if \<not> has_prefix header ''Bearer '' then Inl ''auth: invalid authorization header format''
         else case ac_TokenService cfg of
                None \<Rightarrow> Inl ''auth: token service not configured''
              | Some ts \<Rightarrow>
                  (case ValidateAccessToken L ts now (trim_prefix header ''Bearer '') of
                     Inl err \<Rightarrow> Inl err
                   | Inr claims \<Rightarrow>
                       Inr (Some \<lparr>user_ID = tc_UserID claims, user_Email = tc_Email claims,
                                  user_Name = [], user_Roles = tc_Roles claims\<rparr>)))"

text \<open>The type switch on the stored value; \<open>None\<close> is its default case.\<close>

definition session_user_id :: "go_any option \<Rightarrow> int option" where
  "session_user_id v =
     (case v of
        Some (VInt64 n) \<Rightarrow> Some n
      | Some (VFloat64 f) \<Rightarrow> Some (int64_of_f64 f)
      | Some (VInt n) \<Rightarrow> Some n
      | _ \<Rightarrow> None)"

definition authenticateSession ::
    "request \<Rightarrow> ('m world_scheme) AuthConfig \<Rightarrow> 'm world_scheme \<Rightarrow> (string + user option) \<times> 'm world_scheme"
where
  "authenticateSession r cfg s =
     (case FromContext (r_Context r) of
        None \<Rightarrow> (Inr None, s)
      | Some p \<Rightarrow>
          (case session_user_id (data_get (w_sessions s ! p) ''user_id'') of
             None \<Rightarrow> (Inr None, s)
           | Some userID \<Rightarrow>
               (if userID = 0 then (Inr None, s)
                else case ac_UserFinder cfg of
                       None \<Rightarrow> (Inr None, s)
                     | Some finder \<Rightarrow> finder (r_Context r) userID s)))"

definition handleAuthError ::
    "'w response_writer \<Rightarrow> request \<Rightarrow> request_context \<Rightarrow> string \<Rightarrow> 'w \<Rightarrow> 'w" where
  "handleAuthError w r rc err s =
     (case rc of
        ContextAPI \<Rightarrow> json_error w 401 err s
      | ContextSSR \<Rightarrow> http_Redirect w r ''/login'' 303 s)"

definition authenticate ::
    "jwt_lib \<Rightarrow> request \<Rightarrow> ('m world_scheme) AuthConfig \<Rightarrow> 'm world_scheme \<Rightarrow>
     (string + user option) \<times> 'm world_scheme"
where
  "authenticate L r cfg s =
     (case GetRequestContext (r_Context r) of
        ContextAPI \<Rightarrow> (authenticateBearer L (w_now s) r cfg, s)
      | ContextSSR \<Rightarrow> authenticateSession r cfg s)"

definition Auth :: "jwt_lib \<Rightarrow> ('m world_scheme) AuthConfig \<Rightarrow> ('m world_scheme) middleware" where
  "Auth L cfg next w r s =
     (case authenticate L r cfg s of
        (Inl err, t) \<Rightarrow> Done (handleAuthError w r (GetRequestContext (r_Context r)) err t)
      | (Inr None, t) \<Rightarrow> next w r t
      | (Inr (Some u), t) \<Rightarrow> next w (WithContext r (SetUser (r_Context r) (Some u))) t)"

section \<open>Authorization\<close>

text \<open>The answer to a request without a user, the same in both middlewares.\<close>

definition unauthenticated :: "'w response_writer \<Rightarrow> request \<Rightarrow> 'w \<Rightarrow> 'w" where
  "unauthenticated w r s =
     (case GetRequestContext (r_Context r) of
        ContextSSR \<Rightarrow> http_Redirect w r (''/login?next='' @ r_Path r) 303 s
      | ContextAPI \<Rightarrow> json_error w 401 ''authentication required'' s)"

definition RequireAuth :: "'w middleware" where
  "RequireAuth next w r s =
     (if \<not> IsAuthenticated (r_Context r) then Done (unauthenticated w r s) else next w r s)"

fun role_loop :: "user \<Rightarrow> string list \<Rightarrow> bool" where
  "role_loop u [] = False"
| "role_loop u (role # roles) = (if HasRole u role then True else role_loop u roles)"

definition RequireRole :: "string list \<Rightarrow> 'w middleware" where
  "RequireRole roles next w r s =
     (case GetUser (r_Context r) of
        None \<Rightarrow> Done (unauthenticated w r s)
      | Some u \<Rightarrow>
          (if role_loop u roles then next w r s
           else Done (json_error w 403 ''insufficient permissions'' s)))"

declare Auth_def [mw_defs] RequireAuth_def [mw_defs] RequireRole_def [mw_defs]

section \<open>Lemmas\<close>

lemma role_loop_iff: "role_loop u roles \<longleftrightarrow> set roles \<inter> set (user_Roles u) \<noteq> {}"
  by (induction roles) (auto simp: HasRole_iff)

text \<open>A user the middleware accepts, as a relation between the request and the world.\<close>

lemma authenticateBearer_Some:
  assumes "authenticateBearer L now r cfg = Inr (Some u)"
  shows "\<exists>ts token c. ac_TokenService cfg = Some ts \<and>
    header_get (r_Header r) ''Authorization'' = ''Bearer '' @ token \<and>
    ValidateAccessToken L ts now token = Inr c \<and>
    user_ID u = tc_UserID c \<and> user_Email u = tc_Email c \<and> user_Roles u = tc_Roles c"
proof -
  obtain token where t: "header_get (r_Header r) ''Authorization'' = ''Bearer '' @ token"
    using assms by (auto simp: authenticateBearer_def Let_def has_prefix_iff split: if_splits)
  have p: "has_prefix (''Bearer '' @ token) ''Bearer ''" "trim_prefix (''Bearer '' @ token) ''Bearer '' = token"
    by (rule has_prefix_append, rule trim_prefix_append)
  show ?thesis
    using assms unfolding authenticateBearer_def t Let_def p
    by (auto split: if_splits option.splits sum.splits)
qed

lemma bearer_eq:
  assumes "header_get (r_Header r) ''Authorization'' = ''Bearer '' @ token" "ac_TokenService cfg = Some ts"
  shows "authenticateBearer L now r cfg =
    (case ValidateAccessToken L ts now token of
       Inl err \<Rightarrow> Inl err
     | Inr c \<Rightarrow> Inr (Some \<lparr>user_ID = tc_UserID c, user_Email = tc_Email c, user_Name = [], user_Roles = tc_Roles c\<rparr>))"
proof -
  have p: "has_prefix (''Bearer '' @ token) ''Bearer ''" "trim_prefix (''Bearer '' @ token) ''Bearer '' = token"
    by (rule has_prefix_append, rule trim_prefix_append)
  show ?thesis
    unfolding authenticateBearer_def assms(1) Let_def p by (simp add: assms(2))
qed

context writer_contract
begin

lemma unauthenticated_status:
  "resp_status (unauthenticated rw r s) =
     commit_status (if GetRequestContext (r_Context r) = ContextSSR then 303 else 401) (resp_status s)"
  by (simp add: unauthenticated_def http_Redirect_status json_error_status split: request_context.split)

lemma handleAuthError_status:
  "resp_status (handleAuthError rw r rc err s) = commit_status (if rc = ContextSSR then 303 else 401) (resp_status s)"
  by (simp add: handleAuthError_def http_Redirect_status json_error_status split: request_context.split)

end

lemma rw_run_unauthenticated [intro]:
  "rw_run P n m rw s t \<Longrightarrow> rw_run P n m rw s (unauthenticated rw r t)"
  by (auto simp: unauthenticated_def split: request_context.split)

lemma rw_run_handleAuthError [intro]:
  "rw_run P n m rw s t \<Longrightarrow> rw_run P n m rw s (handleAuthError rw r rc err t)"
  by (auto simp: handleAuthError_def split: request_context.split)

lemma RequireAuth_well_behaved:
  "well_behaved P nxt \<Longrightarrow> well_behaved P (RequireAuth nxt)"
  unfolding well_behaved_def RequireAuth_def by (auto intro: rr_refl)

lemma RequireRole_well_behaved:
  "well_behaved P nxt \<Longrightarrow> well_behaved P (RequireRole roles nxt)"
  unfolding well_behaved_def RequireRole_def by (auto intro: rr_refl split: option.splits)

section \<open>Properties\<close>

definition token_user :: "TokenClaims \<Rightarrow> user" where
  "token_user c = \<lparr>user_ID = tc_UserID c, user_Email = tc_Email c, user_Name = [], user_Roles = tc_Roles c\<rparr>"

lemma bearer_detected:
  "header_get (r_Header r) ''Authorization'' = ''Bearer '' @ token \<Longrightarrow> DetectRequestContext r = ContextAPI"
  using has_prefix_append [of "''Bearer ''" token] unfolding DetectRequestContext_def Let_def by simp


definition api_request :: "string \<Rightarrow> request" where
  "api_request token =
     (plain_request ''GET'' ''/api'')\<lparr>r_Header := header_set ''Authorization'' (''Bearer '' @ token) (\<lambda>_. [])\<rparr>"


text \<open>\<open>RequireAuth\<close> lets exactly the requests with a user through; others are sent to the login
  page (SSR, with the way back in the query) or answered with 401 (API).\<close>

lemma RequireAuth_spec:
  assumes "resp_status s = None"
  shows "if IsAuthenticated (r_Context r)
    then (\<forall>next. RequireAuth next (base_rw fl hj pu) r s = next (base_rw fl hj pu) r s)
    else (\<exists>u. (\<forall>next. RequireAuth next (base_rw fl hj pu) r s = Done u) \<and>
      (case GetRequestContext (r_Context r) of
         ContextAPI \<Rightarrow> resp_status u = Some 401
       | ContextSSR \<Rightarrow> resp_status u = Some 303 \<and>
           header_get (h_map (resp_sent u)) ''Location'' =
             hexEscapeNonASCII (redirect_target (''/login?next='' @ r_Path r))))"
  using assms
  by (simp add: RequireAuth_def base.unauthenticated_status split: request_context.split)
    (simp add: unauthenticated_def base.http_Redirect_location)

lemma RequireAuth_spec_witness:
  "\<exists>u. RequireAuth (\<lambda>w r s. Panicked ''secret'' s) (base_rw True True True) (plain_request ''GET'' ''/me'')
       (fresh_world 0 []) = Done u \<and>
     header_get (h_map (resp_sent u)) ''Location'' = ''/login?next=/me''"
proof -
  let ?r = "plain_request ''GET'' ''/me''"
  have c: "r_Context ?r = Background" "r_Path ?r = ''/me''" by (simp_all add: plain_request_def)
  have "hexEscapeNonASCII (redirect_target ''/login?next=/me'') = ''/login?next=/me''" by code_simp
  then show ?thesis
    using RequireAuth_spec [of "fresh_world 0 []" ?r True True True]
    by (simp add: c IsAuthenticated_def GetUser_def GetRequestContext_def) blast
qed

lemma data_get_restored: "data_get (restored sess) k = map_option norm_any (data_get sess k)"
proof (cases "s_Data sess")
  case (Some m)
  have "map_of (map (\<lambda>kv. (fst kv, norm_any (snd kv))) m) k = map_option norm_any (map_of m k)"
    by (induction m) auto
  with Some show ?thesis by (cases m) (simp_all add: data_get_def restored_def norm_data_def)
qed (simp add: data_get_def restored_def norm_data_def)


definition login_session :: session where
  "login_session = sess_Set ''user_id'' (VInt64 7) sample_session"


text \<open>
  Beyond that the identifier is rounded: the user with identifier \<open>2 ^ 53 + 1\<close> comes back as
  another user.
\<close>

lemma Login_rounded:
  assumes "FromContext (r_Context r) = Some p" "w_sessions s ! p = restored sess"
    and "data_get sess ''user_id'' = Some (VInt64 (2 ^ 53 + 1))" "ac_UserFinder cfg = Some finder"
  shows "authenticateSession r cfg s = finder (r_Context r) (2 ^ 53) s"
proof -
  have "int64_of_f64 (f64_of_int (2 ^ 53 + 1)) = 2 ^ 53"
    by (simp add: f64_of_int_def round_nat53_def bit_length.simps in_int64_def min_int64_def max_int64_def Let_def)
  with assms show ?thesis
    by (simp add: authenticateSession_def data_get_restored session_user_id_def)
qed

end
