(* ===== verification/Middleware_Csrf.thy ===== *)
theory Middleware_Csrf
  imports Middleware_Session
begin

text \<open>
  \<open>middleware/csrf.go\<close>: a token per session, kept in the session under \<open>_broth_csrf_token\<close>, put
  in the request context for templates, and demanded back (form field or header) by every unsafe
  request of the SSR context.
\<close>

section \<open>Configuration and helpers\<close>

definition csrfTokenLength :: nat where "csrfTokenLength = 32"
definition csrfSessionKey :: string where "csrfSessionKey = ''_broth_csrf_token''"

record CSRFConfig =
  csrf_Enabled :: bool
  csrf_HeaderName :: string
  csrf_FieldName :: string

definition csrf_config :: "CSRFConfig list \<Rightarrow> CSRFConfig" where
  "csrf_config cfgs =
     (case cfgs of
        [] \<Rightarrow> \<lparr>csrf_Enabled = True, csrf_HeaderName = ''X-CSRF-Token'', csrf_FieldName = ''_csrf_token''\<rparr>
      | c # _ \<Rightarrow>
          \<lparr>csrf_Enabled = csrf_Enabled c,
           csrf_HeaderName = (if csrf_HeaderName c \<noteq> [] then csrf_HeaderName c else ''X-CSRF-Token''),
           csrf_FieldName = (if csrf_FieldName c \<noteq> [] then csrf_FieldName c else ''_csrf_token'')\<rparr>)"

definition isSafeMethod :: "string \<Rightarrow> bool" where
  "isSafeMethod m \<longleftrightarrow> m = ''GET'' \<or> m = ''HEAD'' \<or> m = ''OPTIONS'' \<or> m = ''TRACE''"

text \<open>The token and what is left of the random supply; \<open>Inl\<close> is the read error.\<close>

definition generateCSRFToken :: "byte list \<Rightarrow> (string + string) \<times> byte list" where
  "generateCSRFToken supply =
     (case rand_read csrfTokenLength supply of
        None \<Rightarrow> (Inl ''unexpected EOF'', [])
      | Some (b, rest) \<Rightarrow> (Inr (b64_encode b), rest))"

text \<open>
  \<open>subtle.ConstantTimeCompare\<close>: the differences of all byte pairs are collected before the
  result is taken.
\<close>

definition string_bytes :: "string \<Rightarrow> byte list" where
  "string_bytes s = map of_char s"

fun ct_collect :: "byte \<Rightarrow> byte list \<Rightarrow> byte list \<Rightarrow> byte" where
  "ct_collect v (x # xs) (y # ys) = ct_collect (or v (xor x y)) xs ys"
| "ct_collect v _ _ = v"

definition ConstantTimeCompare :: "byte list \<Rightarrow> byte list \<Rightarrow> int" where
  "ConstantTimeCompare x y =
     (if length x \<noteq> length y then 0 else if ct_collect 0 x y = 0 then 1 else 0)"

section \<open>The middleware\<close>

text \<open>The token the session holds, [] when there is no session or no token in it.\<close>

definition session_token :: "go_context \<Rightarrow> 'm world_scheme \<Rightarrow> string" where
  "session_token c s =
     (case FromContext c of None \<Rightarrow> [] | Some p \<Rightarrow> GetString (w_sessions s ! p) csrfSessionKey)"

text \<open>\<open>sess.Set\<close> through the pointer.\<close>

definition store_token :: "go_context \<Rightarrow> string \<Rightarrow> 'm world_scheme \<Rightarrow> 'm world_scheme" where
  "store_token c token s =
     (case FromContext c of
        None \<Rightarrow> s
      | Some p \<Rightarrow>
          s\<lparr>w_sessions := (w_sessions s)[p := sess_Set csrfSessionKey (VString token) (w_sessions s ! p)]\<rparr>)"

definition csrf_submitted :: "CSRFConfig \<Rightarrow> request \<Rightarrow> string" where
  "csrf_submitted cfg r =
     (let t = FormValue r (csrf_FieldName cfg)
      in if t = [] then header_get (r_Header r) (csrf_HeaderName cfg) else t)"

definition csrf_check ::
    "CSRFConfig \<Rightarrow> ('m world_scheme) handler \<Rightarrow> ('m world_scheme) response_writer \<Rightarrow> request \<Rightarrow> string \<Rightarrow>
     'm world_scheme \<Rightarrow> 'm world_scheme hres"
where
  "csrf_check cfg next w r0 token s =
     (let r = WithContext r0 (setCSRFToken (r_Context r0) token)
      in if isSafeMethod (r_Method r) then next w r s
         else if ConstantTimeCompare (string_bytes token) (string_bytes (csrf_submitted cfg r)) \<noteq> 1
         then Done (http_Error w ''Forbidden - CSRF token invalid'' 403 s)
         else next w r s)"

definition CSRF :: "CSRFConfig list \<Rightarrow> ('m world_scheme) middleware" where
  "CSRF cfgs next w r s =
     (let cfg = csrf_config cfgs
      in if \<not> csrf_Enabled cfg then next w r s
         else if GetRequestContext (r_Context r) = ContextAPI then next w r s
         else
           (let token = session_token (r_Context r) s
            in if token = [] then
                 (case generateCSRFToken (w_entropy s) of
                    (Inl _, rest) \<Rightarrow> Done (http_Error w ''Internal Server Error'' 500 (s\<lparr>w_entropy := rest\<rparr>))
                  | (Inr t, rest) \<Rightarrow>
                      csrf_check cfg next w r t (store_token (r_Context r) t (s\<lparr>w_entropy := rest\<rparr>)))
               else csrf_check cfg next w r token s))"

declare CSRF_def [mw_defs] csrf_check_def [mw_defs]

section \<open>Lemmas\<close>

lemma or_zero: "or v w = 0 \<longleftrightarrow> v = 0 \<and> w = (0 :: byte)"
  by (auto simp: bit_eq_iff bit_or_iff)

lemma xor_zero: "xor x y = 0 \<longleftrightarrow> x = (y :: byte)"
  by (auto simp: bit_eq_iff bit_xor_iff)

lemma ct_collect_zero:
  "length x = length y \<Longrightarrow> ct_collect v x y = 0 \<longleftrightarrow> v = 0 \<and> x = y"
  by (induction v x y rule: ct_collect.induct) (auto simp: or_zero xor_zero)

lemma byte_of_char: "unat (of_char c :: byte) = of_char c"
proof -
  have "unat (of_nat (of_char c) :: byte) = of_char c"
    by (simp add: unat_of_nat)
  then show ?thesis by (simp only: of_nat_of_char)
qed

lemma string_bytes_inj [simp]: "string_bytes s = string_bytes t \<longleftrightarrow> s = t"
proof -
  have "inj (of_char :: char \<Rightarrow> byte)"
    by (rule injI) (metis byte_of_char of_char_eq_iff)
  then show ?thesis by (simp add: string_bytes_def inj_map_eq_map)
qed

lemma ConstantTimeCompare_iff:
  "ConstantTimeCompare (string_bytes s) (string_bytes t) = 1 \<longleftrightarrow> s = t"
proof (cases "length s = length t")
  case True
  then show ?thesis
    using ct_collect_zero [of "string_bytes s" "string_bytes t" 0]
    by (simp add: ConstantTimeCompare_def string_bytes_def) (simp add: string_bytes_def [symmetric])
qed (auto simp: ConstantTimeCompare_def string_bytes_def)

lemma generateCSRFToken_Inr:
  "generateCSRFToken supply = (Inr t, rest) \<Longrightarrow> t \<noteq> []"
  by (auto simp: generateCSRFToken_def csrfTokenLength_def rand_read_Some b64_encode_not_Nil
      split: option.splits)

lemma csrf_check_eq:
  "csrf_check cfg next w r token s =
     (if isSafeMethod (r_Method r) \<or> token = csrf_submitted cfg r
      then next w (WithContext r (setCSRFToken (r_Context r) token)) s
      else Done (http_Error w ''Forbidden - CSRF token invalid'' 403 s))"
  by (simp add: csrf_check_def Let_def ConstantTimeCompare_iff http_simps csrf_submitted_def)

lemma store_token_frame [http_simps]:
  "w_resp (store_token c t s) = w_resp s" "w_status_ws (store_token c t s) = w_status_ws s"
  "w_session_ws (store_token c t s) = w_session_ws s" "w_now (store_token c t s) = w_now s"
  "length (w_sessions (store_token c t s)) = length (w_sessions s)"
  by (simp_all add: store_token_def split: option.splits)

lemma session_token_store:
  "FromContext c = Some p \<Longrightarrow> p < length (w_sessions s) \<Longrightarrow> session_token c (store_token c t s) = t"
  by (simp add: session_token_def store_token_def)

text \<open>The three cases of an enabled SSR request.\<close>

lemma CSRF_ssr:
  assumes "csrf_Enabled (csrf_config cfgs)" "GetRequestContext (r_Context r) = ContextSSR"
  shows "CSRF cfgs next w r s =
    (if session_token (r_Context r) s \<noteq> []
     then csrf_check (csrf_config cfgs) next w r (session_token (r_Context r) s) s
     else case generateCSRFToken (w_entropy s) of
            (Inl _, rest) \<Rightarrow> Done (http_Error w ''Internal Server Error'' 500 (s\<lparr>w_entropy := rest\<rparr>))
          | (Inr t, rest) \<Rightarrow>
              csrf_check (csrf_config cfgs) next w r t (store_token (r_Context r) t (s\<lparr>w_entropy := rest\<rparr>)))"
  using assms by (simp add: CSRF_def Let_def)

lemma CSRF_skip:
  "\<not> csrf_Enabled (csrf_config cfgs) \<or> GetRequestContext (r_Context r) = ContextAPI \<Longrightarrow>
     CSRF cfgs next w r s = next w r s"
  by (auto simp: CSRF_def Let_def)

lemma rw_run_store_token: "rw_run P n m w s t \<Longrightarrow> rw_run P n m w s (store_token c tok t)"
  by (simp add: store_token_def rw_run_sessions split: option.splits)

lemma csrf_check_well_behaved:
  assumes wb: "well_behaved P nxt" and k: "keeps_heaps rw"
    and run: "rw_run P (length (w_status_ws s)) (length (w_session_ws s)) rw s t"
  shows "rw_run P (length (w_status_ws s)) (length (w_session_ws s)) rw s
    (hres_state (csrf_check cfg nxt rw r tok t))"
  using well_behaved_next [OF wb k run] run by (auto simp: csrf_check_eq)

lemma CSRF_well_behaved:
  fixes nxt :: "('m world_scheme) handler"
  assumes wb: "well_behaved P nxt"
  shows "well_behaved P (CSRF cfgs nxt)"
  unfolding well_behaved_def
proof (intro allI impI)
  fix rw :: "('m world_scheme) response_writer" and r :: request and s :: "'m world_scheme"
  assume k: "keeps_heaps rw"
  let ?R = "rw_run P (length (w_status_ws s)) (length (w_session_ws s)) rw s"
  have refl: "?R s" by (rule rr_refl)
  show "?R (hres_state (CSRF cfgs nxt rw r s))"
  proof (cases "\<not> csrf_Enabled (csrf_config cfgs) \<or> GetRequestContext (r_Context r) = ContextAPI")
    case True
    then show ?thesis using well_behaved_next [OF wb k refl] by (simp add: CSRF_skip)
  next
    case False
    then have ssr: "csrf_Enabled (csrf_config cfgs)" "GetRequestContext (r_Context r) = ContextSSR"
      by (auto intro: request_context.exhaust)
    have "?R (hres_state (csrf_check (csrf_config cfgs) nxt rw r tok s))" for tok
      by (rule csrf_check_well_behaved [OF wb k refl])
    moreover have "?R (hres_state (csrf_check (csrf_config cfgs) nxt rw r tok
        (store_token (r_Context r) tok (s\<lparr>w_entropy := e\<rparr>))))" for tok e
      by (rule csrf_check_well_behaved [OF wb k rw_run_store_token [OF rw_run_entropy [OF refl]]])
    moreover have "?R (http_Error rw m c (s\<lparr>w_entropy := e\<rparr>))" for m c e
      by (rule rw_run_http_Error [OF rw_run_entropy [OF refl]])
    ultimately show ?thesis by (auto simp: CSRF_ssr [OF ssr] split: prod.splits sum.splits)
  qed
qed

section \<open>Properties\<close>

lemma GetString_restored: "session_ok sess \<Longrightarrow> GetString (restored sess) k = GetString sess k"
proof (cases "s_Data sess")
  case (Some m)
  have "map_of (map (\<lambda>kv. (fst kv, norm_any (snd kv))) m) k = map_option norm_any (map_of m k)"
    by (induction m) auto
  moreover have "(case map_option norm_any x of Some (VString v) \<Rightarrow> v | _ \<Rightarrow> []) =
      (case x of Some (VString v) \<Rightarrow> v | _ \<Rightarrow> [])" for x
  proof (cases x)
    case (Some v)
    then show ?thesis by (cases v) simp_all
  qed simp
  ultimately show ?thesis
    using Some by (cases m) (simp_all add: GetString_def restored_def norm_data_def)
qed (simp add: GetString_def restored_def norm_data_def)

text \<open>C2. The guard: an unsafe SSR request whose session holds a token reaches the handler exactly
  when it submits this token; otherwise it is answered with the 403 error and the handler is
  not called.\<close>

theorem CSRF_guard:
  assumes "csrf_Enabled (csrf_config cfgs)" "GetRequestContext (r_Context r) = ContextSSR"
    and "\<not> isSafeMethod (r_Method r)" "session_token (r_Context r) s \<noteq> []"
  shows "CSRF cfgs next w r s =
    (if csrf_submitted (csrf_config cfgs) r = session_token (r_Context r) s
     then next w (WithContext r (setCSRFToken (r_Context r) (session_token (r_Context r) s))) s
     else Done (http_Error w ''Forbidden - CSRF token invalid'' 403 s))"
  using assms by (auto simp: CSRF_ssr csrf_check_eq)

definition csrf_sample_session :: session where
  "csrf_sample_session = sess_Set csrfSessionKey (VString ''tok'') sample_session"

definition csrf_sample_request :: "string \<Rightarrow> request" where
  "csrf_sample_request tok =
     (plain_request ''POST'' ''/save'')\<lparr>r_Form := [(''_csrf_token'', tok)], r_Context := NewContext Background (Some 0)\<rparr>"

theorem CSRF_guard_witness:
  "CSRF [] (\<lambda>w r s. Panicked (GetCSRFToken (r_Context r)) s) (base_rw True True True)
     (csrf_sample_request ''tok'') ((fresh_world 0 [])\<lparr>w_sessions := [csrf_sample_session]\<rparr>) =
   Panicked ''tok'' ((fresh_world 0 [])\<lparr>w_sessions := [csrf_sample_session]\<rparr>)"
proof -
  let ?s = "(fresh_world 0 [])\<lparr>w_sessions := [csrf_sample_session]\<rparr>" and ?r = "csrf_sample_request ''tok''"
  have tok: "session_token (r_Context ?r) ?s = ''tok''"
    by (simp add: session_token_def csrf_sample_request_def csrf_sample_session_def http_simps)
  have sub: "csrf_submitted (csrf_config []) ?r = ''tok''"
    by (simp add: csrf_submitted_def csrf_config_def csrf_sample_request_def FormValue_def)
  have "csrf_Enabled (csrf_config [])" "GetRequestContext (r_Context ?r) = ContextSSR"
    "\<not> isSafeMethod (r_Method ?r)"
    by (simp_all add: csrf_config_def csrf_sample_request_def plain_request_def isSafeMethod_def
        GetRequestContext_def NewContext_def)
  from CSRF_guard [OF this, of ?s] show ?thesis by (simp add: tok sub http_simps)
qed

text \<open>Without a token in the session an unsafe SSR request is never let through: it would have
  to submit the 44 characters of the random bytes drawn after it arrived.\<close>

lemma CSRF_no_token:
  assumes "csrf_Enabled (csrf_config cfgs)" "GetRequestContext (r_Context r) = ContextSSR"
    and "\<not> isSafeMethod (r_Method r)" "session_token (r_Context r) s = []" "resp_status s = None"
    and "csrf_submitted (csrf_config cfgs) r \<noteq> b64_encode (take 32 (w_entropy s))"
  shows "\<exists>u code. (\<forall>next. CSRF cfgs next (base_rw fl hj pu) r s = Done u) \<and>
    resp_status u = Some code \<and> code \<in> {403, 500}"
proof (cases "generateCSRFToken (w_entropy s)")
  case (Pair res rest)
  show ?thesis
  proof (cases res)
    case (Inl e)
    with Pair assms show ?thesis by (auto simp: CSRF_ssr base.http_Error_status)
  next
    case (Inr t)
    with Pair have "t = b64_encode (take 32 (w_entropy s))"
      by (auto simp: generateCSRFToken_def csrfTokenLength_def rand_read_def split: option.splits if_splits)
    with Inr Pair assms show ?thesis
      by (auto simp: CSRF_ssr csrf_check_eq base.http_Error_status http_simps)
  qed
qed

lemma CSRF_no_token_witness:
  "\<exists>u code. (\<forall>next. CSRF [] next (base_rw True True True)
       ((csrf_sample_request ''guess'')\<lparr>r_Context := Background\<rparr>) (fresh_world 0 []) = Done u) \<and>
     resp_status u = Some code \<and> code \<in> {403, 500}"
proof -
  let ?r = "(csrf_sample_request ''guess'')\<lparr>r_Context := Background\<rparr>"
  have "csrf_Enabled (csrf_config [])" "GetRequestContext (r_Context ?r) = ContextSSR"
    "\<not> isSafeMethod (r_Method ?r)" "session_token (r_Context ?r) (fresh_world 0 []) = []"
    "csrf_submitted (csrf_config []) ?r \<noteq> b64_encode (take 32 (w_entropy (fresh_world 0 [])))"
    by (simp_all add: csrf_config_def csrf_sample_request_def plain_request_def isSafeMethod_def
        GetRequestContext_def session_token_def FromContext_def csrf_submitted_def FormValue_def)
  then show ?thesis by (intro CSRF_no_token) simp_all
qed

text \<open>C31. Issue and accept: a safe request finds in its context a token that is also stored in its
  session, and a later unsafe request, on the session as it comes back from the cookie, passes
  exactly when it submits that token.\<close>

theorem CSRF_issue_accept:
  assumes "csrf_Enabled (csrf_config cfgs)" "32 \<le> length (w_entropy s)"
    and "GetRequestContext (r_Context r1) = ContextSSR" "isSafeMethod (r_Method r1)"
    and "FromContext (r_Context r1) = Some p" "p < length (w_sessions s)"
    and tok: "tok = (if session_token (r_Context r1) s = [] then b64_encode (take 32 (w_entropy s))
              else session_token (r_Context r1) s)"
    and "GetRequestContext (r_Context r2) = ContextSSR" "\<not> isSafeMethod (r_Method r2)"
    and "FromContext (r_Context r2) = Some q" "w_sessions t ! q = restored sess"
    and "session_ok sess" "GetString sess csrfSessionKey = tok"
  shows "(\<exists>s1. (\<forall>next. CSRF cfgs next w r1 s = next w (WithContext r1 (setCSRFToken (r_Context r1) tok)) s1) \<and>
      GetString (w_sessions s1 ! p) csrfSessionKey = tok) \<and>
    (\<forall>next. CSRF cfgs next w2 r2 t =
       (if csrf_submitted (csrf_config cfgs) r2 = tok
        then next w2 (WithContext r2 (setCSRFToken (r_Context r2) tok)) t
        else Done (http_Error w2 ''Forbidden - CSRF token invalid'' 403 t)))"
proof
  have gen: "generateCSRFToken (w_entropy s) = (Inr (b64_encode (take 32 (w_entropy s))), drop 32 (w_entropy s))"
    using assms(2) by (simp add: generateCSRFToken_def csrfTokenLength_def rand_read_def)
  have tok_ne: "tok \<noteq> []"
    using generateCSRFToken_Inr [OF gen] tok by simp
  let ?s0 = "s\<lparr>w_entropy := drop 32 (w_entropy s)\<rparr>"
  let ?s1 = "if session_token (r_Context r1) s = [] then store_token (r_Context r1) tok ?s0 else s"
  have "CSRF cfgs next w r1 s = next w (WithContext r1 (setCSRFToken (r_Context r1) tok)) ?s1" for "next"
    using assms(1,3,4) gen tok by (simp add: CSRF_ssr csrf_check_eq)
  moreover have "GetString (w_sessions ?s1 ! p) csrfSessionKey = tok"
  proof (cases "session_token (r_Context r1) s = []")
    case True
    then show ?thesis
      using assms(5,6) session_token_store [of "r_Context r1" p ?s0 tok] by (simp add: session_token_def)
  next
    case False
    with tok assms(5) show ?thesis by (simp add: session_token_def)
  qed
  ultimately show "\<exists>s1. (\<forall>next. CSRF cfgs next w r1 s = next w (WithContext r1 (setCSRFToken (r_Context r1) tok)) s1) \<and>
      GetString (w_sessions s1 ! p) csrfSessionKey = tok" by blast
  have "session_token (r_Context r2) t = tok"
    using assms(10-13) by (simp add: session_token_def GetString_restored)
  then show "\<forall>next. CSRF cfgs next w2 r2 t =
       (if csrf_submitted (csrf_config cfgs) r2 = tok
        then next w2 (WithContext r2 (setCSRFToken (r_Context r2) tok)) t
        else Done (http_Error w2 ''Forbidden - CSRF token invalid'' 403 t))"
    using assms(1,8,9) tok_ne by (auto simp: CSRF_ssr csrf_check_eq)
qed

theorem CSRF_issue_accept_witness:
  "\<forall>next. CSRF [] next (base_rw True True True) (csrf_sample_request (b64_encode (replicate 32 9)))
      ((fresh_world 0 [])\<lparr>w_sessions :=
         [restored (sess_Set csrfSessionKey (VString (b64_encode (replicate 32 9))) sample_session)]\<rparr>) =
    next (base_rw True True True)
      (WithContext (csrf_sample_request (b64_encode (replicate 32 9)))
        (setCSRFToken (NewContext Background (Some 0)) (b64_encode (replicate 32 9))))
      ((fresh_world 0 [])\<lparr>w_sessions :=
         [restored (sess_Set csrfSessionKey (VString (b64_encode (replicate 32 9))) sample_session)]\<rparr>)"
proof -
  let ?tok = "b64_encode (replicate 32 9)"
  let ?sess = "sess_Set csrfSessionKey (VString ?tok) sample_session"
  let ?s = "(fresh_world 0 (replicate 32 9))\<lparr>w_sessions := [sample_session]\<rparr>"
  let ?t = "(fresh_world 0 [])\<lparr>w_sessions := [restored ?sess]\<rparr>"
  let ?r1 = "(plain_request ''GET'' ''/'')\<lparr>r_Context := NewContext Background (Some 0)\<rparr>"
  let ?r2 = "csrf_sample_request ?tok"
  have ne: "?tok \<noteq> []" by (simp add: b64_encode_not_Nil)
  have st: "session_token (r_Context ?r1) ?s = []"
    by (simp add: session_token_def http_simps sample_session_def GetString_def csrfSessionKey_def)
  have ok: "session_ok ?sess" by (rule session_ok_Set) (simp add: session_ok_def sample_session_def)
  have sub: "csrf_submitted (csrf_config []) ?r2 = ?tok"
    using ne by (simp add: csrf_submitted_def csrf_config_def csrf_sample_request_def FormValue_def)
  have c1: "session_token (NewContext Background (Some 0)) ?s = []" using st by simp
  have c2: "r_Context ?r2 = NewContext Background (Some 0)" "r_Method ?r2 = ''POST''"
    by (simp_all add: csrf_sample_request_def plain_request_def)
  have "(\<exists>s1. (\<forall>next. CSRF [] next (base_rw True True True) ?r1 ?s =
        next (base_rw True True True) (WithContext ?r1 (setCSRFToken (r_Context ?r1) ?tok)) s1) \<and>
      GetString (w_sessions s1 ! 0) csrfSessionKey = ?tok) \<and>
    (\<forall>next. CSRF [] next (base_rw True True True) ?r2 ?t =
       (if csrf_submitted (csrf_config []) ?r2 = ?tok
        then next (base_rw True True True) (WithContext ?r2 (setCSRFToken (r_Context ?r2) ?tok)) ?t
        else Done (http_Error (base_rw True True True) ''Forbidden - CSRF token invalid'' 403 ?t)))"
    by (rule CSRF_issue_accept [where q = 0 and sess = ?sess])
      (simp_all add: st ok c2 c1 http_simps, simp_all add: csrf_config_def plain_request_def isSafeMethod_def
        GetRequestContext_def)
  then show ?thesis by (simp add: sub c2)
qed

text \<open>
  A configuration given for another field leaves the protection off: \<open>Enabled\<close> is false in a
  configuration that does not set it.
\<close>

lemma CSRF_config_off:
  "CSRF [\<lparr>csrf_Enabled = False, csrf_HeaderName = h, csrf_FieldName = f\<rparr>] next w r s = next w r s"
  by (simp add: CSRF_skip csrf_config_def)

end
