(* ===== verification/Router.thy ===== *)
theory Router
  imports Url Middleware_Basic
begin

text \<open>
  \<open>router/router.go\<close> on a model of \<open>http.ServeMux\<close>: patterns are an optional method and a path of
  literal segments, one-segment wildcards and a trailing slash (patterns with a host or with
  \<open>{$}\<close> and \<open>{name...}\<close> segments are not used).  Registering a pattern that conflicts with an
  earlier one panics; a request goes to the most specific pattern that matches.
\<close>

section \<open>Patterns\<close>

datatype seg = Lit string | Wild string | Multi

record pattern =
  pat_method :: string
  pat_segs :: "seg list"

definition path_segs :: "string \<Rightarrow> string list" where
  "path_segs p = tl (split_on (CHR ''/'') p)"

fun parse_segs :: "string list \<Rightarrow> seg list" where
  "parse_segs [] = []"
| "parse_segs [s] =
     [if s = [] then Multi
      else if hd s = CHR ''{'' \<and> last s = CHR ''}'' then Wild (butlast (tl s)) else Lit s]"
| "parse_segs (s # t # ss) =
     (if s \<noteq> [] \<and> hd s = CHR ''{'' \<and> last s = CHR ''}'' then Wild (butlast (tl s)) else Lit s) #
     parse_segs (t # ss)"

definition clean_path :: "string \<Rightarrow> string" where
  "clean_path p0 =
     (if p0 = [] then ''/''
      else let p = (if hd p0 = CHR ''/'' then p0 else CHR ''/'' # p0); np = path_Clean p
           in if last p = CHR ''/'' \<and> np \<noteq> ''/'' then np @ ''/'' else np)"

definition trim_left :: "string \<Rightarrow> string" where
  "trim_left = dropWhile (\<lambda>c. c = CHR '' '' \<or> c = CHR 0x09)"

text \<open>
  \<open>None\<close> is a pattern that is refused: no path, or a path that a cleaned request can never have.
\<close>

definition parse_pattern :: "string \<Rightarrow> pattern option" where
  "parse_pattern s =
     (let (meth, path) = (case cut s (CHR '' '') of None \<Rightarrow> ([], s) | Some (m, rest) \<Rightarrow> (m, trim_left rest))
      in if has_prefix path ''/'' \<and> (meth = [] \<or> meth = ''CONNECT'' \<or> clean_path path = path)
         then Some \<lparr>pat_method = meth, pat_segs = parse_segs (path_segs path)\<rparr>
         else None)"

text \<open>\<open>match_segs\<close> gives the values of the wildcards; a wildcard does not match an empty last segment.\<close>

fun match_segs :: "seg list \<Rightarrow> string list \<Rightarrow> (string \<times> string) list option" where
  "match_segs [] [] = Some []"
| "match_segs (Lit l # ps) (s # ss) = (if l = s then match_segs ps ss else None)"
| "match_segs (Wild n # ps) (s # ss) =
     (if s = [] \<and> ss = [] then None else map_option (Cons (n, s)) (match_segs ps ss))"
| "match_segs [Multi] (s # ss) = Some []"
| "match_segs _ _ = None"

definition method_rank :: "string \<Rightarrow> string \<Rightarrow> nat option" where
  "method_rank pm m =
     (if pm = m \<and> pm \<noteq> [] then Some 0 else if m = ''HEAD'' \<and> pm = ''GET'' then Some 1
      else if pm = [] then Some 2 else None)"

fun seg_rank :: "seg \<Rightarrow> nat" where
  "seg_rank (Lit _) = 0"
| "seg_rank (Wild _) = 1"
| "seg_rank Multi = 2"

section \<open>Conflicts\<close>

datatype relationship = Equivalent | MoreGeneral | MoreSpecific | Disjoint | Overlaps

fun combine_rel :: "relationship \<Rightarrow> relationship \<Rightarrow> relationship" where
  "combine_rel Equivalent r = r"
| "combine_rel Disjoint r = Disjoint"
| "combine_rel Overlaps r = (if r = Disjoint then Disjoint else Overlaps)"
| "combine_rel r Disjoint = Disjoint"
| "combine_rel r Overlaps = Overlaps"
| "combine_rel r Equivalent = r"
| "combine_rel MoreGeneral MoreGeneral = MoreGeneral"
| "combine_rel MoreSpecific MoreSpecific = MoreSpecific"
| "combine_rel MoreGeneral MoreSpecific = Overlaps"
| "combine_rel MoreSpecific MoreGeneral = Overlaps"

definition compare_methods :: "string \<Rightarrow> string \<Rightarrow> relationship" where
  "compare_methods a b =
     (if a = b then Equivalent else if a = [] then MoreGeneral else if b = [] then MoreSpecific
      else if a = ''GET'' \<and> b = ''HEAD'' then MoreGeneral
      else if a = ''HEAD'' \<and> b = ''GET'' then MoreSpecific else Disjoint)"

fun compare_segs :: "seg \<Rightarrow> seg \<Rightarrow> relationship" where
  "compare_segs Multi Multi = Equivalent"
| "compare_segs Multi _ = MoreGeneral"
| "compare_segs _ Multi = MoreSpecific"
| "compare_segs (Wild _) (Wild _) = Equivalent"
| "compare_segs (Wild _) (Lit _) = MoreGeneral"
| "compare_segs (Lit _) (Wild _) = MoreSpecific"
| "compare_segs (Lit a) (Lit b) = (if a = b then Equivalent else Disjoint)"

definition is_multi :: "seg list \<Rightarrow> bool" where
  "is_multi ps \<longleftrightarrow> ps \<noteq> [] \<and> last ps = Multi"

text \<open>The loop over both segment lists; \<open>m1\<close> and \<open>m2\<close> say whether the patterns end in a slash.\<close>

fun compare_loop :: "bool \<Rightarrow> bool \<Rightarrow> relationship \<Rightarrow> seg list \<Rightarrow> seg list \<Rightarrow> relationship" where
  "compare_loop m1 m2 rel (a # as) (b # bs) =
     (let rel' = combine_rel rel (compare_segs a b)
      in if rel' = Disjoint then Disjoint else compare_loop m1 m2 rel' as bs)"
| "compare_loop m1 m2 rel [] [] = rel"
| "compare_loop m1 m2 rel [] (b # bs) = (if m1 then combine_rel rel MoreGeneral else Disjoint)"
| "compare_loop m1 m2 rel (a # as) [] = (if m2 then combine_rel rel MoreSpecific else Disjoint)"

definition compare_paths :: "seg list \<Rightarrow> seg list \<Rightarrow> relationship" where
  "compare_paths p q =
     (if length p \<noteq> length q \<and> \<not> is_multi p \<and> \<not> is_multi q then Disjoint
      else compare_loop (is_multi p) (is_multi q) Equivalent p q)"

definition conflicts :: "pattern \<Rightarrow> pattern \<Rightarrow> bool" where
  "conflicts p q \<longleftrightarrow>
     (let mrel = compare_methods (pat_method p) (pat_method q)
      in mrel \<noteq> Disjoint \<and>
         combine_rel mrel (compare_paths (pat_segs p) (pat_segs q)) \<in> {Equivalent, Overlaps})"

section \<open>The mux\<close>

type_synonym 'w mux = "(pattern \<times> 'w handler) list"

text \<open>\<open>mux.Handle\<close>: \<open>None\<close> is the panic.\<close>

definition mux_Handle :: "string \<Rightarrow> 'w handler \<Rightarrow> 'w mux \<Rightarrow> 'w mux option" where
  "mux_Handle s h m =
     (case parse_pattern s of
        None \<Rightarrow> None
      | Some p \<Rightarrow> (if list_ex (\<lambda>e. conflicts p (fst e)) m then None else Some (m @ [(p, h)])))"

fun rank_le :: "nat list \<Rightarrow> nat list \<Rightarrow> bool" where
  "rank_le [] _ = True"
| "rank_le (_ # _) [] = False"
| "rank_le (a # as) (b # bs) = (a < b \<or> a = b \<and> rank_le as bs)"

definition pattern_rank :: "string \<Rightarrow> pattern \<Rightarrow> nat list" where
  "pattern_rank meth p = (case method_rank (pat_method p) meth of None \<Rightarrow> 3 | Some n \<Rightarrow> n) # map seg_rank (pat_segs p)"

text \<open>The entry the search tree finds: methods first, literals before wildcards before subtrees.\<close>

fun best_match :: "'w mux \<Rightarrow> string \<Rightarrow> string list \<Rightarrow> (pattern \<times> 'w handler) option" where
  "best_match [] meth ss = None"
| "best_match (e # m) meth ss =
     (if method_rank (pat_method (fst e)) meth = None \<or> match_segs (pat_segs (fst e)) ss = None
      then best_match m meth ss
      else case best_match m meth ss of
             None \<Rightarrow> Some e
           | Some e' \<Rightarrow> (if rank_le (pattern_rank meth (fst e)) (pattern_rank meth (fst e')) then Some e else Some e'))"

definition exact_match :: "(pattern \<times> 'w handler) option \<Rightarrow> string \<Rightarrow> bool" where
  "exact_match oe path =
     (case oe of
        None \<Rightarrow> False
      | Some e \<Rightarrow>
          (if \<not> is_multi (pat_segs (fst e)) then True
           else path \<noteq> [] \<and> last path = CHR ''/'' \<and> length (pat_segs (fst e)) = length (path_segs path)))"

definition matching_methods :: "'w mux \<Rightarrow> string list \<Rightarrow> string list" where
  "matching_methods m ss =
     map (\<lambda>e. pat_method (fst e)) (filter (\<lambda>e. match_segs (pat_segs (fst e)) ss \<noteq> None) m)"

definition mux_ServeHTTP :: "('m world_scheme) mux \<Rightarrow> ('m world_scheme) handler" where
  "mux_ServeHTTP m w r s =
     (let path = clean_path (r_Path r);
          n = best_match m (r_Method r) (path_segs path);
          slash = path @ ''/'';
          n2 = best_match m (r_Method r) (path_segs slash)
      in if \<not> exact_match n path \<and> last path \<noteq> CHR ''/'' \<and> exact_match n2 slash
           then Done (http_Redirect w r slash 301 s)
         else if path \<noteq> r_Path r then Done (http_Redirect w r path 301 s)
         else case n of
                Some (p, h) \<Rightarrow>
                  h w (r\<lparr>r_PathValues := (case match_segs (pat_segs p) (path_segs path) of Some vs \<Rightarrow> vs | None \<Rightarrow> [])\<rparr>) s
              | None \<Rightarrow>
                  (let allowed = matching_methods m (path_segs path)
                   in if allowed \<noteq> []
                      then Done (http_Error w (status_text 405) 405 (set_header w ''Allow'' (join allowed '', '') s))
                      else Done (http_Error w ''404 page not found'' 404 s)))"

section \<open>The router\<close>

record 'w Route =
  rt_Pattern :: string
  rt_Handler :: "'w handler"

record 'w Router =
  ro_mux :: "'w mux"
  ro_middleware :: "'w middleware list"

definition New_router :: "'w Router" where
  "New_router = \<lparr>ro_mux = [], ro_middleware = []\<rparr>"

definition Use :: "'w middleware list \<Rightarrow> 'w Router \<Rightarrow> 'w Router" where
  "Use mw r = r\<lparr>ro_middleware := ro_middleware r @ mw\<rparr>"

definition Handle :: "'w Route \<Rightarrow> 'w Router \<Rightarrow> 'w Router option" where
  "Handle route r =
     (case mux_Handle (rt_Pattern route) (rt_Handler route) (ro_mux r) of
        None \<Rightarrow> None | Some m \<Rightarrow> Some (r\<lparr>ro_mux := m\<rparr>))"

definition isHTTPMethod :: "string \<Rightarrow> bool" where
  "isHTTPMethod s \<longleftrightarrow>
     s \<in> set [''GET'', ''HEAD'', ''POST'', ''PUT'', ''PATCH'', ''DELETE'', ''OPTIONS'', ''CONNECT'', ''TRACE'']"

definition prefixPattern :: "string \<Rightarrow> string \<Rightarrow> string" where
  "prefixPattern prefix pat =
     (case cut pat (CHR '' '') of
        Some (meth, path) \<Rightarrow> (if isHTTPMethod meth then meth @ '' '' @ prefix @ path else prefix @ pat)
      | None \<Rightarrow> prefix @ pat)"

fun Mount_routes :: "string \<Rightarrow> 'w Route list \<Rightarrow> 'w Router \<Rightarrow> 'w Router option" where
  "Mount_routes prefix [] r = Some r"
| "Mount_routes prefix (route # routes) r =
     (case mux_Handle (prefixPattern prefix (rt_Pattern route)) (rt_Handler route) (ro_mux r) of
        None \<Rightarrow> None
      | Some m \<Rightarrow> Mount_routes prefix routes (r\<lparr>ro_mux := m\<rparr>))"

fun wrap_loop :: "'w middleware list \<Rightarrow> nat \<Rightarrow> 'w handler \<Rightarrow> 'w handler" where
  "wrap_loop mws 0 h = h"
| "wrap_loop mws (Suc i) h = wrap_loop mws i ((mws ! i) h)"

definition router_Handler :: "('m world_scheme) Router \<Rightarrow> ('m world_scheme) handler" where
  "router_Handler r = wrap_loop (ro_middleware r) (length (ro_middleware r)) (mux_ServeHTTP (ro_mux r))"

definition router_ServeHTTP :: "('m world_scheme) Router \<Rightarrow> ('m world_scheme) handler" where
  "router_ServeHTTP r w req s = router_Handler r w req s"

lemma wrap_loop_chain: "wrap_loop mws i h = chain_loop mws i h"
  by (induction i arbitrary: h) simp_all

lemma router_Handler_Chain: "router_Handler r = Chain (ro_middleware r) (mux_ServeHTTP (ro_mux r))"
  by (simp add: router_Handler_def Chain_def wrap_loop_chain)

lemma Use_Handler:
  "router_Handler (Use mw r) = Chain (ro_middleware r) (Chain mw (mux_ServeHTTP (ro_mux r)))"
  by (simp add: router_Handler_Chain Use_def)

section \<open>Dispatch of literal routes\<close>

text \<open>A literal match with the request's own method is the best there is.\<close>

definition literal :: "pattern \<Rightarrow> string \<Rightarrow> string list \<Rightarrow> bool" where
  "literal p meth ss \<longleftrightarrow> pat_method p = meth \<and> pat_segs p = map Lit ss"

lemma match_literal: "match_segs (map Lit ss) ss = Some []"
  by (induction ss) simp_all

lemma rank_literal_le:
  "match_segs ps ss \<noteq> None \<Longrightarrow> rank_le (map seg_rank (map Lit ss)) (map seg_rank ps)"
proof (induction ps ss rule: match_segs.induct)
  case (2 l ps s ss)
  then show ?case by (auto split: if_splits)
next
  case (3 n ps s ss)
  then show ?case by (auto split: if_splits)
qed simp_all

lemma rank_literal_eq:
  "match_segs ps ss \<noteq> None \<Longrightarrow> rank_le (map seg_rank ps) (map seg_rank (map Lit ss)) \<Longrightarrow> ps = map Lit ss"
proof (induction ps ss rule: match_segs.induct)
  case (2 l ps s ss)
  then show ?case by (auto split: if_splits)
next
  case (3 n ps s ss)
  then show ?case by (auto split: if_splits)
qed simp_all

lemma method_rank_0: "method_rank pm m = Some 0 \<longleftrightarrow> pm = m \<and> pm \<noteq> []"
  by (auto simp: method_rank_def)

lemma rank_of_literal:
  assumes "literal p meth ss" "meth \<noteq> []"
    and "method_rank (pat_method q) meth \<noteq> None" "match_segs (pat_segs q) ss \<noteq> None"
  shows "rank_le (pattern_rank meth p) (pattern_rank meth q)"
    and "rank_le (pattern_rank meth q) (pattern_rank meth p) \<Longrightarrow> q = p"
proof -
  have p: "pattern_rank meth p = 0 # map seg_rank (map Lit ss)"
    using assms(1,2) method_rank_0 [of meth meth] by (simp add: pattern_rank_def literal_def)
  obtain n where n: "method_rank (pat_method q) meth = Some n" using assms(3) by blast
  show "rank_le (pattern_rank meth p) (pattern_rank meth q)"
    using rank_literal_le [OF assms(4)] n p unfolding pattern_rank_def by (cases n) auto
  show "q = p" if "rank_le (pattern_rank meth q) (pattern_rank meth p)"
  proof -
    from that n p have "n = 0" "rank_le (map seg_rank (pat_segs q)) (map seg_rank (map Lit ss))"
      by (auto simp: pattern_rank_def)
    with n rank_literal_eq [OF assms(4)] assms(1) show ?thesis
      by (simp add: method_rank_0 literal_def)
  qed
qed

lemma best_match_in: "best_match m meth ss = Some e \<Longrightarrow>
    e \<in> set m \<and> method_rank (pat_method (fst e)) meth \<noteq> None \<and> match_segs (pat_segs (fst e)) ss \<noteq> None"
  by (induction m) (auto split: if_splits option.splits)

lemma best_match_literal:
  assumes "literal p meth ss" "meth \<noteq> []" "(p, h) \<in> set m" "distinct (map fst m)"
  shows "best_match m meth ss = Some (p, h)"
  using assms(3,4)
proof (induction m)
  case (Cons e m)
  have ok: "method_rank (pat_method p) meth \<noteq> None" "match_segs (pat_segs p) ss \<noteq> None"
    using assms(1,2) method_rank_0 [of meth meth] by (simp_all add: literal_def match_literal)
  show ?case
  proof (cases "e = (p, h)")
    case True
    show ?thesis
    proof (cases "best_match m meth ss")
      case None
      with True ok show ?thesis by simp
    next
      case (Some e')
      from best_match_in [OF this] rank_of_literal(1) [OF assms(1,2), of "fst e'"] True ok Some
      show ?thesis by auto
    qed
  next
    case False
    with Cons.prems have "(p, h) \<in> set m" "fst e \<noteq> p" by (auto simp: image_iff)
    with Cons have ih: "best_match m meth ss = Some (p, h)" by simp
    with rank_of_literal(2) [OF assms(1,2), of "fst e"] \<open>fst e \<noteq> p\<close>
    show ?thesis by auto
  qed
qed simp

text \<open>Patterns registered without a panic are pairwise different.\<close>

lemma compare_paths_refl: "compare_paths ps ps = Equivalent"
proof -
  have "compare_segs s s = Equivalent" for s by (cases s) simp_all
  then have "compare_loop m1 m2 Equivalent ps ps = Equivalent" for m1 m2
    by (induction ps) simp_all
  then show ?thesis by (simp add: compare_paths_def)
qed

lemma conflicts_refl: "conflicts p p"
  by (simp add: conflicts_def Let_def compare_methods_def compare_paths_refl)

lemma mux_Handle_distinct:
  assumes "mux_Handle s h m = Some m'" "distinct (map fst m)"
  shows "distinct (map fst m') \<and> (\<exists>p. parse_pattern s = Some p \<and> m' = m @ [(p, h)])"
proof -
  from assms(1) obtain p where p: "parse_pattern s = Some p" "m' = m @ [(p, h)]"
      "\<forall>e \<in> set m. \<not> conflicts p (fst e)"
    by (auto simp: mux_Handle_def list_ex_iff split: option.splits if_splits)
  then have "p \<notin> fst ` set m" using conflicts_refl by fastforce
  with p assms(2) show ?thesis by simp
qed

lemma Mount_routes_distinct:
  "Mount_routes prefix routes r = Some r' \<Longrightarrow> distinct (map fst (ro_mux r)) \<Longrightarrow>
     distinct (map fst (ro_mux r')) \<and> ro_middleware r' = ro_middleware r \<and> set (ro_mux r) \<subseteq> set (ro_mux r') \<and>
     (\<forall>route \<in> set routes. \<exists>p. parse_pattern (prefixPattern prefix (rt_Pattern route)) = Some p \<and>
        (p, rt_Handler route) \<in> set (ro_mux r'))"
proof (induction prefix routes r rule: Mount_routes.induct)
  case (2 prefix route routes r)
  then obtain m where m: "mux_Handle (prefixPattern prefix (rt_Pattern route)) (rt_Handler route) (ro_mux r) = Some m"
    by (auto split: option.splits)
  from mux_Handle_distinct [OF m "2.prems"(2)] obtain p where
    p: "distinct (map fst m)" "parse_pattern (prefixPattern prefix (rt_Pattern route)) = Some p"
       "m = ro_mux r @ [(p, rt_Handler route)]" by blast
  from "2.IH" [OF m] "2.prems"(1) m p(1)
  have "distinct (map fst (ro_mux r')) \<and> ro_middleware r' = ro_middleware r \<and> set m \<subseteq> set (ro_mux r') \<and>
     (\<forall>route \<in> set routes. \<exists>p. parse_pattern (prefixPattern prefix (rt_Pattern route)) = Some p \<and>
        (p, rt_Handler route) \<in> set (ro_mux r'))" by simp
  with p show ?case by auto
qed simp

section \<open>Properties\<close>

lemma split_on_last: "s \<noteq> [] \<Longrightarrow> last s \<noteq> c \<Longrightarrow> last (split_on c s) \<noteq> []"
proof (induction c s rule: split_on.induct)
  case (2 c x xs)
  then show ?case by (cases xs) (auto split: list.splits if_splits)
qed simp

lemma split_on_not_Nil [simp]: "split_on c s \<noteq> []"
  by (induction c s rule: split_on.induct) (auto split: list.splits)

lemma split_on_subset: "seg \<in> set (split_on c s) \<Longrightarrow> set seg \<subseteq> set s"
proof (induction c s arbitrary: seg rule: split_on.induct)
  case (2 c x xs)
  then show ?case by (fastforce split: if_splits list.splits)
qed simp

lemma parse_segs_literal:
  "ss \<noteq> [] \<Longrightarrow> last ss \<noteq> [] \<Longrightarrow> \<forall>s \<in> set ss. CHR ''{'' \<notin> set s \<Longrightarrow> parse_segs ss = map Lit ss"
proof (induction ss rule: parse_segs.induct)
  case (2 s)
  then show ?case by (cases s) auto
next
  case (3 s t ss)
  then show ?case by (cases s) auto
qed simp

definition literal_path :: "string \<Rightarrow> bool" where
  "literal_path p \<longleftrightarrow>
     has_prefix p ''/'' \<and> last p \<noteq> CHR ''/'' \<and> CHR ''{'' \<notin> set p \<and> clean_path p = p"

lemma parse_literal:
  assumes "literal_path p" "CHR '' '' \<notin> set meth" "meth \<noteq> []"
  shows "\<exists>q. parse_pattern (meth @ '' '' @ p) = Some q \<and> literal q meth (path_segs p)"
proof -
  from assms(1) obtain rest where rest: "p = CHR ''/'' # rest" by (cases p) (auto simp: literal_path_def)
  with assms(1) have r: "rest \<noteq> []" "last rest \<noteq> CHR ''/''" "CHR ''{'' \<notin> set rest"
    by (auto simp: literal_path_def split: if_splits)
  have segs: "path_segs p = split_on (CHR ''/'') rest" by (simp add: path_segs_def rest)
  have "parse_segs (path_segs p) = map Lit (path_segs p)"
    unfolding segs using r split_on_last by (intro parse_segs_literal) (auto dest!: split_on_subset)
  moreover have "cut (meth @ '' '' @ p) (CHR '' '') = Some (meth, p)"
    using cut_append [OF assms(2)] by simp
  ultimately show ?thesis
    using assms(1) rest by (simp add: parse_pattern_def trim_left_def literal_path_def literal_def)
qed

text \<open>A request for a literal route reaches its handler, whatever else is registered.\<close>

lemma mux_literal:
  assumes "distinct (map fst m)" "parse_pattern (meth @ '' '' @ path) = Some p" "(p, h) \<in> set m"
    and "literal_path path" "CHR '' '' \<notin> set meth" "meth \<noteq> []" "r_Method req = meth" "r_Path req = path"
  shows "mux_ServeHTTP m w req s = h w (req\<lparr>r_PathValues := []\<rparr>) s"
proof -
  have lit: "literal p meth (path_segs path)" using parse_literal [OF assms(4-6)] assms(2) by auto
  have best: "best_match m meth (path_segs path) = Some (p, h)"
    by (rule best_match_literal [OF lit assms(6,3,1)])
  have exact: "exact_match (Some (p, h)) path"
    using lit by (auto simp: exact_match_def literal_def is_multi_def last_map)
  have "match_segs (pat_segs p) (path_segs path) = Some []" using lit by (simp add: literal_def match_literal)
  moreover have "clean_path path = path" using assms(4) by (simp add: literal_path_def)
  ultimately show ?thesis using best exact assms(7,8) by (simp add: mux_ServeHTTP_def Let_def)
qed

text \<open>C28. Mounting and dispatch: after a module's routes were mounted under a prefix without a
  conflict, a request for a literal route's method and prefixed path reaches this route's
  handler, whatever else is registered; the router wraps the mux in its middleware, the first
  one outermost.\<close>

theorem Mount_dispatch:
  assumes "Mount_routes prefix routes r0 = Some r" "distinct (map fst (ro_mux r0))"
    and "route \<in> set routes" "rt_Pattern route = meth @ '' '' @ path" "isHTTPMethod meth"
    and "literal_path (prefix @ path)" "r_Method req = meth" "r_Path req = prefix @ path"
  shows "router_Handler r = Chain (ro_middleware r0) (mux_ServeHTTP (ro_mux r)) \<and>
    mux_ServeHTTP (ro_mux r) w req s = rt_Handler route w (req\<lparr>r_PathValues := []\<rparr>) s"
proof -
  note d = Mount_routes_distinct [OF assms(1,2)]
  have meth: "CHR '' '' \<notin> set meth" "meth \<noteq> []" using assms(5) by (auto simp: isHTTPMethod_def)
  have pre: "prefixPattern prefix (rt_Pattern route) = meth @ '' '' @ (prefix @ path)"
    using cut_append [OF meth(1), of path] assms(4,5) by (simp add: prefixPattern_def)
  obtain p where p: "parse_pattern (meth @ '' '' @ (prefix @ path)) = Some p"
      "(p, rt_Handler route) \<in> set (ro_mux r)"
    using d assms(3) pre by fastforce
  have "mux_ServeHTTP (ro_mux r) w req s = rt_Handler route w (req\<lparr>r_PathValues := []\<rparr>) s"
    by (rule mux_literal [OF _ p assms(6) meth assms(7,8)]) (use d in simp)
  moreover have "router_Handler r = Chain (ro_middleware r0) (mux_ServeHTTP (ro_mux r))"
    using d by (simp add: router_Handler_Chain)
  ultimately show ?thesis by blast
qed

definition sample_routes :: "(world Route) list" where
  "sample_routes =
     [\<lparr>rt_Pattern = ''GET /{name}'', rt_Handler = (\<lambda>w r s. Panicked ''show'' s)\<rparr>,
      \<lparr>rt_Pattern = ''GET /login'', rt_Handler = (\<lambda>w r s. Panicked ''login'' s)\<rparr>,
      \<lparr>rt_Pattern = ''GET /'', rt_Handler = (\<lambda>w r s. Panicked ''list'' s)\<rparr>]"

theorem Mount_dispatch_witness:
  "\<exists>r. Mount_routes ''/account'' sample_routes New_router = Some r \<and>
     mux_ServeHTTP (ro_mux r) (base_rw True True True) (plain_request ''GET'' ''/account/login'')
       (fresh_world 0 []) = Panicked ''login'' (fresh_world 0 [])"
proof -
  have "Mount_routes ''/account'' sample_routes New_router \<noteq> None"
    by (simp add: sample_routes_def New_router_def prefixPattern_def isHTTPMethod_def mux_Handle_def
        parse_pattern_def trim_left_def clean_path_def path_Clean_def path_segs_def conflicts_def
        compare_methods_def compare_paths_def is_multi_def Let_def)
  then obtain r where r: "Mount_routes ''/account'' sample_routes New_router = Some r" by blast
  let ?route = "\<lparr>rt_Pattern = ''GET /login'', rt_Handler = (\<lambda>w r s. Panicked ''login'' s)\<rparr> :: world Route"
  have "distinct (map fst (ro_mux (New_router :: world Router)))" by (simp add: New_router_def)
  moreover have "?route \<in> set sample_routes" by (simp add: sample_routes_def)
  moreover have "rt_Pattern ?route = ''GET'' @ '' '' @ ''/login''" by simp
  moreover have "isHTTPMethod ''GET''" by (simp add: isHTTPMethod_def)
  moreover have "literal_path (''/account'' @ ''/login'')"
    by (simp add: literal_path_def clean_path_def path_Clean_def Let_def)
  moreover have "r_Method (plain_request ''GET'' ''/account/login'') = ''GET''"
    "r_Path (plain_request ''GET'' ''/account/login'') = ''/account'' @ ''/login''"
    by (simp_all add: plain_request_def)
  ultimately have "mux_ServeHTTP (ro_mux r) (base_rw True True True) (plain_request ''GET'' ''/account/login'')
       (fresh_world 0 []) = Panicked ''login'' (fresh_world 0 [])"
    using Mount_dispatch [OF r] by fastforce
  with r show ?thesis by blast
qed

end
