(* ===== verification/App.thy ===== *)
theory App
  imports Router
begin

text \<open>
  \<open>app.go\<close> and \<open>module.go\<close>: the application object registers modules, mounts their routes under
  \<open>/name\<close>, and starts and stops them.  A module is the record of its methods; an optional
  interface it does not implement is \<open>None\<close>.
\<close>

record 'w app_module =
  mod_Name :: string
  mod_Routes :: "'w Route list"
  mod_Start :: "('w \<Rightarrow> string option \<times> 'w) option"
  mod_Shutdown :: "('w \<Rightarrow> string option \<times> 'w) option"

record 'w App =
  app_modules :: "'w app_module list"
  app_router :: "'w Router"
  app_logger :: logger

definition New_app :: "logger \<Rightarrow> 'w App" where
  "New_app lg = \<lparr>app_modules = [], app_router = New_router, app_logger = lg\<rparr>"

definition Register :: "'w app_module list \<Rightarrow> 'w App \<Rightarrow> 'w App" where
  "Register ms a = a\<lparr>app_modules := app_modules a @ ms\<rparr>"

definition app_Use :: "'w middleware list \<Rightarrow> 'w App \<Rightarrow> 'w App" where
  "app_Use mw a = a\<lparr>app_router := Use mw (app_router a)\<rparr>"

definition app_Handler :: "('m world_scheme) App \<Rightarrow> ('m world_scheme) handler" where
  "app_Handler a = router_Handler (app_router a)"

text \<open>\<open>Mount\<close>; \<open>None\<close> is the panic of a conflicting pattern.  The log goes to the world.\<close>

fun Mount_loop ::
    "logger \<Rightarrow> ('m world_scheme) app_module list \<Rightarrow> ('m world_scheme) Router \<Rightarrow> 'm world_scheme \<Rightarrow>
     (('m world_scheme) Router \<times> 'm world_scheme) option"
where
  "Mount_loop lg [] r s = Some (r, s)"
| "Mount_loop lg (m # ms) r s =
     (let prefix = ''/'' @ mod_Name m
      in case Mount_routes prefix (mod_Routes m) r of
           None \<Rightarrow> None
         | Some r' \<Rightarrow>
             Mount_loop lg ms r'
               (log_Info lg ''module mounted'' [(''module'', mod_Name m), (''prefix'', prefix)] s))"

definition Mount :: "('m world_scheme) App \<Rightarrow> 'm world_scheme \<Rightarrow> (('m world_scheme) App \<times> 'm world_scheme) option" where
  "Mount a s =
     (case Mount_loop (app_logger a) (app_modules a) (app_router a) s of
        None \<Rightarrow> None | Some (r, t) \<Rightarrow> Some (a\<lparr>app_router := r\<rparr>, t))"

fun Start_loop ::
    "logger \<Rightarrow> ('m world_scheme) app_module list \<Rightarrow> 'm world_scheme \<Rightarrow> string option \<times> 'm world_scheme"
where
  "Start_loop lg [] s = (None, s)"
| "Start_loop lg (m # ms) s =
     (case mod_Start m of
        None \<Rightarrow> Start_loop lg ms s
      | Some start \<Rightarrow>
          (case start s of
             (Some err, t) \<Rightarrow> (Some (''broth: start '' @ mod_Name m @ '': '' @ err), t)
           | (None, t) \<Rightarrow> Start_loop lg ms (log_Info lg ''module started'' [(''module'', mod_Name m)] t)))"

definition Start :: "('m world_scheme) App \<Rightarrow> 'm world_scheme \<Rightarrow> string option \<times> 'm world_scheme" where
  "Start a s = Start_loop (app_logger a) (app_modules a) s"

fun Shutdown_loop ::
    "logger \<Rightarrow> ('m world_scheme) app_module list \<Rightarrow> string option \<Rightarrow> 'm world_scheme \<Rightarrow>
     string option \<times> 'm world_scheme"
where
  "Shutdown_loop lg [] firstErr s = (firstErr, s)"
| "Shutdown_loop lg (m # ms) firstErr s =
     (case mod_Shutdown m of
        None \<Rightarrow> Shutdown_loop lg ms firstErr s
      | Some stop \<Rightarrow>
          (case stop s of
             (Some err, t) \<Rightarrow>
               Shutdown_loop lg ms
                 (if firstErr = None then Some (''broth: shutdown '' @ mod_Name m @ '': '' @ err) else firstErr)
                 (log_Error lg ''module shutdown failed'' [(''module'', mod_Name m), (''error'', err)] t)
           | (None, t) \<Rightarrow> Shutdown_loop lg ms firstErr t))"

definition Shutdown :: "('m world_scheme) App \<Rightarrow> 'm world_scheme \<Rightarrow> string option \<times> 'm world_scheme" where
  "Shutdown a s = Shutdown_loop (app_logger a) (app_modules a) None s"

section \<open>Lemmas\<close>

text \<open>
  Which modules an operation reached is read off an observation of the world that every module's
  method extends with the module's own mark and that logging leaves alone.
\<close>

definition marks ::
    "('m world_scheme \<Rightarrow> 'a list) \<Rightarrow> 'a \<Rightarrow> ('m world_scheme \<Rightarrow> string option \<times> 'm world_scheme) option \<Rightarrow> bool"
where
  "marks obs x op \<longleftrightarrow> (case op of None \<Rightarrow> True | Some f \<Rightarrow> (\<forall>s. obs (snd (f s)) = obs s @ [x]))"

definition log_blind :: "('m world_scheme \<Rightarrow> 'a) \<Rightarrow> bool" where
  "log_blind obs \<longleftrightarrow> (\<forall>v lg msg args s. obs (log_at v lg msg args s) = obs s)"

definition stoppers :: "'w app_module list \<Rightarrow> string list" where
  "stoppers ms = map mod_Name (filter (\<lambda>m. mod_Shutdown m \<noteq> None) ms)"

definition starters :: "'w app_module list \<Rightarrow> string list" where
  "starters ms = map mod_Name (filter (\<lambda>m. mod_Start m \<noteq> None) ms)"

lemma Shutdown_loop_all:
  assumes "log_blind obs" "\<forall>m \<in> set ms. marks obs (mod_Name m) (mod_Shutdown m)"
  shows "obs (snd (Shutdown_loop lg ms e s)) = obs s @ stoppers ms"
  using assms(2)
proof (induction ms arbitrary: e s)
  case (Cons m ms)
  show ?case
  proof (cases "mod_Shutdown m")
    case (Some stop)
    with Cons.prems have o: "obs (snd (stop s)) = obs s @ [mod_Name m]" by (simp add: marks_def)
    obtain r t where st: "stop s = (r, t)" by fastforce
    have l: "obs (log_Error lg msg args t) = obs t" for msg args
      using assms(1) by (simp add: log_blind_def log_Error_def)
    from Cons o st l show ?thesis by (cases r) (simp_all add: Some stoppers_def)
  qed (use Cons in \<open>simp add: stoppers_def\<close>)
qed (simp add: stoppers_def)

lemma Shutdown_loop_firstErr: "fst (Shutdown_loop lg ms (Some e) s) = Some e"
proof (induction ms arbitrary: s)
  case (Cons m ms)
  then show ?case by (auto split: option.splits prod.splits)
qed simp

lemma Start_loop_prefix:
  assumes "log_blind obs" "\<forall>m \<in> set ms. marks obs (mod_Name m) (mod_Start m)"
  shows "\<exists>k. obs (snd (Start_loop lg ms s)) = obs s @ take k (starters ms) \<and>
    (fst (Start_loop lg ms s) = None \<longrightarrow> k = length (starters ms)) \<and>
    (\<forall>err. fst (Start_loop lg ms s) = Some err \<longrightarrow> 0 < k \<and> k \<le> length (starters ms))"
  using assms(2)
proof (induction ms arbitrary: s)
  case (Cons m ms)
  show ?case
  proof (cases "mod_Start m")
    case None
    with Cons show ?thesis by (simp add: starters_def)
  next
    case (Some start)
    with Cons.prems have o: "obs (snd (start s)) = obs s @ [mod_Name m]" by (simp add: marks_def)
    obtain r t where st: "start s = (r, t)" by fastforce
    have c: "starters (m # ms) = mod_Name m # starters ms" using Some by (simp add: starters_def)
    show ?thesis
    proof (cases r)
      case None
      let ?t = "log_Info lg ''module started'' [(''module'', mod_Name m)] t"
      have "obs ?t = obs s @ [mod_Name m]"
        using assms(1) o st by (simp add: log_blind_def log_Info_def)
      with Cons.IH [of ?t] Cons.prems obtain k where
        "obs (snd (Start_loop lg ms ?t)) = obs s @ mod_Name m # take k (starters ms)"
        "fst (Start_loop lg ms ?t) = None \<longrightarrow> k = length (starters ms)"
        "\<forall>err. fst (Start_loop lg ms ?t) = Some err \<longrightarrow> 0 < k \<and> k \<le> length (starters ms)"
        by auto
      with Some st None c show ?thesis by (intro exI [of _ "Suc k"]) simp
    next
      case (Some err)
      with \<open>mod_Start m = Some start\<close> o st c show ?thesis by (intro exI [of _ 1]) simp
    qed
  qed
qed (simp add: starters_def)

lemma Mount_loop_routes:
  "Mount_loop lg ms r s = Some (r', t) \<Longrightarrow> distinct (map fst (ro_mux r)) \<Longrightarrow>
     distinct (map fst (ro_mux r')) \<and> ro_middleware r' = ro_middleware r \<and> set (ro_mux r) \<subseteq> set (ro_mux r') \<and>
     (\<forall>m \<in> set ms. \<forall>route \<in> set (mod_Routes m). \<exists>p.
        parse_pattern (prefixPattern (''/'' @ mod_Name m) (rt_Pattern route)) = Some p \<and>
        (p, rt_Handler route) \<in> set (ro_mux r'))"
proof (induction lg ms r s rule: Mount_loop.induct)
  case (2 lg m ms r s)
  then obtain r1 where r1: "Mount_routes (''/'' @ mod_Name m) (mod_Routes m) r = Some r1"
    by (auto simp: Let_def split: option.splits)
  note d = Mount_routes_distinct [OF r1 "2.prems"(2)]
  let ?s = "log_Info lg ''module mounted'' [(''module'', mod_Name m), (''prefix'', ''/'' @ mod_Name m)] s"
  have "Mount_loop lg ms r1 ?s = Some (r', t)" using "2.prems"(1) r1 by (simp add: Let_def)
  from "2.IH" [OF refl r1 this] d
  have ih: "distinct (map fst (ro_mux r'))" "ro_middleware r' = ro_middleware r1" "set (ro_mux r1) \<subseteq> set (ro_mux r')"
    "\<forall>m \<in> set ms. \<forall>route \<in> set (mod_Routes m). \<exists>p.
        parse_pattern (prefixPattern (''/'' @ mod_Name m) (rt_Pattern route)) = Some p \<and>
        (p, rt_Handler route) \<in> set (ro_mux r')" by blast+
  from d ih(3) have "\<forall>route \<in> set (mod_Routes m). \<exists>p.
        parse_pattern (prefixPattern (''/'' @ mod_Name m) (rt_Pattern route)) = Some p \<and>
        (p, rt_Handler route) \<in> set (ro_mux r')" by blast
  with ih d show ?case by auto
qed simp

section \<open>Properties\<close>


record trace_world = world +
  w_trace :: "string list"

definition trace_op :: "string \<Rightarrow> string option \<Rightarrow> trace_world \<Rightarrow> string option \<times> trace_world" where
  "trace_op name err s = (err, s\<lparr>w_trace := w_trace s @ [name]\<rparr>)"

definition trace_module :: "string \<Rightarrow> string option \<Rightarrow> trace_world app_module" where
  "trace_module name err =
     \<lparr>mod_Name = name, mod_Routes = [], mod_Start = Some (trace_op name err), mod_Shutdown = Some (trace_op name err)\<rparr>"

lemma trace_marks [simp]:
  "marks w_trace name (mod_Shutdown (trace_module name err))"
  "marks w_trace name (mod_Start (trace_module name err))"
  "mod_Name (trace_module name err) = name"
  by (simp_all add: marks_def trace_module_def trace_op_def)

lemma trace_log_blind [simp]: "log_blind w_trace"
  by (simp add: log_blind_def log_at_def)

lemma trace_stoppers [simp]:
  "stoppers (trace_module name err # ms) = name # stoppers ms" "stoppers [] = []"
  "starters (trace_module name err # ms) = name # starters ms" "starters [] = []"
  by (simp_all add: stoppers_def starters_def trace_module_def)

definition trace_app :: "string option \<Rightarrow> trace_world App" where
  "trace_app err = Register [trace_module ''a'' err, trace_module ''b'' None] (New_app (log_New LevelInfo))"

definition trace_start :: trace_world where
  "trace_start = \<lparr>w_resp = w_resp (fresh_world 0 []), w_status_ws = [], w_session_ws = [], w_sessions = [],
     w_now = 0, w_entropy = [], w_log = [], w_trace = []\<rparr>"




end
