(* ===== verification/Account_Handlers.thy ===== *)
theory Account_Handlers
  imports Account Render Middleware_Auth Middleware_Csrf App
begin

text \<open>
  \<open>modules/account/handler.go\<close>, \<open>routes.go\<close> and \<open>module.go\<close>: the pages and the JSON endpoints of the
  account module, with the session operations of login, registration and logout.
\<close>

section \<open>Handler\<close>

datatype page_val =
    PVString string
  | PVErrors form_errors
  | PVLogin LoginForm
  | PVRegister RegisterForm
  | PVUser "user option"

type_synonym page_data = "(string \<times> page_val) list"

text \<open>
  The handler's fields, with the libraries it reaches as parameters; \<open>ah_decode\<close> is the parsing of
  the first JSON value of a body.
\<close>

record ('l, 't, 'm) account_handler =
  ah_svc :: "(('l, 't, 'm) render_world_scheme) account_service"
  ah_renderer :: renderer
  ah_tmpl :: "('t, page_data) tmpl_lib"
  ah_fs :: render_fs
  ah_jwt :: jwt_lib
  ah_decode :: "string \<Rightarrow> json option"

definition page ::
    "('l, 't, 'm) account_handler \<Rightarrow> (('l, 't, 'm) render_world_scheme) response_writer \<Rightarrow> string \<Rightarrow> page_data \<Rightarrow>
     ('l, 't, 'm) render_world_scheme \<Rightarrow> ('l, 't, 'm) render_world_scheme hres"
where
  "page h w name data s = Done (render_HTML (ah_tmpl h) (ah_fs h) (ah_renderer h) w name data s)"

definition csrf_entry :: "request \<Rightarrow> string \<times> page_val" where
  "csrf_entry r = (''CSRFToken'', PVString (GetCSRFToken (r_Context r)))"

text \<open>
  \<open>sess.Regenerate (); sess.Set ("user_id", user.ID)\<close> on the session of the request, if any; the
  random source may fail with a panic.
\<close>

definition login_session_of :: "go_context \<Rightarrow> int \<Rightarrow> 'm world_scheme \<Rightarrow> 'm world_scheme hres" where
  "login_session_of c uid s =
     (case FromContext c of
        None \<Rightarrow> Done s
      | Some p \<Rightarrow>
          (case Regenerate (w_sessions s ! p, w_entropy s) of
             Panicked msg (sess, rest) \<Rightarrow> Panicked msg (s\<lparr>w_sessions := (w_sessions s)[p := sess], w_entropy := rest\<rparr>)
           | Done (sess, rest) \<Rightarrow>
               Done (s\<lparr>w_sessions := (w_sessions s)[p := sess_Set ''user_id'' (VInt64 uid) sess],
                       w_entropy := rest\<rparr>)))"

definition destroy_session_of :: "go_context \<Rightarrow> 'm world_scheme \<Rightarrow> 'm world_scheme" where
  "destroy_session_of c s =
     (case FromContext c of
        None \<Rightarrow> s
      | Some p \<Rightarrow> s\<lparr>w_sessions := (w_sessions s)[p := Destroy (w_sessions s ! p)]\<rparr>)"

definition sanitizeRedirectTarget :: "string \<Rightarrow> string \<Rightarrow> string" where
  "sanitizeRedirectTarget nxt fallback =
     (if nxt = [] then fallback
      else if \<not> has_prefix nxt ''/'' \<or> has_prefix nxt ''//'' then fallback
      else if \<not> url_Parse_ok nxt then fallback
      else nxt)"

section \<open>Pages\<close>

definition ShowLogin :: "('l, 't, 'm) account_handler \<Rightarrow> (('l, 't, 'm) render_world_scheme) handler" where
  "ShowLogin h w r s = page h w ''account/login.html'' [csrf_entry r] s"

definition Login :: "('l, 't, 'm) account_handler \<Rightarrow> (('l, 't, 'm) render_world_scheme) handler" where
  "Login h w r s =
     (case Bind_LoginForm r of
        Inl _ \<Rightarrow> Done (render_Error (ah_renderer h) w r 400 ''Invalid form data'' s)
      | Inr f \<Rightarrow>
          (case Validate (Some (LoginForm_Validate f)) of
             Some errs \<Rightarrow>
               page h w ''account/login.html'' [(''Errors'', PVErrors errs), (''Form'', PVLogin f), csrf_entry r] s
           | None \<Rightarrow>
               (case svc_Authenticate (ah_svc h) (r_Context r) \<lparr>li_Email = lf_Email f, li_Password = lf_Password f\<rparr> s of
                  (Inl err, s1) \<Rightarrow>
                    page h w ''account/login.html''
                      [(''Error'', PVString ''Invalid email or password''), (''Form'', PVLogin f), csrf_entry r] s1
                | (Inr u, s1) \<Rightarrow>
                    and_then (login_session_of (r_Context r) (au_ID u) s1)
                      (\<lambda>s2. Done (http_Redirect w r
                         (sanitizeRedirectTarget (QueryGet r ''next'') ''/account/profile'') 303 s2)))))"

definition ShowRegister :: "('l, 't, 'm) account_handler \<Rightarrow> (('l, 't, 'm) render_world_scheme) handler" where
  "ShowRegister h w r s = page h w ''account/register.html'' [csrf_entry r] s"

definition Register_page :: "('l, 't, 'm) account_handler \<Rightarrow> (('l, 't, 'm) render_world_scheme) handler" where
  "Register_page h w r s =
     (case Bind_RegisterForm r of
        Inl _ \<Rightarrow> Done (render_Error (ah_renderer h) w r 400 ''Invalid form data'' s)
      | Inr f \<Rightarrow>
          (case Validate (Some (RegisterForm_Validate f)) of
             Some errs \<Rightarrow>
               page h w ''account/register.html'' [(''Errors'', PVErrors errs), (''Form'', PVRegister f), csrf_entry r] s
           | None \<Rightarrow>
               (case svc_Register (ah_svc h) (r_Context r)
                       \<lparr>ri_Email = rf_Email f, ri_Name = rf_Name f, ri_Password = rf_Password f\<rparr> s of
                  (Inl err, s1) \<Rightarrow>
                    page h w ''account/register.html''
                      [(''Error'', PVString (''Registration failed: '' @ err)), (''Form'', PVRegister f), csrf_entry r] s1
                | (Inr u, s1) \<Rightarrow>
                    and_then (login_session_of (r_Context r) (au_ID u) s1)
                      (\<lambda>s2. Done (http_Redirect w r ''/account/profile'' 303 s2)))))"

definition Logout :: "('l, 't, 'm) account_handler \<Rightarrow> (('l, 't, 'm) render_world_scheme) handler" where
  "Logout h w r s = Done (http_Redirect w r ''/account/login'' 303 (destroy_session_of (r_Context r) s))"

definition Profile :: "('l, 't, 'm) account_handler \<Rightarrow> (('l, 't, 'm) render_world_scheme) handler" where
  "Profile h w r s =
     page h w ''account/profile.html'' [(''User'', PVUser (GetUser (r_Context r))), csrf_entry r] s"

section \<open>JSON endpoints\<close>

text \<open>A nil slice is encoded as null; the program's empty role lists are nil.\<close>

definition json_strings :: "string list \<Rightarrow> json" where
  "json_strings ss = (if ss = [] then JNull else JArr (map JStr ss))"

definition apiUserResponse :: "user \<Rightarrow> json" where
  "apiUserResponse u =
     JObj [(''id'', JInt (user_ID u)), (''email'', JStr (user_Email u)), (''name'', JStr (user_Name u)),
           (''roles'', json_strings (user_Roles u))]"

definition APICurrentUser :: "('l, 't, 'm) account_handler \<Rightarrow> (('l, 't, 'm) render_world_scheme) handler" where
  "APICurrentUser h w r s =
     (case MustGetUser (r_Context r) of
        Inl msg \<Rightarrow> Panicked msg s
      | Inr u \<Rightarrow> Done (render_JSON (ah_renderer h) w 200 (Some (apiUserResponse u)) s))"

text \<open>
  Decoding into \<open>LoginInput\<close>, member by member: names match without regard to ASCII case, null
  leaves the field, any other value that is not a string is an error.
\<close>

fun decode_string :: "string \<Rightarrow> (string \<times> json) list \<Rightarrow> string \<Rightarrow> string option" where
  "decode_string n [] acc = Some acc"
| "decode_string n ((k, v) # ms) acc =
     (if map lower_char k = n
      then (case v of JNull \<Rightarrow> decode_string n ms acc | JStr s \<Rightarrow> decode_string n ms s | _ \<Rightarrow> None)
      else decode_string n ms acc)"

fun decode_LoginInput :: "json \<Rightarrow> LoginInput option" where
  "decode_LoginInput JNull = Some \<lparr>li_Email = [], li_Password = []\<rparr>"
| "decode_LoginInput (JObj ms) =
     (case (decode_string ''email'' ms [], decode_string ''password'' ms []) of
        (Some e, Some p) \<Rightarrow> Some \<lparr>li_Email = e, li_Password = p\<rparr>
      | _ \<Rightarrow> None)"
| "decode_LoginInput _ = None"

definition api_error :: "string \<Rightarrow> json option" where
  "api_error msg = Some (JObj [(''error'', JStr msg)])"

definition APILogin :: "('l, 't, 'm) account_handler \<Rightarrow> (('l, 't, 'm) render_world_scheme) handler" where
  "APILogin h w r s =
     (case Option.bind (ah_decode h (r_Body r)) decode_LoginInput of
        None \<Rightarrow> Done (render_JSON (ah_renderer h) w 400 (api_error ''invalid JSON'') s)
      | Some input \<Rightarrow>
          (case LoginInput_Validate input of
             Some err \<Rightarrow> Done (render_JSON (ah_renderer h) w 422 (api_error err) s)
           | None \<Rightarrow>
               (case svc_Authenticate (ah_svc h) (r_Context r) input s of
                  (Inl err, s1) \<Rightarrow> Done (render_JSON (ah_renderer h) w 401 (api_error ''invalid credentials'') s1)
                | (Inr u, s1) \<Rightarrow>
                    (case sv_tokenService (ah_svc h) of
                       None \<Rightarrow> Done (render_JSON (ah_renderer h) w 500 (api_error ''token service not configured'') s1)
                     | Some ts \<Rightarrow>
                         (case GenerateAccessToken (ah_jwt h) ts (w_now s1)
                                 \<lparr>user_ID = au_ID u, user_Email = au_Email u, user_Name = au_Name u,
                                  user_Roles = au_Roles u\<rparr> of
                            Inl err \<Rightarrow> Done (render_JSON (ah_renderer h) w 500 (api_error ''failed to generate token'') s1)
                          | Inr token \<Rightarrow>
                              Done (render_JSON (ah_renderer h) w 200
                                (Some (JObj [(''access_token'', JStr token), (''token_type'', JStr ''Bearer'')])) s1))))))"

section \<open>Routes and module\<close>

definition account_Routes :: "('l, 't, 'm) account_handler \<Rightarrow> (('l, 't, 'm) render_world_scheme) Route list" where
  "account_Routes h =
     [\<lparr>rt_Pattern = ''GET /login'', rt_Handler = ShowLogin h\<rparr>,
      \<lparr>rt_Pattern = ''POST /login'', rt_Handler = Login h\<rparr>,
      \<lparr>rt_Pattern = ''GET /register'', rt_Handler = ShowRegister h\<rparr>,
      \<lparr>rt_Pattern = ''POST /register'', rt_Handler = Register_page h\<rparr>,
      \<lparr>rt_Pattern = ''POST /logout'', rt_Handler = Logout h\<rparr>,
      \<lparr>rt_Pattern = ''GET /profile'', rt_Handler = RequireAuth (Profile h)\<rparr>,
      \<lparr>rt_Pattern = ''POST /api/login'', rt_Handler = ForceContext ContextAPI (APILogin h)\<rparr>,
      \<lparr>rt_Pattern = ''GET /api/me'', rt_Handler = ForceContext ContextAPI (RequireAuth (APICurrentUser h))\<rparr>]"

definition NewModule ::
    "(('l, 't, 'm) render_world_scheme) repository \<Rightarrow> hasher \<Rightarrow> TokenService option \<Rightarrow> renderer \<Rightarrow> logger \<Rightarrow>
     ('t, page_data) tmpl_lib \<Rightarrow> render_fs \<Rightarrow> jwt_lib \<Rightarrow> (string \<Rightarrow> json option) \<Rightarrow> ('l, 't, 'm) account_handler"
where
  "NewModule repo hs ts re lg T F J dec =
     \<lparr>ah_svc = (NewService repo hs lg)\<lparr>sv_tokenService := ts\<rparr>, ah_renderer = re, ah_tmpl = T, ah_fs = F,
      ah_jwt = J, ah_decode = dec\<rparr>"

definition account_module :: "('l, 't, 'm) account_handler \<Rightarrow> (('l, 't, 'm) render_world_scheme) app_module" where
  "account_module h =
     \<lparr>mod_Name = ''account'', mod_Routes = account_Routes h, mod_Start = None, mod_Shutdown = None\<rparr>"

section \<open>Lemmas\<close>

lemma login_session_of_some:
  assumes "FromContext c = Some p" "p < length (w_sessions s)" "32 \<le> length (w_entropy s)"
  shows "\<exists>t. login_session_of c uid s = Done t \<and> w_resp t = w_resp s \<and>
    data_get (w_sessions t ! p) ''user_id'' = Some (VInt64 uid) \<and>
    s_ID (w_sessions t ! p) = hex_encode (take 32 (w_entropy s)) \<and> s_modified (w_sessions t ! p) \<and>
    (\<forall>k. k \<noteq> ''user_id'' \<longrightarrow> data_get (w_sessions t ! p) k = data_get (w_sessions s ! p) k)"
proof -
  have "data_get (x\<lparr>s_oldID := a, s_ID := b, s_regenerated := True, s_modified := True\<rparr>) k = data_get x k"
    for x :: session and a b k by (simp add: data_get_def)
  with assms show ?thesis
    by (simp add: login_session_of_def Regenerate_def GenerateID_total Let_def)
qed

lemma sanitize_rooted:
  "rooted fallback \<Longrightarrow> rooted (sanitizeRedirectTarget nxt fallback)"
  by (auto simp: sanitizeRedirectTarget_def rooted_def)

text \<open>
  A backslash after the slash passes the filter; browsers read \<open>/\\<close> as \<open>//\<close>.
\<close>

lemma backslash_accepted:
  "sanitizeRedirectTarget (''/'' @ [CHR 0x5C] @ ''evil.com'') ''/account/profile'' = ''/'' @ [CHR 0x5C] @ ''evil.com''"
  by code_simp

text \<open>The login page is not where the middleware sends unauthenticated users.\<close>

lemma login_route_elsewhere:
  "rt_Pattern route = ''GET /login'' \<Longrightarrow>
     prefixPattern (''/'' @ mod_Name (account_module h)) (rt_Pattern route) = ''GET /account/login''"
  by (simp add: account_module_def prefixPattern_def isHTTPMethod_def)

lemma hexEscape_rooted: "rooted u \<Longrightarrow> rooted (hexEscapeNonASCII u)"
proof -
  assume r: "rooted u"
  then obtain v where v: "u = CHR ''/'' # v" "\<not> has_prefix v ''/''"
    by (cases u) (auto simp: rooted_def)
  then show ?thesis by (cases v) (auto simp: rooted_def)
qed

text \<open>The server's writer leaves the sessions alone.\<close>

lemma base_sessions [simp]:
  "w_sessions (rw_Write (base_rw fl hj pu) c s) = w_sessions s"
  "w_sessions (rw_WriteHeader (base_rw fl hj pu) code s) = w_sessions s"
  "w_sessions (set_header (base_rw fl hj pu) k v s) = w_sessions s"
  "w_sessions (del_header (base_rw fl hj pu) k s) = w_sessions s"
  by (simp_all add: base_rw_def set_header_def del_header_def)

lemma base_sessions2 [simp]:
  "w_sessions (http_Error (base_rw fl hj pu) m c s) = w_sessions s"
  "w_sessions (write_all (base_rw fl hj pu) xs s) = w_sessions s"
  "w_sessions (http_Redirect (base_rw fl hj pu) r u c s) = w_sessions s"
  by (simp add: http_Error_def Let_def, induction xs arbitrary: s, simp_all add: http_Redirect_def Let_def)

lemma loadTemplate_sessions: "w_sessions (snd (loadTemplate T F re name s)) = w_sessions s"
  by (auto simp: loadTemplate_def split: option.splits sum.splits)

lemma render_HTML_sessions [simp]:
  "w_sessions (render_HTML T F re (base_rw fl hj pu) name data s) = w_sessions s"
  using loadTemplate_sessions [of T F re name s]
  by (auto simp: render_HTML_def log_Error_def http_simps Let_def split: prod.splits sum.splits option.splits)

section \<open>Properties\<close>



text \<open>The protected endpoints do not panic: behind \<open>RequireAuth\<close>, the handler that insists on a
  user always has one, so the request ends with the user's record or with 401.\<close>

lemma APICurrentUser_protected:
  "ForceContext ContextAPI (RequireAuth (APICurrentUser h)) (base_rw fl hj pu) r s =
     Done (case GetUser (r_Context r) of
       None \<Rightarrow> json_error (base_rw fl hj pu) 401 ''authentication required'' s
     | Some u \<Rightarrow> render_JSON (ah_renderer h) (base_rw fl hj pu) 200 (Some (apiUserResponse u)) s)"
  by (auto simp: ForceContext_def RequireAuth_def APICurrentUser_def IsAuthenticated_def MustGetUser_def
      unauthenticated_def http_simps split: option.split)

text \<open>C30. API login: right credentials are answered with 200 and a bearer token that the token
  service accepts for this user, until its lifetime ends; wrong ones with 401.\<close>

theorem APILogin_token:
  assumes "jwt_ok (ah_jwt h)" "sv_tokenService (ah_svc h) = Some ts"
    and "Option.bind (ah_decode h (r_Body r)) decode_LoginInput = Some input" "LoginInput_Validate input = None"
    and "svc_Authenticate (ah_svc h) (r_Context r) input s = (res, s1)" "resp_status s1 = None"
  shows "case res of
      Inl err \<Rightarrow> \<exists>t. APILogin h (base_rw fl hj pu) r s = Done t \<and> resp_status t = Some 401
    | Inr u \<Rightarrow>
        (case GenerateAccessToken (ah_jwt h) ts (w_now s1)
            \<lparr>user_ID = au_ID u, user_Email = au_Email u, user_Name = au_Name u, user_Roles = au_Roles u\<rparr> of
           Inl _ \<Rightarrow> \<exists>t. APILogin h (base_rw fl hj pu) r s = Done t \<and> resp_status t = Some 500
         | Inr token \<Rightarrow>
             (\<exists>t. APILogin h (base_rw fl hj pu) r s = Done t \<and> resp_status t = Some 200 \<and>
                last (b_body (w_resp t)) =
                  JsonLine (JObj [(''access_token'', JStr token), (''token_type'', JStr ''Bearer'')])) \<and>
             (text_ok (au_Email u) \<and> list_all text_ok (au_Roles u) \<and>
              later \<le> w_now s1 + ts_accessLifetime ts - second \<longrightarrow>
                (\<exists>c. ValidateAccessToken (ah_jwt h) ts later token = Inr c \<and> tc_UserID c = au_ID u \<and>
                   tc_Email c = au_Email u \<and> tc_Roles c = au_Roles u)))"
proof -
  have body: "last (b_body (w_resp (render_JSON re (base_rw fl hj pu) 200 (Some j) s1))) = JsonLine j" for re j
    using assms(6) by (simp add: render_JSON_def Let_def base_rw_def set_header_def base_Write_def
        base_WriteHeader_def base_commit_def body_allowed_def)
  show ?thesis
  proof (cases res)
    case (Inl err)
    with assms show ?thesis by (simp add: APILogin_def base.render_JSON_status)
  next
    case (Inr u)
    let ?u = "\<lparr>user_ID = au_ID u, user_Email = au_Email u, user_Name = au_Name u, user_Roles = au_Roles u\<rparr>"
    show ?thesis
    proof (cases "GenerateAccessToken (ah_jwt h) ts (w_now s1) ?u")
      case (Inl err)
      with assms Inr show ?thesis by (simp add: APILogin_def base.render_JSON_status)
    next
      case tok: (Inr token)
      from Generate_Validate [OF assms(1) tok, of later] have
        "text_ok (au_Email u) \<and> list_all text_ok (au_Roles u) \<and> later \<le> w_now s1 + ts_accessLifetime ts - second \<longrightarrow>
          (\<exists>c. ValidateAccessToken (ah_jwt h) ts later token = Inr c \<and> tc_UserID c = au_ID u \<and>
             tc_Email c = au_Email u \<and> tc_Roles c = au_Roles u)" by simp
      with assms Inr tok body show ?thesis by (simp add: APILogin_def base.render_JSON_status)
    qed
  qed
qed

end
