(* ===== verification/Example_Repo.thy ===== *)
theory Example_Repo
  imports Account Render
begin

text \<open>
  The in-memory repository of \<open>cmd/example/main.go\<close>, the provider of the repository interface
  in the example program, and the service's guarantees on it with bcrypt.  The repository keeps
  pointers to the users it was given; no code changes a user after its creation, so they are
  values here.  The lock makes each operation one step.
\<close>

record inMemoryRepo =
  im_users :: "account_user list"
  im_nextID :: int

definition newInMemoryRepo :: inMemoryRepo where
  "newInMemoryRepo = \<lparr>im_users = [], im_nextID = 1\<rparr>"

record greeting =
  g_Name :: string
  g_Message :: string

record ('l, 't) example_world = "('l, 't) render_world" +
  w_repo :: inMemoryRepo
  w_greetings :: "greeting list"

definition im_Create ::
    "go_context \<Rightarrow> account_user \<Rightarrow> ('l, 't, 'm) example_world_scheme \<Rightarrow>
     (string + account_user) \<times> ('l, 't, 'm) example_world_scheme"
where
  "im_Create c u s =
     (let r = w_repo s;
          u' = u\<lparr>au_ID := im_nextID r\<rparr>
      in (Inr u', s\<lparr>w_repo := \<lparr>im_users = im_users r @ [u'], im_nextID = wrap64 (im_nextID r + 1)\<rparr>\<rparr>))"

definition im_FindByID ::
    "go_context \<Rightarrow> int \<Rightarrow> ('l, 't, 'm) example_world_scheme \<Rightarrow>
     (string + account_user option) \<times> ('l, 't, 'm) example_world_scheme"
where
  "im_FindByID c i s = (Inr (find (\<lambda>u. au_ID u = i) (im_users (w_repo s))), s)"

definition im_FindByEmail ::
    "go_context \<Rightarrow> string \<Rightarrow> ('l, 't, 'm) example_world_scheme \<Rightarrow>
     (string + account_user option) \<times> ('l, 't, 'm) example_world_scheme"
where
  "im_FindByEmail c e s = (Inr (find (\<lambda>u. au_Email u = e) (im_users (w_repo s))), s)"

text \<open>The invariant: identifiers are distinct, positive and below the next one, which still fits.\<close>

definition repo_ok :: "inMemoryRepo \<Rightarrow> bool" where
  "repo_ok r \<longleftrightarrow>
     distinct (map au_ID (im_users r)) \<and> (\<forall>u \<in> set (im_users r). 0 < au_ID u \<and> au_ID u < im_nextID r) \<and>
     0 < im_nextID r \<and> im_nextID r < 2 ^ 63 - 1"

lemma find_fresh: "(\<And>x. x \<in> set xs \<Longrightarrow> f x \<noteq> i) \<Longrightarrow> find (\<lambda>x. f x = i) xs = None"
  by (auto simp: find_None_iff)

interpretation in_memory: user_repository im_Create im_FindByID im_FindByEmail w_repo repo_ok
proof unfold_locales
  fix c u i e s u' t
  assume ok: "repo_ok (w_repo s)" and c: "im_Create c u s = (Inr u', t)"
  then have u': "u' = u\<lparr>au_ID := im_nextID (w_repo s)\<rparr>" and
    t: "im_users (w_repo t) = im_users (w_repo s) @ [u']"
    by (auto simp: im_Create_def Let_def)
  then show "u' = u\<lparr>au_ID := au_ID u'\<rparr>" by simp
  have "find (\<lambda>x. au_ID x = im_nextID (w_repo s)) (im_users (w_repo s)) = None"
    using ok by (intro find_fresh) (auto simp: repo_ok_def)
  then show "fst (im_FindByID c i t) = (if i = au_ID u' then Inr (Some u') else fst (im_FindByID c i s))"
    using u' t by (auto simp: im_FindByID_def find_append split: option.splits)
  show "fst (im_FindByEmail c e t) =
      (if e = au_Email u \<and> fst (im_FindByEmail c e s) = Inr None then Inr (Some u') else fst (im_FindByEmail c e s))"
    using u' t by (auto simp: im_FindByEmail_def find_append split: option.splits)
qed (simp_all add: im_FindByID_def im_FindByEmail_def log_at_def)

interpretation account: account_contract im_Create im_FindByID im_FindByEmail w_repo repo_ok
    "bcrypt_ok L" "Hash L h" "Verify L h" 8 for L h
  by unfold_locales

definition in_memory_repository :: "(('l, 't, 'm) example_world_scheme) repository" where
  "in_memory_repository =
     \<lparr>repo_Create = im_Create, repo_FindByID = im_FindByID, repo_FindByEmail = im_FindByEmail\<rparr>"

definition bcrypt_hasher :: "bcrypt_lib \<Rightarrow> BcryptHasher \<Rightarrow> hasher" where
  "bcrypt_hasher L h = \<lparr>hs_Hash = Hash L h, hs_Verify = Verify L h\<rparr>"

definition example_service ::
    "bcrypt_lib \<Rightarrow> BcryptHasher \<Rightarrow> logger \<Rightarrow> TokenService option \<Rightarrow> (('l, 't, 'm) example_world_scheme) account_service"
where
  "example_service L h lg ts =
     (NewService in_memory_repository (bcrypt_hasher L h) lg)\<lparr>sv_tokenService := ts\<rparr>"

lemma example_service_eq:
  "example_service L h lg ts =
     \<lparr>sv_repo = \<lparr>repo_Create = im_Create, repo_FindByID = im_FindByID, repo_FindByEmail = im_FindByEmail\<rparr>,
      sv_hasher = \<lparr>hs_Hash = Hash L h, hs_Verify = Verify L h\<rparr>, sv_logger = lg, sv_tokenService = ts\<rparr>"
  by (simp add: example_service_def NewService_def in_memory_repository_def bcrypt_hasher_def)

section \<open>Properties\<close>

lemma repo_ok_Create:
  fixes s t :: "('l, 't, 'm) example_world_scheme"
  assumes "repo_ok (w_repo s)" "im_nextID (w_repo s) < 2 ^ 63 - 2" "im_Create c u s = (Inr u', t)"
  shows "repo_ok (w_repo t)"
proof -
  let ?r = "w_repo s"
  have n: "wrap64 (im_nextID ?r + 1) = im_nextID ?r + 1"
    using assms(1,2) by (intro wrap64_id) (simp add: in_int64_def min_int64_def max_int64_def repo_ok_def)
  have t: "w_repo t = \<lparr>im_users = im_users ?r @ [u\<lparr>au_ID := im_nextID ?r\<rparr>], im_nextID = im_nextID ?r + 1\<rparr>"
    using assms(3) n by (auto simp: im_Create_def Let_def)
  show ?thesis using assms(1,2) unfolding t repo_ok_def by auto
qed

text \<open>C7. Registration keeps the repository well formed: identifiers stay unique, whatever the
  outcome, and a registration that fails stores nothing.\<close>

theorem Register_keeps_repo:
  fixes s t :: "('l, 't, 'm) example_world_scheme"
  assumes "repo_ok (w_repo s)" "im_nextID (w_repo s) < 2 ^ 63 - 2"
    and "svc_Register (example_service L h lg ts) ctx input s = (res, t)"
  shows "repo_ok (w_repo t) \<and>
    (case res of
       Inl err \<Rightarrow> w_repo t = w_repo s
     | Inr u \<Rightarrow> im_users (w_repo t) = im_users (w_repo s) @ [u] \<and> au_ID u = im_nextID (w_repo s))"
proof (cases res)
  case (Inl err)
  with assms show ?thesis
    by (auto simp: svc_Register_def example_service_eq Let_def im_FindByEmail_def im_Create_def
        split: option.splits prod.splits sum.splits if_splits)
next
  case (Inr u)
  from account.Register_Inr [OF assms(3) [unfolded example_service_eq Inr]] obtain
    s2 s3 :: "('l, 't, 'm) example_world_scheme" and nu rest where
    c: "im_Create ctx nu (s2\<lparr>w_entropy := rest\<rparr>) = (Inr u, s3)" "w_repo t = w_repo s3" "w_repo s2 = w_repo s"
    by blast
  have "repo_ok (w_repo s3)"
    using repo_ok_Create [OF _ _ c(1)] assms(1,2) c(3) by simp
  moreover have "im_users (w_repo s3) = im_users (w_repo s) @ [u] \<and> au_ID u = im_nextID (w_repo s)"
    using c(1,3) by (auto simp: im_Create_def Let_def)
  ultimately show ?thesis using c(2) Inr by simp
qed

text \<open>C6. A registered user can log in: after a successful registration under a new email, the same
  email and password authenticate as this user for as long as the repository is not changed,
  the user is found by its identifier, and it has the viewer role.\<close>

theorem Register_then_login:
  fixes s t t' :: "('l, 't, 'm) example_world_scheme"
  assumes "bcrypt_ok L" "repo_ok (w_repo s)" "fst (im_FindByEmail ctx (ri_Email input) s) = Inr None"
    and "svc_Register (example_service L h lg ts) ctx input s = (Inr u, t)" "w_repo t' = w_repo t"
  shows "fst (svc_Authenticate (example_service L h lg ts) ctx
      \<lparr>li_Email = ri_Email input, li_Password = ri_Password input\<rparr> t') = Inr u \<and>
    au_Email u = ri_Email input \<and> au_Name u = ri_Name input \<and> au_Roles u = [RoleViewer] \<and>
    fst (svc_FindByID (example_service L h lg ts) ctx (au_ID u) t') = Inr (Some u)"
  unfolding example_service_eq
  by (rule account.Register_Authenticate [OF assms(1-3) _ assms(5)])
    (rule assms(4) [unfolded example_service_eq])

definition plain_bcrypt :: bcrypt_lib where
  "plain_bcrypt =
     \<lparr>bc_Generate = (\<lambda>p cost e. if length p \<le> 72 then (Inr p, e) else (Inl ''too long'', e)),
      bc_Compare = (\<lambda>h p. if h = p then None else Some ''mismatch'')\<rparr>"

lemma plain_bcrypt_ok: "bcrypt_ok plain_bcrypt"
  by (auto simp: bcrypt_ok_def plain_bcrypt_def split: if_splits)

definition example_start :: "(nat, string) example_world" where
  "example_start = \<lparr>w_resp = w_resp (fresh_world 0 []), w_status_ws = [], w_session_ws = [], w_sessions = [],
     w_now = 5, w_entropy = [], w_log = [], w_rate_limiter = NewRateLimiter 1 1, w_tmpls = (\<lambda>_. None),
     w_repo = newInMemoryRepo, w_greetings = []\<rparr>"

definition sample_input :: RegisterInput where
  "sample_input = \<lparr>ri_Email = ''a@b'', ri_Name = ''A'', ri_Password = ''password''\<rparr>"

lemma example_start_ok: "repo_ok (w_repo example_start)" "im_nextID (w_repo example_start) < 2 ^ 63 - 2"
  by (simp_all add: example_start_def newInMemoryRepo_def repo_ok_def)

lemma sample_register:
  "\<exists>u t. svc_Register (example_service plain_bcrypt DefaultPasswordHasher (log_New LevelInfo) None) Background
     sample_input example_start = (Inr u, t) \<and> au_ID u = 1"
proof -
  have "RegisterInput_Validate sample_input = None" by code_simp
  then show ?thesis
    by (simp add: svc_Register_def example_service_eq im_FindByEmail_def im_Create_def example_start_def
        newInMemoryRepo_def Hash_def plain_bcrypt_def sample_input_def bytes_of_def Let_def)
qed

theorem Register_keeps_repo_witness:
  "\<exists>u t. svc_Register (example_service plain_bcrypt DefaultPasswordHasher (log_New LevelInfo) None) Background
     sample_input example_start = (Inr u, t) \<and> repo_ok (w_repo t) \<and> im_users (w_repo t) = [u]"
proof -
  obtain u t where r: "svc_Register (example_service plain_bcrypt DefaultPasswordHasher (log_New LevelInfo) None)
     Background sample_input example_start = (Inr u, t)" using sample_register by blast
  from Register_keeps_repo [OF example_start_ok r] r show ?thesis
    by (auto simp: example_start_def newInMemoryRepo_def)
qed

theorem Register_then_login_witness:
  "\<exists>u t. svc_Register (example_service plain_bcrypt DefaultPasswordHasher (log_New LevelInfo) None) Background
     sample_input example_start = (Inr u, t) \<and>
     fst (svc_Authenticate (example_service plain_bcrypt DefaultPasswordHasher (log_New LevelInfo) None) Background
       \<lparr>li_Email = ''a@b'', li_Password = ''password''\<rparr> t) = Inr u"
proof -
  obtain u t where r: "svc_Register (example_service plain_bcrypt DefaultPasswordHasher (log_New LevelInfo) None)
     Background sample_input example_start = (Inr u, t)" using sample_register by blast
  have "fst (im_FindByEmail Background (ri_Email sample_input) example_start) = Inr None"
    by (simp add: im_FindByEmail_def example_start_def newInMemoryRepo_def)
  from Register_then_login [OF plain_bcrypt_ok example_start_ok(1) this r refl] r
  show ?thesis by (auto simp: sample_input_def)
qed

text \<open>
  Two registrations that both look before either stores leave two users with one email: the
  check and the creation are separate steps, and the repository does not check again.
\<close>

lemma duplicate_email_race:
  assumes "im_Create c u s = (Inr u1, s1)" "im_Create c v s1 = (Inr v1, s2)" "au_Email u = au_Email v"
  shows "{u1, v1} \<subseteq> set (im_users (w_repo s2)) \<and> au_Email u1 = au_Email v1"
  using assms by (auto simp: im_Create_def Let_def)

end
