(* ===== verification/Config.thy ===== *)
theory Config
  imports Reflect
begin

text \<open>
  \<open>config/config.go\<close>: binding of environment variables to struct fields, with the parsers of
  \<open>strconv\<close> and \<open>time\<close> it calls.  A panic is a value \<open>config_panic\<close>.
\<close>

section \<open>strconv and time\<close>

datatype parse_error = ErrSyntax | ErrRange

definition digit_val :: "char \<Rightarrow> nat option" where
  "digit_val c = (let n = of_char c :: nat in if 48 \<le> n \<and> n \<le> 57 then Some (n - 48) else None)"

fun digits_val :: "nat \<Rightarrow> string \<Rightarrow> nat option" where
  "digits_val acc [] = Some acc"
| "digits_val acc (c # cs) = (case digit_val c of None \<Rightarrow> None | Some d \<Rightarrow> digits_val (10 * acc + d) cs)"

text \<open>\<open>strconv.ParseInt (s, 10, 64)\<close>.\<close>

definition ParseInt :: "string \<Rightarrow> parse_error + int" where
  "ParseInt s =
     (let neg = (s \<noteq> [] \<and> hd s = CHR ''-'');
          ds = (if s \<noteq> [] \<and> (hd s = CHR ''-'' \<or> hd s = CHR ''+'') then tl s else s)
      in if ds = [] then Inl ErrSyntax
         else case digits_val 0 ds of
                None \<Rightarrow> Inl ErrSyntax
              | Some n \<Rightarrow>
                  (let v = (if neg then - int n else int n)
                   in if in_int64 v then Inr v else Inl ErrRange))"

definition ParseBool :: "string \<Rightarrow> parse_error + bool" where
  "ParseBool s =
     (if s \<in> set [''1'', ''t'', ''T'', ''TRUE'', ''true'', ''True''] then Inr True
      else if s \<in> set [''0'', ''f'', ''F'', ''FALSE'', ''false'', ''False''] then Inr False
      else Inl ErrSyntax)"

text \<open>
  \<open>time.ParseDuration\<close>.  A fraction is taken exactly and cut to nanoseconds; the library
  multiplies it out in floating point.
\<close>

definition unit_of :: "string \<Rightarrow> nat option" where
  "unit_of u =
     map_of [(''ns'', 1), (''us'', 1000), ([CHR 0xC2, CHR 0xB5] @ ''s'', 1000),
       ([CHR 0xCE, CHR 0xBC] @ ''s'', 1000), (''ms'', 1000000), (''s'', 1000000000),
       (''m'', 60000000000), (''h'', 3600000000000)] u"

definition is_digit :: "char \<Rightarrow> bool" where "is_digit c \<longleftrightarrow> digit_val c \<noteq> None"

text \<open>\<open>leadingInt\<close>: the value, \<open>None\<close> on overflow.\<close>

fun leadingInt :: "nat \<Rightarrow> string \<Rightarrow> (nat \<times> string) option" where
  "leadingInt x [] = Some (x, [])"
| "leadingInt x (c # cs) =
     (case digit_val c of
        None \<Rightarrow> Some (x, c # cs)
      | Some d \<Rightarrow>
          (if x > 2 ^ 63 div 10 then None
           else if 10 * x + d > 2 ^ 63 then None
           else leadingInt (10 * x + d) cs))"

text \<open>\<open>leadingFraction\<close>: digits that do not fit are skipped.\<close>

fun leadingFraction :: "nat \<Rightarrow> nat \<Rightarrow> bool \<Rightarrow> string \<Rightarrow> nat \<times> nat \<times> string" where
  "leadingFraction x scale over [] = (x, scale, [])"
| "leadingFraction x scale over (c # cs) =
     (case digit_val c of
        None \<Rightarrow> (x, scale, c # cs)
      | Some d \<Rightarrow>
          (if over then leadingFraction x scale True cs
           else if x > (2 ^ 63 - 1) div 10 then leadingFraction x scale True cs
           else if 10 * x + d > 2 ^ 63 then leadingFraction x scale True cs
           else leadingFraction (10 * x + d) (10 * scale) False cs))"

text \<open>
  One round of the loop: a number, a unit, and the nanoseconds they make, with what is left.
\<close>

definition duration_part :: "string \<Rightarrow> (nat \<times> string) option" where
  "duration_part s =
     (if s = [] \<or> \<not> (hd s = CHR ''.'' \<or> is_digit (hd s)) then None
      else case leadingInt 0 s of
             None \<Rightarrow> None
           | Some (v, s1) \<Rightarrow>
               (let pre = (length s1 \<noteq> length s);
                    frac = (s1 \<noteq> [] \<and> hd s1 = CHR ''.'');
                    (f, scale, s2) = (if frac then leadingFraction 0 1 False (tl s1) else (0, 1, s1));
                    post = (frac \<and> length s2 \<noteq> length (tl s1));
                    u = takeWhile (\<lambda>c. \<not> (c = CHR ''.'' \<or> is_digit c)) s2;
                    s3 = dropWhile (\<lambda>c. \<not> (c = CHR ''.'' \<or> is_digit c)) s2
                in if \<not> pre \<and> \<not> post then None
                   else if u = [] then None
                   else case unit_of u of
                          None \<Rightarrow> None
                        | Some unit \<Rightarrow>
                            (if v > 2 ^ 63 div unit then None
                             else let w = v * unit + (if f > 0 then f * unit div scale else 0)
                                  in if w > 2 ^ 63 then None else Some (w, s3))))"

lemma leadingInt_length: "leadingInt x s = Some (v, r) \<Longrightarrow> length r \<le> length s"
  by (induction x s rule: leadingInt.induct) (auto split: option.splits if_splits)

lemma leadingFraction_length: "leadingFraction x sc ov s = (f, sc', r) \<Longrightarrow> length r \<le> length s"
  by (induction x sc ov s rule: leadingFraction.induct) (auto split: option.splits if_splits)

lemma duration_part_length: "duration_part s = Some (w, r) \<Longrightarrow> length r < length s"
proof -
  assume d: "duration_part s = Some (w, r)"
  then obtain v s1 where l: "leadingInt 0 s = Some (v, s1)"
    by (auto simp: duration_part_def split: if_splits option.splits)
  define frac where "frac = (s1 \<noteq> [] \<and> hd s1 = CHR ''.'')"
  obtain f sc s2 where f: "(if frac then leadingFraction 0 1 False (tl s1) else (0, 1, s1)) = (f, sc, s2)"
    using prod_cases3 by blast
  have "length s2 \<le> length s1"
  proof (cases frac)
    case True
    with f leadingFraction_length [of 0 1 False "tl s1" f sc s2] show ?thesis by simp
  qed (use f in simp)
  moreover have "length s1 \<le> length s" by (rule leadingInt_length [OF l])
  moreover from d l f have "takeWhile (\<lambda>c. \<not> (c = CHR ''.'' \<or> is_digit c)) s2 \<noteq> [] \<and>
      r = dropWhile (\<lambda>c. \<not> (c = CHR ''.'' \<or> is_digit c)) s2"
    unfolding duration_part_def frac_def [symmetric]
    by (auto simp: Let_def frac_def [symmetric] split: if_splits option.splits prod.splits)
  moreover from this have "length r < length s2"
    using takeWhile_dropWhile_id [of "\<lambda>c. \<not> (c = CHR ''.'' \<or> is_digit c)" s2]
    by (metis add_less_cancel_right length_append length_greater_0_conv add_0)
  ultimately show ?thesis by simp
qed

function duration_loop :: "nat \<Rightarrow> string \<Rightarrow> nat option" where
  "duration_loop d s =
     (if s = [] then Some d
      else case duration_part s of
             None \<Rightarrow> None
           | Some (w, r) \<Rightarrow> (if d + w > 2 ^ 63 then None else duration_loop (d + w) r))"
  by pat_completeness auto
termination
  by (relation "measure (\<lambda>(d, s). length s)") (auto dest: duration_part_length)

declare duration_loop.simps [simp del]

definition ParseDuration :: "string \<Rightarrow> parse_error + int" where
  "ParseDuration s0 =
     (let neg = (s0 \<noteq> [] \<and> hd s0 = CHR ''-'');
          s = (if s0 \<noteq> [] \<and> (hd s0 = CHR ''-'' \<or> hd s0 = CHR ''+'') then tl s0 else s0)
      in if s = ''0'' then Inr 0
         else if s = [] then Inl ErrSyntax
         else case duration_loop 0 s of
                None \<Rightarrow> Inl ErrSyntax
              | Some d \<Rightarrow>
                  (if neg then Inr (- int d) else if d > 2 ^ 63 - 1 then Inl ErrSyntax else Inr (int d)))"

section \<open>MustBind\<close>

datatype field_error = ParseFailed parse_error | UnsupportedType string

datatype config_panic = NeedsStructPointer | RequiredNotSet string | SettingFailed string field_error

definition setField :: "struct_field \<Rightarrow> string \<Rightarrow> field_error + struct_field" where
  "setField f raw =
     (case fd_Type f of
        TString \<Rightarrow> Inr (f\<lparr>fd_Value := FString raw\<rparr>)
      | TDuration \<Rightarrow> (case ParseDuration raw of Inl e \<Rightarrow> Inl (ParseFailed e) | Inr d \<Rightarrow> Inr (f\<lparr>fd_Value := FInt d\<rparr>))
      | TInt \<Rightarrow> (case ParseInt raw of Inl e \<Rightarrow> Inl (ParseFailed e) | Inr n \<Rightarrow> Inr (f\<lparr>fd_Value := FInt n\<rparr>))
      | TInt64 \<Rightarrow> (case ParseInt raw of Inl e \<Rightarrow> Inl (ParseFailed e) | Inr n \<Rightarrow> Inr (f\<lparr>fd_Value := FInt n\<rparr>))
      | TBool \<Rightarrow> (case ParseBool raw of Inl e \<Rightarrow> Inl (ParseFailed e) | Inr b \<Rightarrow> Inr (f\<lparr>fd_Value := FBool b\<rparr>))
      | TOther t \<Rightarrow> Inl (UnsupportedType t))"

text \<open>One round of the loop over the fields.\<close>

definition bind_field :: "(string \<rightharpoonup> string) \<Rightarrow> struct_field \<Rightarrow> config_panic + struct_field" where
  "bind_field env f =
     (let envKey = Tag_Get f ''env''
      in if envKey = [] then Inr f
         else
           (let raw = (case env envKey of
                         Some v \<Rightarrow> Some v
                       | None \<Rightarrow> (let d = Tag_Get f ''default'' in if d \<noteq> [] then Some d else None))
            in case raw of
                 None \<Rightarrow> (if Tag_Get f ''required'' = ''true'' then Inl (RequiredNotSet envKey) else Inr f)
               | Some v \<Rightarrow>
                   (case setField f v of Inl e \<Rightarrow> Inl (SettingFailed envKey e) | Inr f' \<Rightarrow> Inr f')))"

fun bind_loop :: "(string \<rightharpoonup> string) \<Rightarrow> struct_field list \<Rightarrow> config_panic + struct_field list" where
  "bind_loop env [] = Inr []"
| "bind_loop env (f # fs) =
     (case bind_field env f of
        Inl p \<Rightarrow> Inl p
      | Inr f' \<Rightarrow> (case bind_loop env fs of Inl p \<Rightarrow> Inl p | Inr fs' \<Rightarrow> Inr (f' # fs')))"

definition MustBind :: "(string \<rightharpoonup> string) \<Rightarrow> reflect_dst \<Rightarrow> config_panic + struct_field list" where
  "MustBind env dst =
     (case dst of NotStructPtr \<Rightarrow> Inl NeedsStructPointer | PtrStruct fs \<Rightarrow> bind_loop env fs)"

section \<open>Lemmas\<close>

lemma digit_val_digit_char: "d < 10 \<Longrightarrow> digit_val (digit_char d) = Some d"
  by (simp add: digit_val_def digit_char_def Let_def)

lemma digits_val_append:
  "digits_val acc (s @ t) = (case digits_val acc s of None \<Rightarrow> None | Some n \<Rightarrow> digits_val n t)"
  by (induction acc s rule: digits_val.induct) (auto split: option.splits)

lemma digits_val_nat_digits: "digits_val 0 (nat_digits n) = Some n"
proof (induction n rule: nat_digits.induct)
  case (1 n)
  then show ?case
    by (subst nat_digits.simps) (auto simp: digits_val_append digit_val_digit_char)
qed

lemma nat_digits_head: "nat_digits n \<noteq> [] \<and> is_digit (hd (nat_digits n))"
proof (induction n rule: nat_digits.induct)
  case (1 n)
  show ?case
  proof (cases "n < 10")
    case True
    then show ?thesis by (simp add: nat_digits.simps is_digit_def digit_val_digit_char)
  next
    case False
    from 1 [OF False] show ?thesis by (subst (1 2) nat_digits.simps) (simp add: False)
  qed
qed

lemma sign_not_digit: "\<not> is_digit (CHR ''-'')" "\<not> is_digit (CHR ''+'')"
  by (simp_all add: is_digit_def digit_val_def Let_def)

lemma ParseInt_range: "ParseInt s = Inr n \<Longrightarrow> in_int64 n"
  by (auto simp: ParseInt_def Let_def split: if_splits option.splits)

lemma duration_loop_bound: "duration_loop d s = Some n \<Longrightarrow> d \<le> 2 ^ 63 \<Longrightarrow> n \<le> 2 ^ 63"
proof (induction d s rule: duration_loop.induct)
  case (1 d s)
  from "1.prems"(1) have c: "s = [] \<and> n = d \<or>
      (\<exists>w r. s \<noteq> [] \<and> duration_part s = Some (w, r) \<and> \<not> d + w > 2 ^ 63 \<and> duration_loop (d + w) r = Some n)"
    by (subst (asm) duration_loop.simps) (auto split: if_splits option.splits)
  then show ?case
  proof
    assume "\<exists>w r. s \<noteq> [] \<and> duration_part s = Some (w, r) \<and> \<not> d + w > 2 ^ 63 \<and> duration_loop (d + w) r = Some n"
    then obtain w r where "s \<noteq> []" "duration_part s = Some (w, r)" "\<not> d + w > 2 ^ 63"
      "duration_loop (d + w) r = Some n" by blast
    from "1.IH" [OF this(1,2) refl this(3,4)] this(3) show ?thesis by simp
  qed (use "1.prems" in simp)
qed

lemma ParseDuration_range: "ParseDuration s = Inr n \<Longrightarrow> in_int64 n"
  using duration_loop_bound [of 0]
  by (fastforce simp: ParseDuration_def Let_def in_int64_def min_int64_def max_int64_def
      split: if_splits option.splits)

lemma setField_frame:
  "setField f raw = Inr f' \<Longrightarrow>
     fd_Name f' = fd_Name f \<and> fd_Tags f' = fd_Tags f \<and> fd_Type f' = fd_Type f \<and> fd_CanSet f' = fd_CanSet f \<and> typed f'"
  using ParseInt_range ParseDuration_range
  by (auto simp: setField_def typed_def split: field_type.splits sum.splits)

lemma bind_loop_Inr: "bind_loop env fs = Inr fs' \<longleftrightarrow> list_all2 (\<lambda>f f'. bind_field env f = Inr f') fs fs'"
proof (induction fs arbitrary: fs')
  case (Cons f fs)
  show ?case
    by (cases fs'; cases "bind_field env f"; cases "bind_loop env fs") (auto simp: Cons.IH [symmetric])
qed auto

lemma bind_loop_Inl: "bind_loop env fs = Inl p \<longleftrightarrow>
    (\<exists>pre f post pre'. fs = pre @ f # post \<and> bind_loop env pre = Inr pre' \<and> bind_field env f = Inl p)"
proof (induction fs)
  case (Cons g fs)
  show ?case
  proof (cases "bind_field env g")
    case (Inl q)
    show ?thesis
    proof
      assume "bind_loop env (g # fs) = Inl p"
      with Inl show "\<exists>pre f post pre'. g # fs = pre @ f # post \<and> bind_loop env pre = Inr pre' \<and> bind_field env f = Inl p"
        by (intro exI [of _ "[]"]) simp
    next
      assume "\<exists>pre f post pre'. g # fs = pre @ f # post \<and> bind_loop env pre = Inr pre' \<and> bind_field env f = Inl p"
      with Inl show "bind_loop env (g # fs) = Inl p" by (auto simp: Cons_eq_append_conv)
    qed
  next
    case (Inr g')
    have "bind_loop env (g # fs) = Inl p \<longleftrightarrow> bind_loop env fs = Inl p"
      using Inr by (auto split: sum.splits)
    also have "\<dots> \<longleftrightarrow> (\<exists>pre f post pre'. g # fs = pre @ f # post \<and> bind_loop env pre = Inr pre' \<and> bind_field env f = Inl p)"
      (is "?l \<longleftrightarrow> ?r")
    proof
      assume ?l
      with Cons.IH obtain pre f post pre' where
        "fs = pre @ f # post" "bind_loop env pre = Inr pre'" "bind_field env f = Inl p" by blast
      then show ?r using Inr by (intro exI [of _ "g # pre"]) simp
    next
      assume ?r
      with Inr Cons.IH show ?l by (fastforce simp: Cons_eq_append_conv split: sum.splits)
    qed
    finally show ?thesis .
  qed
qed simp

section \<open>Properties\<close>

text \<open>Numbers are read back as they are printed: every 64-bit integer, through \<open>strconv.Itoa\<close>
  and \<open>strconv.ParseInt\<close>; and whatever \<open>ParseInt\<close> and \<open>ParseDuration\<close> accept fits 64 bits.\<close>

lemma ParseInt_itoa:
  "(in_int64 n \<longrightarrow> ParseInt (itoa n) = Inr n) \<and>
   (ParseInt s = Inr k \<longrightarrow> in_int64 k) \<and> (ParseDuration s = Inr d \<longrightarrow> in_int64 d)"
proof (intro conjI impI)
  assume n: "in_int64 n"
  have hd: "hd (nat_digits m) \<noteq> CHR ''-''" "hd (nat_digits m) \<noteq> CHR ''+''" for m
    using nat_digits_head [of m] sign_not_digit by auto
  show "ParseInt (itoa n) = Inr n"
  proof (cases "n < 0")
    case True
    with n show ?thesis
      by (simp add: ParseInt_def itoa_def Let_def digits_val_nat_digits nat_digits_head)
  next
    case False
    with n hd show ?thesis
      by (simp add: ParseInt_def itoa_def Let_def digits_val_nat_digits nat_digits_head)
  qed
qed (use ParseInt_range ParseDuration_range in blast)+

lemma ParseInt_itoa_witness:
  "ParseInt (itoa (- 5)) = Inr (- 5) \<and> in_int64 (- 5)"
  using ParseInt_itoa [of "- 5" "itoa (- 5)" "- 5"] by (simp add: in_int64_def min_int64_def max_int64_def)

definition bound_value :: "(string \<rightharpoonup> string) \<Rightarrow> struct_field \<Rightarrow> string option" where
  "bound_value env f =
     (case env (Tag_Get f ''env'') of
        Some v \<Rightarrow> Some v
      | None \<Rightarrow> (if Tag_Get f ''default'' \<noteq> [] then Some (Tag_Get f ''default'') else None))"

lemma bind_field_cases:
  "bind_field env f = Inr f' \<longleftrightarrow>
     (if Tag_Get f ''env'' = [] then f' = f
      else case bound_value env f of
             None \<Rightarrow> Tag_Get f ''required'' \<noteq> ''true'' \<and> f' = f
           | Some v \<Rightarrow> setField f v = Inr f')"
  by (auto simp: bind_field_def bound_value_def Let_def split: option.splits sum.splits)

text \<open>What \<open>MustBind\<close> does to a struct, when it returns: every field keeps its name, tags and
  type; a field without an \<open>env\<close> tag, or whose variable is unset and which has no default, is
  unchanged, and then it is not marked required; every other field holds the parsed value of its
  variable, or of its default when the variable is unset, and has the right type.  When it
  panics, it is on the first field for which this cannot be done.\<close>

lemma MustBind_spec:
  "(MustBind env (PtrStruct fs) = Inr fs' \<longleftrightarrow>
      list_all2 (\<lambda>f f'.
        if Tag_Get f ''env'' = [] then f' = f
        else case bound_value env f of
               None \<Rightarrow> Tag_Get f ''required'' \<noteq> ''true'' \<and> f' = f
             | Some v \<Rightarrow> setField f v = Inr f' \<and> fd_Name f' = fd_Name f \<and> fd_Tags f' = fd_Tags f \<and>
                 fd_Type f' = fd_Type f \<and> typed f') fs fs') \<and>
   (MustBind env (PtrStruct fs) = Inl p \<longleftrightarrow>
      (\<exists>pre f post pre'. fs = pre @ f # post \<and> MustBind env (PtrStruct pre) = Inr pre' \<and>
         bind_field env f = Inl p))"
proof -
  have "(bind_field env f = Inr f') =
      (if Tag_Get f ''env'' = [] then f' = f
       else case bound_value env f of
              None \<Rightarrow> Tag_Get f ''required'' \<noteq> ''true'' \<and> f' = f
            | Some v \<Rightarrow> setField f v = Inr f' \<and> fd_Name f' = fd_Name f \<and> fd_Tags f' = fd_Tags f \<and>
                fd_Type f' = fd_Type f \<and> typed f')" for f f'
    unfolding bind_field_cases using setField_frame by (auto split: option.splits)
  then show ?thesis by (simp add: MustBind_def bind_loop_Inr bind_loop_Inl)
qed

lemma MustBind_spec_witness:
  "MustBind (\<lambda>k. if k = ''PORT'' then Some ''80'' else None)
     (PtrStruct [\<lparr>fd_Name = ''Port'', fd_Tags = [(''env'', ''PORT''), (''required'', ''true'')], fd_Type = TInt,
        fd_CanSet = True, fd_Value = FInt 0\<rparr>]) =
   Inr [\<lparr>fd_Name = ''Port'', fd_Tags = [(''env'', ''PORT''), (''required'', ''true'')], fd_Type = TInt,
        fd_CanSet = True, fd_Value = FInt 80\<rparr>]"
proof -
  have "ParseInt ''80'' = Inr 80" by code_simp
  then show ?thesis
    by (subst MustBind_spec [THEN conjunct1])
      (simp add: Tag_Get_def bound_value_def setField_def typed_def in_int64_def min_int64_def max_int64_def)
qed



definition flag_fields :: "struct_field list" where
  "flag_fields =
     [\<lparr>fd_Name = ''Port'', fd_Tags = [(''env'', ''PORT''), (''default'', ''80'')], fd_Type = TInt, fd_CanSet = True,
       fd_Value = FInt 0\<rparr>,
      \<lparr>fd_Name = ''Debug'', fd_Tags = [(''env'', ''DEBUG'')], fd_Type = TBool, fd_CanSet = True, fd_Value = FBool False\<rparr>]"


end
