(* ===== verification/Example.thy ===== *)
theory Example
  imports Account_Handlers Example_Repo Config
begin

text \<open>
  \<open>cmd/example/main.go\<close>: the configuration, the greeting module, the health check and the wiring of
  the middleware, with the witnesses of the account properties on the in-memory repository.
  The function \<open>main\<close> itself is in theory \<open>Example_Main\<close>, the goroutines it starts in theory \<open>Process\<close>.
\<close>

section \<open>Configuration\<close>

text \<open>\<open>serverConfig\<close> as \<open>reflect\<close> sees it: the \<open>env\<close> tags are the whole quoted strings.\<close>

definition serverConfig_fields :: "struct_field list" where
  "serverConfig_fields =
     [string_field ''Addr'' [(''env'', ''APP_ADDR''), (''default'', '':8080'')] [],
      string_field ''Env'' [(''env'', ''APP_ENV''), (''default'', ''development'')] [],
      string_field ''LogLevel'' [(''env'', ''LOG_LEVEL''), (''default'', ''info'')] [],
      string_field ''DatabaseURL'' [(''env'', ''DATABASE_URL'')] [],
      string_field ''SessionKey'' [(''env'', ''SESSION_KEY,required'')] [],
      string_field ''JWTSecret'' [(''env'', ''JWT_SECRET,required'')] [],
      string_field ''CORSOrigins'' [(''env'', ''CORS_ORIGINS''), (''default'', ''*'')] []]"

record serverConfig =
  sc_Addr :: string
  sc_Env :: string
  sc_LogLevel :: string
  sc_DatabaseURL :: string
  sc_SessionKey :: string
  sc_JWTSecret :: string
  sc_CORSOrigins :: string

definition load_config :: "(string \<rightharpoonup> string) \<Rightarrow> config_panic + serverConfig" where
  "load_config env =
     (case MustBind env (PtrStruct serverConfig_fields) of
        Inl p \<Rightarrow> Inl p
      | Inr fs \<Rightarrow> Inr \<lparr>sc_Addr = field_string fs 0, sc_Env = field_string fs 1, sc_LogLevel = field_string fs 2,
          sc_DatabaseURL = field_string fs 3, sc_SessionKey = field_string fs 4, sc_JWTSecret = field_string fs 5,
          sc_CORSOrigins = field_string fs 6\<rparr>)"

definition parseLogLevel :: "string \<Rightarrow> log_level" where
  "parseLogLevel s =
     (if s = ''debug'' then LevelDebug else if s = ''warn'' then LevelWarn
      else if s = ''error'' then LevelError else LevelInfo)"

text \<open>The session key: padded with zeros to 32 bytes, then cut to 32.\<close>

definition session_key :: "string \<Rightarrow> byte list" where
  "session_key k =
     (let b = bytes_of k; b' = (if length b < 32 then b @ replicate (32 - length b) 0 else b) in take 32 b')"

lemma session_key_length: "length (session_key k) = 32"
  by (simp add: session_key_def Let_def)

lemma bind_string_field:
  "bind_field env (string_field n tags v) =
     (if Tag_Get (string_field n tags v) ''env'' = [] then Inr (string_field n tags v)
      else case bound_value env (string_field n tags v) of
             None \<Rightarrow> (if Tag_Get (string_field n tags v) ''required'' = ''true''
                      then Inl (RequiredNotSet (Tag_Get (string_field n tags v) ''env''))
                      else Inr (string_field n tags v))
           | Some x \<Rightarrow> Inr (string_field n tags x))"
  by (simp add: bind_field_def bound_value_def Let_def setField_def string_field_def split: option.split)

lemma Tag_Get_string_field:
  "Tag_Get (string_field n tags v) k = (case map_of tags k of None \<Rightarrow> [] | Some x \<Rightarrow> x)"
  by (simp add: Tag_Get_def string_field_def)

lemma secret_field:
  "k \<noteq> [] \<Longrightarrow> env k = None \<Longrightarrow>
     bind_field env (string_field n [(''env'', k)] v) = Inr (string_field n [(''env'', k)] v)"
  by (simp add: bind_string_field bound_value_def Tag_Get_string_field)

lemma optional_field:
  "\<exists>x. bind_field env (string_field n [(''env'', k)] v) = Inr (string_field n [(''env'', k)] x)"
  "\<exists>x. bind_field env (string_field n [(''env'', k), (''default'', d)] v) =
        Inr (string_field n [(''env'', k), (''default'', d)] x)"
  by (auto simp: bind_string_field Tag_Get_string_field split: option.split)

section \<open>Greetings\<close>

definition maxNameLength :: nat where "maxNameLength = 100"

datatype validationError = ValidationError string string

fun validationError_Error :: "validationError \<Rightarrow> string" where
  "validationError_Error (ValidationError field msg) = field @ '': '' @ msg"

definition greeting_List :: "('l, 't, 'm) example_world_scheme \<Rightarrow> greeting list" where
  "greeting_List s = w_greetings s"

definition Greet :: "string \<Rightarrow> string + greeting" where
  "Greet name =
     (if name = [] then
        Inl (''greeting: greet: '' @ validationError_Error (ValidationError ''name'' ''name is required''))
      else if length name > maxNameLength then
        Inl (''greeting: greet: '' @ validationError_Error (ValidationError ''name'' ''name too long''))
      else Inr \<lparr>g_Name = name, g_Message = ''Hello, '' @ name @ ''! Welcome to Broth.''\<rparr>)"

definition greeting_Create ::
    "string \<Rightarrow> ('l, 't, 'm) example_world_scheme \<Rightarrow> (string + greeting) \<times> ('l, 't, 'm) example_world_scheme"
where
  "greeting_Create name s =
     (if name = [] then
        (Inl (''greeting: create: '' @ validationError_Error (ValidationError ''name'' ''name is required'')), s)
      else if length name > maxNameLength then
        (Inl (''greeting: create: '' @ validationError_Error (ValidationError ''name'' ''name too long'')), s)
      else
        (let g = \<lparr>g_Name = name, g_Message = ''Hello, '' @ name @ ''!''\<rparr>
         in (Inr g, s\<lparr>w_greetings := w_greetings s @ [g]\<rparr>)))"

definition writeJSON :: "'w response_writer \<Rightarrow> int \<Rightarrow> json \<Rightarrow> 'w \<Rightarrow> 'w" where
  "writeJSON w status data s =
     (let s1 = set_header w ''Content-Type'' ''application/json; charset=utf-8'' s;
          s2 = rw_WriteHeader w status s1
      in rw_Write w (JsonLine data) s2)"

definition greeting_json :: "greeting \<Rightarrow> json" where
  "greeting_json g = JObj [(''name'', JStr (g_Name g)), (''message'', JStr (g_Message g))]"

definition error_response :: "string \<Rightarrow> json" where
  "error_response msg = JObj [(''error'', JStr msg)]"

definition greeting_list :: "(('l, 't, 'm) example_world_scheme) handler" where
  "greeting_list w r s =
     (let gs = greeting_List s
      in Done (writeJSON w 200 (JObj [(''greetings'', JArr (map greeting_json gs)), (''count'', JInt (int (length gs)))]) s))"

definition greeting_show :: "(('l, 't, 'm) example_world_scheme) handler" where
  "greeting_show w r s =
     (case Greet (PathValue r ''name'') of
        Inl err \<Rightarrow> Done (writeJSON w 400 (error_response err) s)
      | Inr g \<Rightarrow> Done (writeJSON w 200 (greeting_json g) s))"

fun decode_name :: "json \<Rightarrow> string option" where
  "decode_name JNull = Some []"
| "decode_name (JObj ms) = decode_string ''name'' ms []"
| "decode_name _ = None"

definition greeting_create :: "(string \<Rightarrow> json option) \<Rightarrow> logger \<Rightarrow> (('l, 't, 'm) example_world_scheme) handler" where
  "greeting_create dec lg w r s =
     (case Option.bind (dec (r_Body r)) decode_name of
        None \<Rightarrow> Done (writeJSON w 400 (error_response ''invalid JSON'') s)
      | Some name \<Rightarrow>
          (case greeting_Create name s of
             (Inl err, s1) \<Rightarrow> Done (writeJSON w 422 (error_response err) s1)
           | (Inr g, s1) \<Rightarrow>
               Done (writeJSON w 201 (greeting_json g)
                 (log_Info lg ''greeting created'' [(''name'', g_Name g)] s1))))"

definition greeting_routes ::
    "(string \<Rightarrow> json option) \<Rightarrow> logger \<Rightarrow> (('l, 't, 'm) example_world_scheme) Route list" where
  "greeting_routes dec lg =
     [\<lparr>rt_Pattern = ''GET /'', rt_Handler = greeting_list\<rparr>,
      \<lparr>rt_Pattern = ''GET /{name}'', rt_Handler = greeting_show\<rparr>,
      \<lparr>rt_Pattern = ''POST /'', rt_Handler = greeting_create dec lg\<rparr>]"

definition initial_greetings :: "greeting list" where
  "initial_greetings = [\<lparr>g_Name = ''Broth'', g_Message = ''Welcome to Broth framework!''\<rparr>]"

definition greeting_module ::
    "(string \<Rightarrow> json option) \<Rightarrow> logger \<Rightarrow> (('l, 't, 'm) example_world_scheme) app_module" where
  "greeting_module dec lg =
     \<lparr>mod_Name = ''greeting'', mod_Routes = greeting_routes dec lg, mod_Start = Some (\<lambda>s. (None, s)),
      mod_Shutdown = None\<rparr>"

text \<open>\<open>fmt\<close> writes a time in RFC 3339.\<close>

definition healthHandler :: "(go_time \<Rightarrow> string) \<Rightarrow> ('m world_scheme) handler" where
  "healthHandler fmt w r s =
     Done (writeJSON w 200 (JObj [(''status'', JStr ''ok''), (''time'', JStr (fmt (w_now s)))]) s)"

definition heartbeat_Execute :: "(go_time \<Rightarrow> string) \<Rightarrow> logger \<Rightarrow> 'm world_scheme \<Rightarrow> string option \<times> 'm world_scheme" where
  "heartbeat_Execute fmt lg s = (None, log_Info lg ''heartbeat: alive'' [(''time'', fmt (w_now s))] s)"

section \<open>The application\<close>

definition example_session_config :: "serverConfig \<Rightarrow> SessionConfig" where
  "example_session_config cfg =
     \<lparr>CookieName = ''broth_session'', CookieMaxAge = 86400, CookieSecure = (sc_Env cfg = ''production''),
      CookieSameSite = 0, CookiePath = ''/''\<rparr>"

definition example_rate_limits :: "RateLimitConfig list" where
  "example_rate_limits = [\<lparr>rlc_RPS = 100, rlc_Burst = 50\<rparr>]"

definition example_middleware ::
    "serverConfig \<Rightarrow> json_codec \<Rightarrow> cookie_store \<Rightarrow> logger \<Rightarrow> string \<Rightarrow> (duration \<Rightarrow> string) \<Rightarrow> 'l rate_lib \<Rightarrow>
     ((('l, 'm) rl_world_scheme) middleware) list"
where
  "example_middleware cfg J store lg stack dur L =
     [RequestID, Recovery stack lg, Logger dur lg, ContextDetect, SecurityHeaders [],
      Session J store [example_session_config cfg], CSRF [],
      CORS \<lparr>AllowedOrigins = [sc_CORSOrigins cfg], AllowedMethods = [], AllowedHeaders = [],
            AllowCredentials = False, CORSMaxAge = 0\<rparr>,
      RateLimit L]"

section \<open>Properties\<close>

text \<open>C40. The example's secrets are never read from the environment: the field tags name the variable
  \<open>SESSION_KEY,required\<close>, not \<open>SESSION_KEY\<close>, so whatever is set under the documented names, the
  session key is 32 zero bytes and the token secret is empty, without a panic.\<close>

theorem Secrets_not_loaded:
  assumes "env ''SESSION_KEY,required'' = None" "env ''JWT_SECRET,required'' = None"
  shows "\<exists>cfg. load_config env = Inr cfg \<and> session_key (sc_SessionKey cfg) = replicate 32 0 \<and> sc_JWTSecret cfg = []"
proof -
  have "bind_field env (string_field ''SessionKey'' [(''env'', ''SESSION_KEY,required'')] []) =
      Inr (string_field ''SessionKey'' [(''env'', ''SESSION_KEY,required'')] [])"
    "bind_field env (string_field ''JWTSecret'' [(''env'', ''JWT_SECRET,required'')] []) =
      Inr (string_field ''JWTSecret'' [(''env'', ''JWT_SECRET,required'')] [])"
    by (simp_all add: secret_field assms)
  then obtain a b c d g where loop: "bind_loop env serverConfig_fields =
      Inr [a, b, c, d, string_field ''SessionKey'' [(''env'', ''SESSION_KEY,required'')] [],
           string_field ''JWTSecret'' [(''env'', ''JWT_SECRET,required'')] [], g]"
    using optional_field(2) [of env "''Addr''" "''APP_ADDR''" "'':8080''" "[]"]
      optional_field(2) [of env "''Env''" "''APP_ENV''" "''development''" "[]"]
      optional_field(2) [of env "''LogLevel''" "''LOG_LEVEL''" "''info''" "[]"]
      optional_field(1) [of env "''DatabaseURL''" "''DATABASE_URL''" "[]"]
      optional_field(2) [of env "''CORSOrigins''" "''CORS_ORIGINS''" "''*''" "[]"]
    unfolding serverConfig_fields_def bind_loop_Inr list_all2_Cons list_all2_Nil
    by (elim exE) (simp add: bind_loop_Inr)
  then show ?thesis
    by (simp add: load_config_def MustBind_def session_key_def bytes_of_def Let_def
        field_string_def string_field_def)
qed

theorem Secrets_not_loaded_witness:
  "\<exists>cfg. load_config [''SESSION_KEY'' \<mapsto> ''0123456789abcdef0123456789abcdef'', ''JWT_SECRET'' \<mapsto> ''s''] = Inr cfg \<and>
     session_key (sc_SessionKey cfg) = replicate 32 0 \<and> sc_JWTSecret cfg = []"
  by (rule Secrets_not_loaded) simp_all

definition greetings_ok :: "greeting list \<Rightarrow> bool" where
  "greetings_ok gs \<longleftrightarrow> list_all (\<lambda>g. g_Name g \<noteq> [] \<and> length (g_Name g) \<le> maxNameLength) gs"

text \<open>Greetings: every stored greeting but the initial one has a name of 1 to 100 bytes;
  creating one with such a name appends exactly it and any other name is refused without effect.\<close>

lemma Greeting_Create_spec:
  "(greetings_ok (w_greetings s) \<longrightarrow> greetings_ok (w_greetings (snd (greeting_Create name s)))) \<and>
   (case fst (greeting_Create name s) of
      Inl err \<Rightarrow> snd (greeting_Create name s) = s \<and> (name = [] \<or> maxNameLength < length name)
    | Inr g \<Rightarrow> greeting_List (snd (greeting_Create name s)) = greeting_List s @ [g] \<and> g_Name g = name \<and>
        name \<noteq> [] \<and> length name \<le> maxNameLength)"
  by (simp add: greeting_Create_def greetings_ok_def greeting_List_def Let_def)

lemma Greeting_Create_spec_witness:
  "greetings_ok initial_greetings \<and>
   greetings_ok (w_greetings (snd (greeting_Create ''Go'' (example_start\<lparr>w_greetings := initial_greetings\<rparr>))))"
proof -
  have "greetings_ok initial_greetings" by code_simp
  with Greeting_Create_spec [of "example_start\<lparr>w_greetings := initial_greetings\<rparr>" "''Go''"] show ?thesis by simp
qed

section \<open>Witnesses of the account properties\<close>

definition sample_account :: account_user where
  "sample_account =
     \<lparr>au_ID = 1, au_Email = ''a@b'', au_Name = ''A'', au_PasswordHash = ''password'', au_Roles = [RoleViewer],
      au_CreatedAt = 5, au_UpdatedAt = 5\<rparr>"

text \<open>One registered user, one session, and random bytes for a new identifier.\<close>

definition login_world :: "(nat, string) example_world" where
  "login_world = example_start
     \<lparr>w_repo := \<lparr>im_users = [sample_account], im_nextID = 2\<rparr>, w_sessions := [sample_session],
      w_entropy := replicate 32 7\<rparr>"

definition sample_handler :: "(string \<Rightarrow> json option) \<Rightarrow> (nat, string, \<lparr>w_repo :: inMemoryRepo, w_greetings :: greeting list\<rparr>) account_handler" where
  "sample_handler dec =
     NewModule in_memory_repository (bcrypt_hasher plain_bcrypt DefaultPasswordHasher)
       (Some (NewTokenService [1, 2] hour))
       (New_renderer \<lparr>rc_TemplateDir = ''templates'', rc_LayoutDir = ''layouts'', rc_ComponentDir = ''components'',
          rc_Reload = False\<rparr> (log_New LevelInfo))
       (log_New LevelInfo) \<lparr>tl_Parse = (\<lambda>n x. Inr [(n, x)]), tl_Execute = (\<lambda>d n x. ([], None))\<rparr>
       \<lparr>fs_Glob = (\<lambda>p. Inr []), fs_ReadFile = (\<lambda>p. Inl ''no file'')\<rparr> unary_jwt dec"

definition login_request :: "string \<Rightarrow> request" where
  "login_request password = (plain_request ''POST'' ''/account/login'')
     \<lparr>r_Form := [(''email'', ''a@b''), (''password'', password)], r_Query := [(''next'', ''//evil.com'')],
      r_Context := NewContext Background (Some 0)\<rparr>"

lemma sample_authenticate:
  "svc_Authenticate (ah_svc (sample_handler dec)) c \<lparr>li_Email = ''a@b'', li_Password = ''password''\<rparr> login_world =
     (Inr sample_account, log_Info (log_New LevelInfo) ''user authenticated'' [(''user_id'', itoa 1)] login_world)"
proof -
  have "LoginInput_Validate \<lparr>li_Email = ''a@b'', li_Password = ''password''\<rparr> = None" by code_simp
  then show ?thesis
    by (simp add: svc_Authenticate_def sample_handler_def NewModule_def NewService_def in_memory_repository_def
        bcrypt_hasher_def im_FindByEmail_def login_world_def Verify_def plain_bcrypt_def sample_account_def)
qed

lemma login_world_frame:
  "w_sessions (log_Info lg m a login_world) = [sample_session]" "w_entropy (log_Info lg m a login_world) = replicate 32 7"
  "resp_status (log_Info lg m a login_world) = None" "w_now (log_Info lg m a login_world) = 5"
  by (simp_all add: log_Info_def log_at_def login_world_def example_start_def)



theorem APILogin_token_witness:
  "\<exists>t token. APILogin (sample_handler (\<lambda>_. Some (JObj [(''email'', JStr ''a@b''), (''password'', JStr ''password'')])))
       (base_rw True True True) (login_request []) login_world = Done t \<and> resp_status t = Some 200 \<and>
     (\<exists>c. ValidateAccessToken unary_jwt (NewTokenService [1, 2] hour) minute token = Inr c \<and> tc_UserID c = 1)"
proof -
  let ?h = "sample_handler (\<lambda>_. Some (JObj [(''email'', JStr ''a@b''), (''password'', JStr ''password'')]))"
  let ?ts = "NewTokenService [1, 2] hour"
  have h: "ah_jwt ?h = unary_jwt" "sv_tokenService (ah_svc ?h) = Some ?ts"
    by (simp_all add: sample_handler_def NewModule_def)
  have d: "Option.bind (ah_decode ?h (r_Body (login_request []))) decode_LoginInput =
      Some \<lparr>li_Email = ''a@b'', li_Password = ''password''\<rparr>"
    by (simp add: sample_handler_def NewModule_def) code_simp
  have v: "LoginInput_Validate \<lparr>li_Email = ''a@b'', li_Password = ''password''\<rparr> = None" by code_simp
  have t: "text_ok (au_Email sample_account)" "list_all text_ok (au_Roles sample_account)" by code_simp+
  obtain token where g: "GenerateAccessToken unary_jwt ?ts 5
      \<lparr>user_ID = au_ID sample_account, user_Email = au_Email sample_account, user_Name = au_Name sample_account,
       user_Roles = au_Roles sample_account\<rparr> = Inr token"
    by (simp add: GenerateAccessToken_def unary_jwt_def Let_def)
  have j: "jwt_ok (ah_jwt ?h)" by (simp add: h unary_jwt_ok)
  have l: "minute \<le> 5 + ts_accessLifetime ?ts - second" by code_simp
  note api = APILogin_token [where fl = True and hj = True and pu = True and later = minute,
      OF j h(2) d v sample_authenticate, unfolded login_world_frame h g sum.case, OF refl]
  have u: "au_ID sample_account = 1" by (simp add: sample_account_def)
  from api [THEN conjunct2, rule_format, OF conjI [OF t(1) conjI [OF t(2) l]]] u obtain c where
    "ValidateAccessToken unary_jwt ?ts minute token = Inr c" "tc_UserID c = 1" by auto
  then show ?thesis using api [THEN conjunct1] by blast
qed

section \<open>The example's middleware\<close>

lemma loadSession_WithContext: "loadSession J store n (WithContext r c) now e = loadSession J store n r now e"
  by (simp add: loadSession_def http_simps)

lemma csrf_submitted_WithContext: "csrf_submitted cfg (WithContext r c) = csrf_submitted cfg r"
  by (simp add: csrf_submitted_def Let_def http_simps)

lemma base_set_header:
  "resp_status (set_header (base_rw fl hj pu) k v s) = resp_status s"
  "w_now (set_header (base_rw fl hj pu) k v s) = w_now s"
  "w_entropy (set_header (base_rw fl hj pu) k v s) = w_entropy s"
  "w_status_ws (set_header (base_rw fl hj pu) k v s) = w_status_ws s"
  by (simp_all add: set_header_def base_rw_def)

lemma status_set_header: "set_header (status_rw i w) k v s = set_header w k v s"
  by (simp add: set_header_def status_rw_def)

lemma SecurityHeaders_frame:
  "\<exists>t. (\<forall>h. SecurityHeaders [] h (status_rw i (base_rw fl hj pu)) r s = h (status_rw i (base_rw fl hj pu)) r t) \<and>
     resp_status t = resp_status s \<and> w_now t = w_now s \<and> w_entropy t = w_entropy s"
  by (intro exI conjI, rule allI, unfold SecurityHeaders_def Let_def status_set_header, rule refl)
    (auto simp: base_set_header)

lemma CSRF_denied:
  assumes "writer_contract w" "GetRequestContext (r_Context r) = ContextSSR" "\<not> isSafeMethod (r_Method r)"
    and "resp_status s = None" "session_token (r_Context r) s \<noteq> [] \<or> 32 \<le> length (w_entropy s)"
    and "csrf_submitted (csrf_config []) r \<noteq>
      (if session_token (r_Context r) s = [] then b64_encode (take 32 (w_entropy s)) else session_token (r_Context r) s)"
  shows "\<exists>u. (\<forall>h. CSRF [] h w r s = Done u) \<and> resp_status u = Some 403"
proof -
  have en: "csrf_Enabled (csrf_config [])" by (simp add: csrf_config_def)
  note st = writer_contract.http_Error_status [OF assms(1)]
  show ?thesis
  proof (cases "session_token (r_Context r) s = []")
    case False
    with assms show ?thesis by (simp add: CSRF_ssr [OF en assms(2)] csrf_check_eq st)
  next
    case True
    with assms have "generateCSRFToken (w_entropy s) =
        (Inr (b64_encode (take 32 (w_entropy s))), drop 32 (w_entropy s))"
      by (simp add: generateCSRFToken_def csrfTokenLength_def rand_read_def)
    with True assms show ?thesis by (simp add: CSRF_ssr [OF en assms(2)] csrf_check_eq st http_simps)
  qed
qed

lemma Session_CSRF_denied:
  fixes s :: "'m world_scheme"
  assumes w: "writer_contract w" "GetRequestContext (r_Context r) = ContextSSR" "\<not> isSafeMethod (r_Method r)"
    and "resp_status s = None"
    and load: "loadSession J store (CookieName (session_config cfgs)) r (w_now s) (w_entropy s) = Inr (sess, rest)"
    and "GetString sess csrfSessionKey \<noteq> [] \<or> 32 \<le> length rest"
    and "csrf_submitted (csrf_config []) r \<noteq>
      (if GetString sess csrfSessionKey = [] then b64_encode (take 32 rest) else GetString sess csrfSessionKey)"
  shows "\<exists>u. (\<forall>h. Session J store cfgs (CSRF [] h) w r s = Done u) \<and> resp_status u = Some 403"
proof -
  let ?p = "length (w_sessions s)" and ?i = "length (w_session_ws s)" and ?c = "session_config cfgs"
  let ?r = "WithContext r (NewContext (r_Context r) (Some ?p))" and ?s = "session_start sess rest s"
  have "\<exists>u. (\<forall>h. CSRF [] h (session_rw J ?i ?p store ?c w) ?r ?s = Done u) \<and> resp_status u = Some 403"
    using assms
    by (intro CSRF_denied session_rw_contract)
      (simp_all add: session_start_def session_token_def http_simps csrf_submitted_WithContext split: if_splits)
  then show ?thesis unfolding Session_call [OF load] by (auto simp: saveSession_frame [OF w(1)])
qed

text \<open>C27. The example program as it is wired: a form post is answered with 403 before any module sees
  it, unless it submits the CSRF token of the session its cookie opens (of the fresh session, when
  the cookie opens none), whatever the router, the logger and the rate limiter do.\<close>

theorem Example_csrf:
  fixes s :: "('l, 'm) rl_world_scheme"
  assumes "DetectRequestContext r = ContextSSR" "\<not> isSafeMethod (r_Method r)" "resp_status s = None"
    and e: "e = (if header_get (r_Header r) ''X-Request-ID'' = [] then snd (generateID (w_entropy s)) else w_entropy s)"
    and load: "loadSession J store ''broth_session'' r (w_now s) e = Inr (sess, rest)"
    and "GetString sess csrfSessionKey \<noteq> [] \<or> 32 \<le> length rest"
    and "csrf_submitted (csrf_config []) r \<noteq>
      (if GetString sess csrfSessionKey = [] then b64_encode (take 32 rest) else GetString sess csrfSessionKey)"
  shows "\<exists>u. (\<forall>mux. Chain (example_middleware cfg J store lg stack dur L) mux (base_rw fl hj pu) r s = Done u) \<and>
    resp_status u = Some 403"
proof -
  let ?cfgs = "[example_session_config cfg]"
  have n: "CookieName (session_config ?cfgs) = ''broth_session''"
    by (simp add: session_config_def example_session_config_def)
  have inner: "\<exists>u. (\<forall>h. Session J store ?cfgs (CSRF [] h) (status_rw i (base_rw fl hj pu)) r' t = Done u) \<and>
      resp_status u = Some 403"
    if "GetRequestContext (r_Context r') = ContextSSR" "r' = WithContext r c" "resp_status t = None"
      "w_now t = w_now s" "w_entropy t = e" for i r' c and t :: "('l, 'm) rl_world_scheme"
    using assms that
    by (intro Session_CSRF_denied status_rw_contract base.writer_contract_axioms)
      (simp_all add: n loadSession_WithContext csrf_submitted_WithContext http_simps)
  have contextual: "GetRequestContext (set_request_context c (DetectRequestContext r)) = ContextSSR" for c
    using assms(1) by (simp add: GetRequestContext_def set_request_context_def)
  let ?w = "base_rw fl hj pu"
  define rid where "rid = (if header_get (r_Header r) ''X-Request-ID'' = [] then fst (generateID (w_entropy s))
    else header_get (r_Header r) ''X-Request-ID'')"
  define s1 where "s1 = set_header ?w ''X-Request-ID'' rid (s\<lparr>w_entropy := e\<rparr>)"
  have rid: "RequestID h ?w r s = h ?w (WithContext r (set_request_id (r_Context r) rid)) s1" for h
    by (simp add: RequestID_def rid_def s1_def e Let_def split: prod.split)
  let ?c = "set_request_context (set_request_id (r_Context r) rid) (DetectRequestContext r)"
  define i where "i = length (w_status_ws s1)"
  define s2 where "s2 = s1\<lparr>w_status_ws := w_status_ws s1 @ [\<lparr>sw_status = 200, sw_wroteHeader = False\<rparr>]\<rparr>"
  obtain t where t: "SecurityHeaders [] h (status_rw i ?w) (WithContext r ?c) s2 = h (status_rw i ?w) (WithContext r ?c) t"
    "resp_status t = None" "w_now t = w_now s" "w_entropy t = e" for h
  proof -
    from SecurityHeaders_frame [of i fl hj pu "WithContext r ?c" s2] obtain t where
      "\<And>h. SecurityHeaders [] h (status_rw i ?w) (WithContext r ?c) s2 = h (status_rw i ?w) (WithContext r ?c) t"
      "resp_status t = resp_status s2" "w_now t = w_now s2" "w_entropy t = w_entropy s2" by blast
    with assms(3) that show thesis by (simp add: s2_def s1_def base_set_header)
  qed
  obtain u where u: "\<And>h. Session J store ?cfgs (CSRF [] h) (status_rw i ?w) (WithContext r ?c) t = Done u"
    "resp_status u = Some 403"
    using inner [OF _ refl t(2-4), of ?c i] contextual by (auto simp: http_simps)
  have d: "DetectRequestContext (WithContext r c) = DetectRequestContext r"
    "WithContext (WithContext r c) c' = WithContext r c'" for c c'
    by (simp_all add: DetectRequestContext_def WithContext_def)
  show ?thesis
    using u(2)
    by (simp add: example_middleware_def rid d log_Info_def Recovery_def Logger_def ContextDetect_def Let_def t u(1)
      http_simps s2_def [symmetric] i_def [symmetric])
qed

theorem Example_csrf_witness:
  "\<forall>L :: nat rate_lib. \<exists>u. (\<forall>mux. Chain (example_middleware
        \<lparr>sc_Addr = '':8080'', sc_Env = ''production'', sc_LogLevel = ''info'', sc_DatabaseURL = [], sc_SessionKey = [],
         sc_JWTSecret = [], sc_CORSOrigins = ''*''\<rparr> unary_codec plain_store (log_New LevelInfo) [] (\<lambda>_. []) L)
       mux (base_rw True True True)
       ((plain_request ''POST'' ''/greeting/'')\<lparr>r_Form := [(''_csrf_token'', ''guess'')]\<rparr>)
       (example_start\<lparr>w_entropy := replicate 80 7\<rparr>) = Done u) \<and> resp_status u = Some 403"
proof
  fix L :: "nat rate_lib"
  let ?r = "(plain_request ''POST'' ''/greeting/'')\<lparr>r_Form := [(''_csrf_token'', ''guess'')]\<rparr>"
  let ?s = "example_start\<lparr>w_entropy := replicate 80 7\<rparr>"
  have r: "DetectRequestContext ?r = ContextSSR" "\<not> isSafeMethod (r_Method ?r)" "resp_status ?s = None"
    by (simp_all add: DetectRequestContext_def plain_request_def isSafeMethod_def example_start_def header_get_def)
  have e: "replicate 64 7 = (if header_get (r_Header ?r) ''X-Request-ID'' = [] then snd (generateID (w_entropy ?s))
      else w_entropy ?s)"
    by (simp add: generateID_def rand_read_def plain_request_def header_get_def)
  obtain sess where load: "loadSession unary_codec plain_store ''broth_session'' ?r (w_now ?s) (replicate 64 7) =
      Inr (sess, replicate 32 7)" "GetString sess csrfSessionKey = []"
    by (auto simp: loadSession_def newSession_def GenerateID_def rand_read_def plain_request_def GetString_def)
  have "csrf_submitted (csrf_config []) ?r \<noteq> b64_encode (take 32 (replicate 32 7))"
    by (simp add: csrf_submitted_def csrf_config_def FormValue_def) code_simp
  then show "\<exists>u. (\<forall>mux. Chain (example_middleware
        \<lparr>sc_Addr = '':8080'', sc_Env = ''production'', sc_LogLevel = ''info'', sc_DatabaseURL = [], sc_SessionKey = [],
         sc_JWTSecret = [], sc_CORSOrigins = ''*''\<rparr> unary_codec plain_store (log_New LevelInfo) [] (\<lambda>_. []) L)
       mux (base_rw True True True) ?r ?s = Done u) \<and> resp_status u = Some 403"
    by (intro Example_csrf [OF r e load(1)]) (simp_all add: load(2))
qed

end
