(* ===== verification/Db_Tx.thy ===== *)
theory Db_Tx
  imports Context Http Config
begin

text \<open>
  \<open>db/tx.go\<close> and \<open>db/db.go\<close>: transactions with nesting by savepoints, and the connection pool.  The
  server is modelled by what its documentation says of transactions: data changes are kept apart
  until the commit, a failing statement aborts the transaction, \<open>ROLLBACK TO\<close> restores the data of a
  savepoint and keeps it.  \<open>db_faults\<close> are the faults of the next round trips: a statement may fail,
  and a commit may be lost on the way back after it took effect.  One chain of calls is followed;
  \<open>'d\<close> is the contents of the database.
\<close>

section \<open>The server\<close>

datatype fault = NoFault | Fails string | LostReply string

record 'd tx =
  tx_data :: 'd
  tx_savepoints :: "(string \<times> 'd) list"
  tx_aborted :: bool

text \<open>A transaction that has ended is \<open>None\<close>; a \<open>*sql.Tx\<close> is an index.\<close>

record 'd db_state =
  db_committed :: 'd
  db_txs :: "'d tx option list"
  db_globalSpID :: int
  db_faults :: "fault list"
  db_log :: "log_entry list"

definition next_fault :: "'d db_state \<Rightarrow> fault \<times> 'd db_state" where
  "next_fault s = (case db_faults s of [] \<Rightarrow> (NoFault, s) | f # fs \<Rightarrow> (f, s\<lparr>db_faults := fs\<rparr>))"

datatype 'd stmt =
    Savepoint string
  | RollbackTo string
  | ReleaseSavepoint string
  | Query "'d \<Rightarrow> string + 'd"

definition abort :: "'d tx \<Rightarrow> 'd tx" where
  "abort tx = tx\<lparr>tx_aborted := True\<rparr>"

text \<open>A statement inside a transaction; the most recent savepoint of a name is meant.\<close>

definition run_stmt :: "'d stmt \<Rightarrow> 'd tx \<Rightarrow> string option \<times> 'd tx" where
  "run_stmt st tx =
     (case st of
        RollbackTo n \<Rightarrow>
          (case dropWhile (\<lambda>p. fst p \<noteq> n) (tx_savepoints tx) of
             [] \<Rightarrow> (Some ''savepoint does not exist'', abort tx)
           | p # ps \<Rightarrow> (None, tx\<lparr>tx_data := snd p, tx_savepoints := p # ps, tx_aborted := False\<rparr>))
      | Savepoint n \<Rightarrow>
          (if tx_aborted tx then (Some ''current transaction is aborted'', tx)
           else (None, tx\<lparr>tx_savepoints := (n, tx_data tx) # tx_savepoints tx\<rparr>))
      | ReleaseSavepoint n \<Rightarrow>
          (if tx_aborted tx then (Some ''current transaction is aborted'', tx)
           else case dropWhile (\<lambda>p. fst p \<noteq> n) (tx_savepoints tx) of
                  [] \<Rightarrow> (Some ''savepoint does not exist'', abort tx)
                | p # ps \<Rightarrow> (None, tx\<lparr>tx_savepoints := ps\<rparr>))
      | Query f \<Rightarrow>
          (if tx_aborted tx then (Some ''current transaction is aborted'', tx)
           else case f (tx_data tx) of
                  Inl err \<Rightarrow> (Some err, abort tx)
                | Inr d \<Rightarrow> (None, tx\<lparr>tx_data := d\<rparr>)))"

definition tx_done :: string where
  "tx_done = ''sql: transaction has already been committed or rolled back''"

definition open_tx :: "'d db_state \<Rightarrow> nat \<Rightarrow> 'd tx option" where
  "open_tx s i = (if i < length (db_txs s) then db_txs s ! i else None)"

text \<open>\<open>ExecContext\<close> on a transaction and on the pool, where every statement is committed by itself.\<close>

definition tx_Exec :: "nat \<Rightarrow> 'd stmt \<Rightarrow> 'd db_state \<Rightarrow> string option \<times> 'd db_state" where
  "tx_Exec i st s =
     (case open_tx s i of
        None \<Rightarrow> (Some tx_done, s)
      | Some tx \<Rightarrow>
          (case next_fault s of
             (NoFault, s1) \<Rightarrow>
               (let (res, tx') = run_stmt st tx in (res, s1\<lparr>db_txs := (db_txs s1)[i := Some tx']\<rparr>))
           | (Fails err, s1) \<Rightarrow> (Some err, s1\<lparr>db_txs := (db_txs s1)[i := Some (abort tx)]\<rparr>)
           | (LostReply err, s1) \<Rightarrow> (Some err, s1\<lparr>db_txs := (db_txs s1)[i := Some (abort tx)]\<rparr>)))"

definition pool_Exec :: "'d stmt \<Rightarrow> 'd db_state \<Rightarrow> string option \<times> 'd db_state" where
  "pool_Exec st s =
     (case next_fault s of
        (NoFault, s1) \<Rightarrow>
          (let (res, tx) = run_stmt st \<lparr>tx_data = db_committed s1, tx_savepoints = [], tx_aborted = False\<rparr>
           in (res, if res = None then s1\<lparr>db_committed := tx_data tx\<rparr> else s1))
      | (Fails err, s1) \<Rightarrow> (Some err, s1)
      | (LostReply err, s1) \<Rightarrow>
          (Some err, s1\<lparr>db_committed := tx_data (snd (run_stmt st
             \<lparr>tx_data = db_committed s1, tx_savepoints = [], tx_aborted = False\<rparr>))\<rparr>))"

definition conn_Exec :: "conn \<Rightarrow> 'd stmt \<Rightarrow> 'd db_state \<Rightarrow> string option \<times> 'd db_state" where
  "conn_Exec k st s = (case k of SqlTx i \<Rightarrow> tx_Exec i st s | OtherConn _ \<Rightarrow> pool_Exec st s)"

definition BeginTx :: "'d db_state \<Rightarrow> (string + nat) \<times> 'd db_state" where
  "BeginTx s =
     (case next_fault s of
        (NoFault, s1) \<Rightarrow>
          (Inr (length (db_txs s1)),
           s1\<lparr>db_txs := db_txs s1 @
                [Some \<lparr>tx_data = db_committed s1, tx_savepoints = [], tx_aborted = False\<rparr>]\<rparr>)
      | (Fails err, s1) \<Rightarrow> (Inl err, s1)
      | (LostReply err, s1) \<Rightarrow> (Inl err, s1))"

text \<open>\<open>Rollback\<close> and \<open>Commit\<close> end the transaction whatever happens; an aborted one is not committed.\<close>

definition Rollback :: "nat \<Rightarrow> 'd db_state \<Rightarrow> string option \<times> 'd db_state" where
  "Rollback i s =
     (case open_tx s i of
        None \<Rightarrow> (Some tx_done, s)
      | Some tx \<Rightarrow>
          (case next_fault s of
             (NoFault, s1) \<Rightarrow> (None, s1\<lparr>db_txs := (db_txs s1)[i := None]\<rparr>)
           | (Fails err, s1) \<Rightarrow> (Some err, s1\<lparr>db_txs := (db_txs s1)[i := None]\<rparr>)
           | (LostReply err, s1) \<Rightarrow> (Some err, s1\<lparr>db_txs := (db_txs s1)[i := None]\<rparr>)))"

definition Commit :: "nat \<Rightarrow> 'd db_state \<Rightarrow> string option \<times> 'd db_state" where
  "Commit i s =
     (case open_tx s i of
        None \<Rightarrow> (Some tx_done, s)
      | Some tx \<Rightarrow>
          (let (f, s1) = next_fault s;
               s2 = s1\<lparr>db_txs := (db_txs s1)[i := None]\<rparr>
           in if tx_aborted tx then (Some ''pq: Could not complete operation in a failed transaction'', s2)
              else case f of
                     NoFault \<Rightarrow> (None, s2\<lparr>db_committed := tx_data tx\<rparr>)
                   | Fails err \<Rightarrow> (Some err, s2)
                   | LostReply err \<Rightarrow> (Some err, s2\<lparr>db_committed := tx_data tx\<rparr>)))"

section \<open>TxMgr\<close>

type_synonym 'd tx_fn = "go_context \<Rightarrow> 'd db_state \<Rightarrow> (string option \<times> 'd db_state) hres"

definition log_db_error :: "logger \<Rightarrow> string \<Rightarrow> (string \<times> string) list \<Rightarrow> 'd db_state \<Rightarrow> 'd db_state" where
  "log_db_error lg msg attrs s = s\<lparr>db_log := log_record LevelError lg msg attrs (db_log s)\<rparr>"

definition runNewTx :: "logger \<Rightarrow> go_context \<Rightarrow> 'd tx_fn \<Rightarrow> 'd db_state \<Rightarrow> (string option \<times> 'd db_state) hres" where
  "runNewTx lg ctx fn s =
     (case BeginTx s of
        (Inl err, s1) \<Rightarrow> Done (Some (''db: begin tx: '' @ err), s1)
      | (Inr i, s1) \<Rightarrow>
          and_then (fn (contextWithConn ctx (SqlTx i)) s1)
            (\<lambda>(res, s2).
               case res of
                 Some err \<Rightarrow>
                   (case Rollback i s2 of
                      (Some rbErr, s3) \<Rightarrow>
                        Done (Some err, log_db_error lg ''db: rollback failed'' [(''error'', rbErr)] s3)
                    | (None, s3) \<Rightarrow> Done (Some err, s3))
               | None \<Rightarrow>
                   (case Commit i s2 of
                      (Some err, s3) \<Rightarrow> Done (Some (''db: commit: '' @ err), s3)
                    | (None, s3) \<Rightarrow> Done (None, s3))))"

definition runSavepoint :: "logger \<Rightarrow> go_context \<Rightarrow> 'd tx_fn \<Rightarrow> 'd db_state \<Rightarrow> (string option \<times> 'd db_state) hres" where
  "runSavepoint lg ctx fn s =
     (case ctx_value ctx TxContextKey of
        Some (CtxConn k) \<Rightarrow>
          (let n = wrap64 (db_globalSpID s + 1);
               sp = ''sp_'' @ itoa n;
               s0 = s\<lparr>db_globalSpID := n\<rparr>
           in case conn_Exec k (Savepoint sp) s0 of
                (Some err, s1) \<Rightarrow> Done (Some (''db: savepoint '' @ sp @ '': '' @ err), s1)
              | (None, s1) \<Rightarrow>
                  and_then (fn ctx s1)
                    (\<lambda>(res, s2).
                       case res of
                         Some err \<Rightarrow>
                           (case conn_Exec k (RollbackTo sp) s2 of
                              (Some rbErr, s3) \<Rightarrow>
                                Done (Some err, log_db_error lg ''db: rollback savepoint failed''
                                  [(''savepoint'', sp), (''error'', rbErr)] s3)
                            | (None, s3) \<Rightarrow> Done (Some err, s3))
                       | None \<Rightarrow>
                           (case conn_Exec k (ReleaseSavepoint sp) s2 of
                              (Some err, s3) \<Rightarrow> Done (Some (''db: release savepoint '' @ sp @ '': '' @ err), s3)
                            | (None, s3) \<Rightarrow> Done (None, s3))))
      | _ \<Rightarrow> Done (Some ''db: savepoint: no transaction in context'', s))"

definition RunInTxWithOpts :: "logger \<Rightarrow> go_context \<Rightarrow> 'd tx_fn \<Rightarrow> 'd db_state \<Rightarrow> (string option \<times> 'd db_state) hres" where
  "RunInTxWithOpts lg ctx fn s =
     (if ctx_value ctx TxContextKey \<noteq> None then runSavepoint lg ctx fn s else runNewTx lg ctx fn s)"

definition RunInTx :: "logger \<Rightarrow> go_context \<Rightarrow> 'd tx_fn \<Rightarrow> 'd db_state \<Rightarrow> (string option \<times> 'd db_state) hres" where
  "RunInTx lg ctx fn s = RunInTxWithOpts lg ctx fn s"

section \<open>Bodies\<close>

text \<open>
  The functions passed to \<open>RunInTx\<close>, as the shape of code that uses it: queries on the connection of
  the context, sequencing that stops at the first error, early returns, nested transactions whose
  error is passed on, and nested transactions whose error is handled by other code.
\<close>

datatype 'd body =
    Skip
  | Exec "'d \<Rightarrow> string + 'd"
  | Return_error string
  | Seq "'d body" "'d body"
  | Nested "'d body"
  | Try "'d body" "'d body"

fun body_fn :: "logger \<Rightarrow> 'd body \<Rightarrow> 'd tx_fn" where
  "body_fn lg Skip ctx s = Done (None, s)"
| "body_fn lg (Exec f) ctx s = Done (conn_Exec (ConnFromContext ctx (OtherConn 0)) (Query f) s)"
| "body_fn lg (Return_error err) ctx s = Done (Some err, s)"
| "body_fn lg (Seq p q) ctx s =
     and_then (body_fn lg p ctx s)
       (\<lambda>(res, t). case res of Some err \<Rightarrow> Done (Some err, t) | None \<Rightarrow> body_fn lg q ctx t)"
| "body_fn lg (Nested p) ctx s = RunInTx lg ctx (body_fn lg p) s"
| "body_fn lg (Try p q) ctx s =
     and_then (RunInTx lg ctx (body_fn lg p) s)
       (\<lambda>(res, t). case res of Some err \<Rightarrow> body_fn lg q ctx t | None \<Rightarrow> Done (None, t))"

text \<open>The specification: a nested transaction that fails leaves nothing behind.\<close>

fun meaning :: "'d body \<Rightarrow> 'd \<Rightarrow> string option \<times> 'd" where
  "meaning Skip d = (None, d)"
| "meaning (Exec f) d = (case f d of Inl err \<Rightarrow> (Some err, d) | Inr d' \<Rightarrow> (None, d'))"
| "meaning (Return_error err) d = (Some err, d)"
| "meaning (Seq p q) d = (case meaning p d of (Some err, d') \<Rightarrow> (Some err, d') | (None, d') \<Rightarrow> meaning q d')"
| "meaning (Nested p) d = (case meaning p d of (Some err, _) \<Rightarrow> (Some err, d) | (None, d') \<Rightarrow> (None, d'))"
| "meaning (Try p q) d = (case meaning p d of (Some err, _) \<Rightarrow> meaning q d | (None, d') \<Rightarrow> (None, d'))"

text \<open>The data a body may end with successfully when any nested transaction may fail.\<close>

fun outcomes :: "'d body \<Rightarrow> 'd \<Rightarrow> 'd list" where
  "outcomes Skip d = [d]"
| "outcomes (Exec f) d = (case f d of Inl err \<Rightarrow> [] | Inr d' \<Rightarrow> [d'])"
| "outcomes (Return_error err) d = []"
| "outcomes (Seq p q) d = concat (map (outcomes q) (outcomes p d))"
| "outcomes (Nested p) d = outcomes p d"
| "outcomes (Try p q) d = outcomes p d @ outcomes q d"

text \<open>The savepoints a body may open.\<close>

fun savepoints :: "'d body \<Rightarrow> nat" where
  "savepoints (Seq p q) = savepoints p + savepoints q"
| "savepoints (Nested p) = Suc (savepoints p)"
| "savepoints (Try p q) = Suc (savepoints p + savepoints q)"
| "savepoints _ = 0"

section \<open>The pool\<close>

record db_config =
  dbc_URL :: string
  dbc_MaxOpenConns :: int
  dbc_MaxIdleConns :: int
  dbc_ConnMaxLifetime :: duration
  dbc_ConnMaxIdleTime :: duration

definition DefaultConfig :: "string \<Rightarrow> db_config" where
  "DefaultConfig url =
     \<lparr>dbc_URL = url, dbc_MaxOpenConns = 25, dbc_MaxIdleConns = 5, dbc_ConnMaxLifetime = 30 * minute,
      dbc_ConnMaxIdleTime = 5 * minute\<rparr>"

text \<open>The parameters of \<open>database/sql\<close>: opening, reaching and closing a pool may fail.\<close>

record sql_lib =
  sql_Open :: "string \<Rightarrow> string \<Rightarrow> string option"
  sql_Ping :: "string \<Rightarrow> string option"
  sql_Close :: "string \<Rightarrow> string option"

record sql_pool =
  pool_dsn :: string
  pool_MaxOpen :: int
  pool_MaxIdle :: int
  pool_MaxLifetime :: duration
  pool_MaxIdleTime :: duration

record database =
  dbs_pool :: sql_pool
  dbs_logger :: logger

text \<open>The result, and whether a pool that was opened has been closed again.\<close>

definition db_Open :: "sql_lib \<Rightarrow> db_config \<Rightarrow> logger \<Rightarrow> (string + database) \<times> bool" where
  "db_Open L cfg lg =
     (case sql_Open L ''postgres'' (dbc_URL cfg) of
        Some err \<Rightarrow> (Inl (''db: open: '' @ err), False)
      | None \<Rightarrow>
          (let pool = \<lparr>pool_dsn = dbc_URL cfg, pool_MaxOpen = dbc_MaxOpenConns cfg,
                 pool_MaxIdle = dbc_MaxIdleConns cfg, pool_MaxLifetime = dbc_ConnMaxLifetime cfg,
                 pool_MaxIdleTime = dbc_ConnMaxIdleTime cfg\<rparr>
           in case sql_Ping L (dbc_URL cfg) of
                Some err \<Rightarrow> (Inl (''db: ping: '' @ err), True)
              | None \<Rightarrow> (Inr \<lparr>dbs_pool = pool, dbs_logger = lg\<rparr>, False)))"

definition MustOpen :: "sql_lib \<Rightarrow> db_config \<Rightarrow> logger \<Rightarrow> database option hres" where
  "MustOpen L cfg lg =
     (case fst (db_Open L cfg lg) of Inl err \<Rightarrow> Panicked err None | Inr d \<Rightarrow> Done (Some d))"

definition db_Close :: "sql_lib \<Rightarrow> database \<Rightarrow> string option" where
  "db_Close L d = sql_Close L (pool_dsn (dbs_pool d))"

definition HealthCheck :: "sql_lib \<Rightarrow> database \<Rightarrow> string option" where
  "HealthCheck L d = map_option (\<lambda>err. ''db: health check: '' @ err) (sql_Ping L (pool_dsn (dbs_pool d)))"

text \<open>An opened database is reachable, and a failed opening leaves no pool open.\<close>

lemma db_Open_spec:
  "case db_Open L cfg lg of
     (Inr d, closed) \<Rightarrow> HealthCheck L d = None \<and> \<not> closed
   | (Inl err, closed) \<Rightarrow> closed \<longleftrightarrow> sql_Open L ''postgres'' (dbc_URL cfg) = None"
  by (auto simp: db_Open_def HealthCheck_def Let_def split: option.splits)

section \<open>Lemmas\<close>

lemma itoa_inj: "0 \<le> m \<Longrightarrow> 0 \<le> n \<Longrightarrow> itoa m = itoa n \<longleftrightarrow> m = n"
proof
  assume "0 \<le> m" "0 \<le> n" "itoa m = itoa n"
  then have "nat_digits (nat m) = nat_digits (nat n)" by (simp add: itoa_def)
  then have "nat m = nat n" by (metis digits_val_nat_digits option.inject)
  with \<open>0 \<le> m\<close> \<open>0 \<le> n\<close> show "m = n" by simp
qed simp

text \<open>What a round trip leaves alone, and what may have become of transaction \<open>i\<close>.\<close>

definition tx_frame :: "nat \<Rightarrow> 'd db_state \<Rightarrow> 'd db_state \<Rightarrow> bool" where
  "tx_frame i s t \<longleftrightarrow>
     db_committed t = db_committed s \<and> length (db_txs t) = length (db_txs s) \<and>
     (\<forall>j. j \<noteq> i \<longrightarrow> open_tx t j = open_tx s j) \<and> (db_faults s = [] \<longrightarrow> db_faults t = []) \<and>
     set (db_faults t) \<subseteq> set (db_faults s) \<and> db_globalSpID s \<le> db_globalSpID t"

lemma tx_frame_refl [simp]: "tx_frame i s s"
  by (simp add: tx_frame_def)

lemma tx_frame_trans: "tx_frame i s t \<Longrightarrow> tx_frame i t u \<Longrightarrow> tx_frame i s u"
  unfolding tx_frame_def by (metis order_trans)

lemma next_fault_frame:
  "next_fault s = (f, t) \<Longrightarrow> db_committed t = db_committed s \<and> db_txs t = db_txs s \<and> db_globalSpID t = db_globalSpID s \<and>
     (db_faults s = [] \<longrightarrow> f = NoFault \<and> db_faults t = []) \<and> set (db_faults t) \<subseteq> set (db_faults s) \<and>
     (f \<noteq> NoFault \<longrightarrow> f \<in> set (db_faults s))"
  by (auto simp: next_fault_def split: list.splits)

lemma tx_Exec_cases:
  assumes "open_tx s i = Some tx"
  obtains r t tx' where "tx_Exec i st s = (r, t)" "open_tx t i = Some tx'" "tx_frame i s t"
    "db_globalSpID t = db_globalSpID s"
    "(r, tx') = run_stmt st tx \<or> db_faults s \<noteq> [] \<and> r \<noteq> None \<and> tx' = abort tx"
proof -
  obtain f s1 where nf: "next_fault s = (f, s1)" by fastforce
  obtain r tx' where rs: "run_stmt st tx = (r, tx')" by fastforce
  have i: "i < length (db_txs s)" using assms by (auto simp: open_tx_def split: if_splits)
  note f = next_fault_frame [OF nf]
  show thesis
  proof (cases f)
    case NoFault
    have "tx_Exec i st s = (r, s1\<lparr>db_txs := (db_txs s1)[i := Some tx']\<rparr>)"
      using assms nf rs NoFault by (simp add: tx_Exec_def)
    then show thesis
      by (rule that) (use f i rs in \<open>auto simp: open_tx_def tx_frame_def\<close>)
  next
    case (Fails err)
    have "tx_Exec i st s = (Some err, s1\<lparr>db_txs := (db_txs s1)[i := Some (abort tx)]\<rparr>)"
      using assms nf Fails by (simp add: tx_Exec_def)
    then show thesis
      by (rule that) (use f i Fails in \<open>auto simp: open_tx_def tx_frame_def\<close>)
  next
    case (LostReply err)
    have "tx_Exec i st s = (Some err, s1\<lparr>db_txs := (db_txs s1)[i := Some (abort tx)]\<rparr>)"
      using assms nf LostReply by (simp add: tx_Exec_def)
    then show thesis
      by (rule that) (use f i LostReply in \<open>auto simp: open_tx_def tx_frame_def\<close>)
  qed
qed

text \<open>Savepoints a piece of code adds carry numbers it drew.\<close>

definition new_savepoints :: "'d db_state \<Rightarrow> 'd db_state \<Rightarrow> 'd tx \<Rightarrow> 'd tx \<Rightarrow> bool" where
  "new_savepoints s t tx tx' \<longleftrightarrow>
     (\<exists>extra. tx_savepoints tx' = extra @ tx_savepoints tx \<and>
        (\<forall>p \<in> set extra. \<exists>k. fst p = ''sp_'' @ itoa k \<and> db_globalSpID s < k \<and> k \<le> db_globalSpID t))"

lemma new_savepoints_same [simp]: "tx_savepoints tx' = tx_savepoints tx \<Longrightarrow> new_savepoints s t tx tx'"
  by (simp add: new_savepoints_def)

lemma new_savepoints_trans:
  assumes "new_savepoints s t tx tx'" "new_savepoints t u tx' tx''" "db_globalSpID s \<le> db_globalSpID t"
    "db_globalSpID t \<le> db_globalSpID u"
  shows "new_savepoints s u tx tx''"
proof -
  from assms(1) obtain e1 where e1: "tx_savepoints tx' = e1 @ tx_savepoints tx"
    "\<forall>p \<in> set e1. \<exists>k. fst p = ''sp_'' @ itoa k \<and> db_globalSpID s < k \<and> k \<le> db_globalSpID t"
    unfolding new_savepoints_def by blast
  from assms(2) obtain e2 where e2: "tx_savepoints tx'' = e2 @ tx_savepoints tx'"
    "\<forall>p \<in> set e2. \<exists>k. fst p = ''sp_'' @ itoa k \<and> db_globalSpID t < k \<and> k \<le> db_globalSpID u"
    unfolding new_savepoints_def by blast
  have "\<forall>p \<in> set (e2 @ e1). \<exists>k. fst p = ''sp_'' @ itoa k \<and> db_globalSpID s < k \<and> k \<le> db_globalSpID u"
    using e1(2) e2(2) assms(3,4) by fastforce
  with e1(1) e2(1) show ?thesis unfolding new_savepoints_def by (intro exI [of _ "e2 @ e1"]) simp
qed

text \<open>
  The guarantee of a function run inside transaction \<open>i\<close>: \<open>outs\<close> are the data it may leave when it
  succeeds, \<open>m\<close> what it does when nothing fails; \<open>n\<close> bounds the savepoints it opens.
\<close>

definition guarantee ::
    "nat \<Rightarrow> nat \<Rightarrow> 'd set \<Rightarrow> string option \<times> 'd \<Rightarrow> 'd db_state \<Rightarrow> 'd tx \<Rightarrow>
     string option \<Rightarrow> 'd db_state \<Rightarrow> 'd tx \<Rightarrow> bool"
where
  "guarantee i n outs m s tx r t tx' \<longleftrightarrow>
     open_tx t i = Some tx' \<and> tx_frame i s t \<and> db_globalSpID t \<le> db_globalSpID s + int n \<and>
     new_savepoints s t tx tx' \<and>
     (r = None \<and> \<not> tx_aborted tx' \<longrightarrow> \<not> tx_aborted tx \<and> tx_data tx' \<in> outs) \<and>
     (db_faults s = [] \<and> \<not> tx_aborted tx \<longrightarrow>
        r = fst m \<and> (r = None \<longrightarrow> \<not> tx_aborted tx' \<and> tx_data tx' = snd m))"

definition ready :: "nat \<Rightarrow> nat \<Rightarrow> 'd db_state \<Rightarrow> 'd tx \<Rightarrow> bool" where
  "ready i n s tx \<longleftrightarrow> open_tx s i = Some tx \<and> 0 \<le> db_globalSpID s \<and> db_globalSpID s + int n \<le> max_int64"

lemma dropWhile_own:
  "(\<forall>p \<in> set extra. fst p \<noteq> n) \<Longrightarrow> dropWhile (\<lambda>p. fst p \<noteq> n) (extra @ (n, d) # ps) = (n, d) # ps"
  by (induction extra) auto

text \<open>
  Savepoint \<open>sp\<close>, set in transaction \<open>i\<close> of \<open>s\<close>, is still the one a statement on \<open>sp\<close> finds in \<open>s2\<close>, and
  whatever such a statement leaves of the savepoints is accounted for.
\<close>

definition sp_open :: "nat \<Rightarrow> nat \<Rightarrow> string \<Rightarrow> 'd db_state \<Rightarrow> 'd tx \<Rightarrow> 'd db_state \<Rightarrow> 'd tx \<Rightarrow> bool" where
  "sp_open i n sp s tx s2 tx2 \<longleftrightarrow>
     open_tx s2 i = Some tx2 \<and> tx_frame i s s2 \<and> db_globalSpID s2 \<le> db_globalSpID s + int (Suc n) \<and>
     dropWhile (\<lambda>p. fst p \<noteq> sp) (tx_savepoints tx2) = (sp, tx_data tx) # tx_savepoints tx \<and>
     new_savepoints s s2 tx tx2 \<and> new_savepoints s s2 tx (tx2\<lparr>tx_savepoints := (sp, tx_data tx) # tx_savepoints tx\<rparr>)"

lemma new_savepoints_cong:
  "new_savepoints s t tx tx' \<Longrightarrow> tx_savepoints tx'' = tx_savepoints tx' \<Longrightarrow> db_globalSpID t' = db_globalSpID t \<Longrightarrow>
   new_savepoints s t' tx tx''"
  by (simp add: new_savepoints_def)

lemma sp_open_after:
  fixes s :: "'d db_state"
  assumes r: "ready i (Suc n) s tx" and sp: "sp = ''sp_'' @ itoa (db_globalSpID s + 1)"
    and s1: "tx_frame i s s1" "db_globalSpID s1 = db_globalSpID s + 1"
    and g: "guarantee i n outs m s1 (tx\<lparr>tx_savepoints := (sp, tx_data tx) # tx_savepoints tx\<rparr>) r2 s2 tx2"
  shows "sp_open i n sp s tx s2 tx2"
proof -
  let ?k = "db_globalSpID s + 1"
  note g = g [unfolded guarantee_def]
  have f2: "tx_frame i s s2" using g tx_frame_trans [OF s1(1)] by blast
  have k2: "?k \<le> db_globalSpID s2" using g s1(2) by (simp add: tx_frame_def)
  from g obtain extra where ex: "tx_savepoints tx2 = extra @ (sp, tx_data tx) # tx_savepoints tx"
    "\<forall>p \<in> set extra. \<exists>k. fst p = ''sp_'' @ itoa k \<and> ?k < k \<and> k \<le> db_globalSpID s2"
    unfolding new_savepoints_def s1(2) by auto
  have own: "\<forall>p \<in> set extra. fst p \<noteq> sp"
  proof
    fix p assume "p \<in> set extra"
    with ex(2) obtain k where "fst p = ''sp_'' @ itoa k" "?k < k" by blast
    moreover have "0 \<le> ?k" using r by (simp add: ready_def)
    ultimately show "fst p \<noteq> sp" using itoa_inj [of ?k k] by (simp add: sp)
  qed
  have "dropWhile (\<lambda>p. fst p \<noteq> sp) (tx_savepoints tx2) = (sp, tx_data tx) # tx_savepoints tx"
    unfolding ex(1) by (rule dropWhile_own [OF own])
  moreover have "new_savepoints s s2 tx tx2"
    unfolding new_savepoints_def by (rule exI [of _ "extra @ [(sp, tx_data tx)]"]) (use ex k2 sp in fastforce)
  moreover have "new_savepoints s s2 tx (tx2\<lparr>tx_savepoints := (sp, tx_data tx) # tx_savepoints tx\<rparr>)"
    unfolding new_savepoints_def by (rule exI [of _ "[(sp, tx_data tx)]"]) (use k2 sp in auto)
  ultimately show ?thesis using g f2 s1(2) by (simp add: sp_open_def)
qed

text \<open>A statement on the savepoint, and what \<open>guarantee\<close> asks of the state after it.\<close>

definition sp_left :: "nat \<Rightarrow> nat \<Rightarrow> 'd db_state \<Rightarrow> 'd tx \<Rightarrow> 'd db_state \<Rightarrow> 'd tx \<Rightarrow> bool" where
  "sp_left i n s tx t tx' \<longleftrightarrow>
     open_tx t i = Some tx' \<and> tx_frame i s t \<and> db_globalSpID t \<le> db_globalSpID s + int (Suc n) \<and> new_savepoints s t tx tx'"

lemma sp_left_log: "sp_left i n s tx t tx' \<Longrightarrow> sp_left i n s tx (log_db_error lg msg attrs t) tx'"
proof -
  have "open_tx (log_db_error lg msg attrs t) j = open_tx t j" for j by (simp add: log_db_error_def open_tx_def)
  then show "sp_left i n s tx t tx' \<Longrightarrow> sp_left i n s tx (log_db_error lg msg attrs t) tx'"
    by (simp add: sp_left_def log_db_error_def tx_frame_def new_savepoints_def)
qed

lemma sp_rollback:
  assumes "sp_open i n sp s tx s2 tx2" "tx_Exec i (RollbackTo sp) s2 = (r3, s3)"
  shows "\<exists>tx3. sp_left i n s tx s3 tx3 \<and> (tx_aborted tx3 \<and> db_faults s \<noteq> [] \<or> \<not> tx_aborted tx3 \<and> tx_data tx3 = tx_data tx)"
proof -
  note o = assms(1) [unfolded sp_open_def]
  from o have "open_tx s2 i = Some tx2" by blast
  then obtain r t tx3 where e: "tx_Exec i (RollbackTo sp) s2 = (r, t)" "open_tx t i = Some tx3" "tx_frame i s2 t"
    "db_globalSpID t = db_globalSpID s2"
    "(r, tx3) = run_stmt (RollbackTo sp) tx2 \<or> db_faults s2 \<noteq> [] \<and> r \<noteq> None \<and> tx3 = abort tx2"
    by (rule tx_Exec_cases)
  have t: "t = s3" using e(1) assms(2) by simp
  have faults: "db_faults s2 \<noteq> [] \<longrightarrow> db_faults s \<noteq> []" using o by (auto simp: tx_frame_def)
  have sp: "tx_savepoints tx3 = tx_savepoints tx2 \<and> tx_aborted tx3 \<and> db_faults s2 \<noteq> [] \<or>
      tx_savepoints tx3 = (sp, tx_data tx) # tx_savepoints tx \<and> \<not> tx_aborted tx3 \<and> tx_data tx3 = tx_data tx"
    using e(5) o by (auto simp: run_stmt_def abort_def)
  then have "new_savepoints s s3 tx tx3"
    using o e(4) new_savepoints_cong [of s s2 tx _ tx3 s3] by (auto simp: t)
  with o e sp faults tx_frame_trans [of i s s2 s3] show ?thesis
    by (intro exI [of _ tx3]) (auto simp: sp_left_def t)
qed

lemma sp_release:
  assumes "sp_open i n sp s tx s2 tx2" "tx_Exec i (ReleaseSavepoint sp) s2 = (r3, s3)"
  shows "\<exists>tx3. sp_left i n s tx s3 tx3 \<and>
    (r3 \<noteq> None \<and> tx_aborted tx3 \<and> (tx_aborted tx2 \<or> db_faults s \<noteq> []) \<or>
     r3 = None \<and> \<not> tx_aborted tx2 \<and> \<not> tx_aborted tx3 \<and> tx_data tx3 = tx_data tx2)"
proof -
  note o = assms(1) [unfolded sp_open_def]
  from o have "open_tx s2 i = Some tx2" by blast
  then obtain r t tx3 where e: "tx_Exec i (ReleaseSavepoint sp) s2 = (r, t)" "open_tx t i = Some tx3" "tx_frame i s2 t"
    "db_globalSpID t = db_globalSpID s2"
    "(r, tx3) = run_stmt (ReleaseSavepoint sp) tx2 \<or> db_faults s2 \<noteq> [] \<and> r \<noteq> None \<and> tx3 = abort tx2"
    by (rule tx_Exec_cases)
  have t: "t = s3" "r = r3" using e(1) assms(2) by simp_all
  have faults: "db_faults s2 \<noteq> [] \<longrightarrow> db_faults s \<noteq> []" using o by (auto simp: tx_frame_def)
  have sp: "tx_savepoints tx3 = tx_savepoints tx2 \<and> r3 \<noteq> None \<and> tx_aborted tx3 \<and> (tx_aborted tx2 \<or> db_faults s2 \<noteq> []) \<or>
      tx_savepoints tx3 = tx_savepoints tx \<and> r3 = None \<and> \<not> tx_aborted tx2 \<and> \<not> tx_aborted tx3 \<and> tx_data tx3 = tx_data tx2"
    using e(5) o by (auto simp: run_stmt_def abort_def t split: if_splits)
  then have "new_savepoints s s3 tx tx3"
    using o e(4) new_savepoints_cong [of s s2 tx tx2 tx3 s3] by (auto simp: t)
  with o e sp faults tx_frame_trans [of i s s2 s3] show ?thesis
    by (intro exI [of _ tx3]) (auto simp: sp_left_def t)
qed

text \<open>
  A nested transaction: what it does on success is what the function did, and after an error the
  data is as before, or the whole transaction is aborted.
\<close>

definition nested_meaning :: "('d \<Rightarrow> string option \<times> 'd) \<Rightarrow> 'd \<Rightarrow> string option \<times> 'd" where
  "nested_meaning m d = (case m d of (Some err, _) \<Rightarrow> (Some err, d) | (None, d') \<Rightarrow> (None, d'))"

definition nested_guarantee ::
    "nat \<Rightarrow> nat \<Rightarrow> 'd set \<Rightarrow> ('d \<Rightarrow> string option \<times> 'd) \<Rightarrow> 'd db_state \<Rightarrow> 'd tx \<Rightarrow>
     string option \<Rightarrow> 'd db_state \<Rightarrow> 'd tx \<Rightarrow> bool"
where
  "nested_guarantee i n outs m s tx r t tx' \<longleftrightarrow>
     guarantee i (Suc n) outs (nested_meaning m (tx_data tx)) s tx r t tx' \<and>
     (r \<noteq> None \<longrightarrow> tx_aborted tx' \<or> \<not> tx_aborted tx \<and> tx_data tx' = tx_data tx) \<and>
     (r \<noteq> None \<and> db_faults s = [] \<and> \<not> tx_aborted tx \<longrightarrow> \<not> tx_aborted tx')"

lemma nested_failed:
  assumes "sp_left i n s tx t tx'" "\<not> tx_aborted tx" "db_faults s = [] \<longrightarrow> Some err = fst (m (tx_data tx))"
    "tx_aborted tx' \<and> db_faults s \<noteq> [] \<or> \<not> tx_aborted tx' \<and> tx_data tx' = tx_data tx"
  shows "nested_guarantee i n outs m s tx (Some err) t tx'"
  using assms by (auto simp: nested_guarantee_def nested_meaning_def guarantee_def sp_left_def split: prod.split option.split)

lemma nested_released:
  assumes "sp_left i n s tx t tx'" "\<not> tx_aborted tx" "\<not> tx_aborted tx2 \<longrightarrow> tx_data tx2 \<in> outs"
    "db_faults s = [] \<longrightarrow> fst (m (tx_data tx)) = None \<and> \<not> tx_aborted tx2 \<and> tx_data tx2 = snd (m (tx_data tx))"
    "r \<noteq> None \<and> tx_aborted tx' \<and> (tx_aborted tx2 \<or> db_faults s \<noteq> []) \<or>
     r = None \<and> \<not> tx_aborted tx2 \<and> \<not> tx_aborted tx' \<and> tx_data tx' = tx_data tx2"
  shows "nested_guarantee i n outs m s tx (map_option f r) t tx'"
  using assms by (auto simp: nested_guarantee_def nested_meaning_def guarantee_def sp_left_def split: prod.split option.split)

text \<open>Setting the savepoint.\<close>

lemma sp_set:
  assumes "ready i (Suc n) s tx" "sp = ''sp_'' @ itoa (db_globalSpID s + 1)"
  obtains r s1 tx1 where "tx_Exec i (Savepoint sp) (s\<lparr>db_globalSpID := db_globalSpID s + 1\<rparr>) = (r, s1)"
    "tx_frame i s s1" "db_globalSpID s1 = db_globalSpID s + 1" "open_tx s1 i = Some tx1"
    "r \<noteq> None \<and> tx_aborted tx1 \<and> tx_savepoints tx1 = tx_savepoints tx \<and> (db_faults s \<noteq> [] \<or> tx_aborted tx) \<or>
     r = None \<and> \<not> tx_aborted tx \<and> tx1 = tx\<lparr>tx_savepoints := (sp, tx_data tx) # tx_savepoints tx\<rparr>"
proof -
  let ?s0 = "s\<lparr>db_globalSpID := db_globalSpID s + 1\<rparr>"
  have "open_tx ?s0 i = Some tx" using assms(1) by (simp add: ready_def open_tx_def split: if_splits)
  then obtain r s1 tx1 where e: "tx_Exec i (Savepoint sp) ?s0 = (r, s1)" "open_tx s1 i = Some tx1"
    "tx_frame i ?s0 s1" "db_globalSpID s1 = db_globalSpID ?s0"
    "(r, tx1) = run_stmt (Savepoint sp) tx \<or> db_faults ?s0 \<noteq> [] \<and> r \<noteq> None \<and> tx1 = abort tx"
    by (rule tx_Exec_cases)
  have "tx_frame i s ?s0" by (simp add: tx_frame_def open_tx_def)
  with e(3) have "tx_frame i s s1" by (metis tx_frame_trans)
  moreover have "r \<noteq> None \<and> tx_aborted tx1 \<and> tx_savepoints tx1 = tx_savepoints tx \<and> (db_faults s \<noteq> [] \<or> tx_aborted tx) \<or>
     r = None \<and> \<not> tx_aborted tx \<and> tx1 = tx\<lparr>tx_savepoints := (sp, tx_data tx) # tx_savepoints tx\<rparr>"
    using e(5) by (auto simp: run_stmt_def abort_def split: if_splits)
  ultimately show thesis using that e(1,2,4) by simp
qed

lemma conn_Exec_tx: "conn_Exec (SqlTx i) = tx_Exec i"
  by (simp add: conn_Exec_def fun_eq_iff)

lemma runSavepoint_eq:
  assumes "ctx_value ctx TxContextKey = Some (CtxConn (SqlTx i))" "wrap64 (db_globalSpID s + 1) = db_globalSpID s + 1"
    "sp = ''sp_'' @ itoa (db_globalSpID s + 1)"
  shows "runSavepoint lg ctx fn s =
    (case tx_Exec i (Savepoint sp) (s\<lparr>db_globalSpID := db_globalSpID s + 1\<rparr>) of
       (Some err, s1) \<Rightarrow> Done (Some (''db: savepoint '' @ sp @ '': '' @ err), s1)
     | (None, s1) \<Rightarrow>
         and_then (fn ctx s1)
           (\<lambda>(res, s2).
              case res of
                Some err \<Rightarrow>
                  (case tx_Exec i (RollbackTo sp) s2 of
                     (Some rbErr, s3) \<Rightarrow>
                       Done (Some err, log_db_error lg ''db: rollback savepoint failed'' [(''savepoint'', sp), (''error'', rbErr)] s3)
                   | (None, s3) \<Rightarrow> Done (Some err, s3))
              | None \<Rightarrow>
                  (case tx_Exec i (ReleaseSavepoint sp) s2 of
                     (Some err, s3) \<Rightarrow> Done (Some (''db: release savepoint '' @ sp @ '': '' @ err), s3)
                   | (None, s3) \<Rightarrow> Done (None, s3))))"
  unfolding runSavepoint_def Let_def assms(1,2) assms(3) [symmetric] conn_Exec_tx option.case ctx_val.case ..

lemma runSavepoint_guarantee:
  fixes s :: "'d db_state"
  assumes ctx: "ctx_value ctx TxContextKey = Some (CtxConn (SqlTx i))" and r: "ready i (Suc n) s tx"
    and fn: "\<And>s tx. ready i n s tx \<Longrightarrow> \<exists>r t tx'. fn ctx s = Done (r, t) \<and> guarantee i n (outs (tx_data tx)) (m (tx_data tx)) s tx r t tx'"
  shows "\<exists>r t tx'. runSavepoint lg ctx fn s = Done (r, t) \<and> nested_guarantee i n (outs (tx_data tx)) m s tx r t tx'"
proof -
  define sp where "sp = ''sp_'' @ itoa (db_globalSpID s + 1)"
  have w: "wrap64 (db_globalSpID s + 1) = db_globalSpID s + 1"
    using r by (intro wrap64_id) (simp add: ready_def in_int64_def min_int64_def)
  obtain r1 s1 tx1 where e1: "tx_Exec i (Savepoint sp) (s\<lparr>db_globalSpID := db_globalSpID s + 1\<rparr>) = (r1, s1)"
    "tx_frame i s s1" "db_globalSpID s1 = db_globalSpID s + 1" "open_tx s1 i = Some tx1"
    "r1 \<noteq> None \<and> tx_aborted tx1 \<and> tx_savepoints tx1 = tx_savepoints tx \<and> (db_faults s \<noteq> [] \<or> tx_aborted tx) \<or>
     r1 = None \<and> \<not> tx_aborted tx \<and> tx1 = tx\<lparr>tx_savepoints := (sp, tx_data tx) # tx_savepoints tx\<rparr>"
    by (rule sp_set [OF r sp_def])
  note unfolds = runSavepoint_eq [OF ctx w sp_def] e1(1)
  show ?thesis
  proof (cases r1)
    case (Some err)
    have "runSavepoint lg ctx fn s = Done (Some (''db: savepoint '' @ sp @ '': '' @ err), s1)"
      by (simp add: unfolds Some)
    moreover have "nested_guarantee i n (outs (tx_data tx)) m s tx (Some (''db: savepoint '' @ sp @ '': '' @ err)) s1 tx1"
      using e1(2-5) Some by (auto simp: nested_guarantee_def guarantee_def)
    ultimately show ?thesis by blast
  next
    case None
    with e1(5) have tx1: "\<not> tx_aborted tx" "tx1 = tx\<lparr>tx_savepoints := (sp, tx_data tx) # tx_savepoints tx\<rparr>" by auto
    have "ready i n s1 tx1" using r e1(3,4) by (simp add: ready_def)
    from fn [OF this] obtain r2 s2 tx2 where b: "fn ctx s1 = Done (r2, s2)"
      "guarantee i n (outs (tx_data tx)) (m (tx_data tx)) s1 tx1 r2 s2 tx2" by (auto simp: tx1(2))
    note open2 = sp_open_after [OF r sp_def e1(2,3) b(2) [unfolded tx1(2)]]
    have spec: "db_faults s = [] \<longrightarrow> r2 = fst (m (tx_data tx)) \<and> (r2 = None \<longrightarrow> \<not> tx_aborted tx2 \<and> tx_data tx2 = snd (m (tx_data tx)))"
      "r2 = None \<and> \<not> tx_aborted tx2 \<longrightarrow> tx_data tx2 \<in> outs (tx_data tx)"
      using b(2) e1(2) tx1 by (simp_all add: guarantee_def tx_frame_def)
    show ?thesis
    proof (cases r2)
      case (Some err)
      obtain r3 s3 where e3: "tx_Exec i (RollbackTo sp) s2 = (r3, s3)" by fastforce
      define s4 where "s4 = (case r3 of None \<Rightarrow> s3 | Some rbErr \<Rightarrow>
        log_db_error lg ''db: rollback savepoint failed'' [(''savepoint'', sp), (''error'', rbErr)] s3)"
      from sp_rollback [OF open2 e3] obtain tx3 where tx3: "sp_left i n s tx s3 tx3"
        "tx_aborted tx3 \<and> db_faults s \<noteq> [] \<or> \<not> tx_aborted tx3 \<and> tx_data tx3 = tx_data tx" by blast
      have left: "sp_left i n s tx s4 tx3" using tx3(1) sp_left_log by (cases r3) (simp_all add: s4_def)
      have "runSavepoint lg ctx fn s = Done (Some err, s4)"
        by (cases r3) (simp_all add: unfolds None b(1) Some e3 s4_def)
      with nested_failed [OF left tx1(1) _ tx3(2)] spec(1) Some show ?thesis by auto
    next
      case none2: None
      obtain r3 s3 where e3: "tx_Exec i (ReleaseSavepoint sp) s2 = (r3, s3)" by fastforce
      from sp_release [OF open2 e3] obtain tx3 where tx3: "sp_left i n s tx s3 tx3"
        "r3 \<noteq> None \<and> tx_aborted tx3 \<and> (tx_aborted tx2 \<or> db_faults s \<noteq> []) \<or>
         r3 = None \<and> \<not> tx_aborted tx2 \<and> \<not> tx_aborted tx3 \<and> tx_data tx3 = tx_data tx2" by blast
      have "runSavepoint lg ctx fn s = Done (map_option (\<lambda>err. ''db: release savepoint '' @ sp @ '': '' @ err) r3, s3)"
        by (cases r3) (simp_all add: unfolds None b(1) none2 e3)
      with nested_released [OF tx3(1) tx1(1) _ _ tx3(2), where m = m] spec none2 show ?thesis by auto
    qed
  qed
qed

lemma ready_after:
  assumes "guarantee i n outs m s tx r t tx'" "ready i (n + n') s tx"
  shows "ready i n' t tx'"
  using assms by (simp add: guarantee_def ready_def tx_frame_def)

lemma guarantee_trans:
  assumes g1: "guarantee i n1 outs1 m1 s tx r1 t tx1" and g2: "guarantee i n2 outs2 m2 t tx1 r2 u tx2"
    and "r2 = None \<and> \<not> tx_aborted tx2 \<Longrightarrow> \<not> tx_aborted tx1 \<Longrightarrow> tx_data tx2 \<in> outs2 \<Longrightarrow> \<not> tx_aborted tx \<and> tx_data tx2 \<in> outs"
    and "db_faults s = [] \<Longrightarrow> \<not> tx_aborted tx \<Longrightarrow> r2 = fst m \<and> (r2 = None \<longrightarrow> \<not> tx_aborted tx2 \<and> tx_data tx2 = snd m)"
  shows "guarantee i (n1 + n2) outs m s tx r2 u tx2"
proof -
  from g1 have a: "tx_frame i s t" "new_savepoints s t tx tx1" "db_globalSpID t \<le> db_globalSpID s + int n1"
    by (simp_all add: guarantee_def)
  from g2 have b: "tx_frame i t u" "new_savepoints t u tx1 tx2" "db_globalSpID u \<le> db_globalSpID t + int n2"
    "open_tx u i = Some tx2" by (simp_all add: guarantee_def)
  from a(1) b(1) have le: "db_globalSpID s \<le> db_globalSpID t" "db_globalSpID t \<le> db_globalSpID u"
    by (simp_all add: tx_frame_def)
  have "r2 = None \<and> \<not> tx_aborted tx2 \<longrightarrow> \<not> tx_aborted tx \<and> tx_data tx2 \<in> outs"
    using g2 assms(3) unfolding guarantee_def by blast
  moreover have "db_globalSpID u \<le> db_globalSpID s + int (n1 + n2)" using a(3) b(3) by simp
  ultimately show ?thesis
    using b(4) assms(4) tx_frame_trans [OF a(1) b(1)] new_savepoints_trans [OF a(2) b(2) le]
    unfolding guarantee_def by blast
qed

text \<open>The guarantee of a body, one lemma for every way to build one.\<close>

definition body_ok :: "logger \<Rightarrow> go_context \<Rightarrow> nat \<Rightarrow> 'd body \<Rightarrow> bool" where
  "body_ok lg ctx i p \<longleftrightarrow>
     (\<forall>s tx. ready i (savepoints p) s tx \<longrightarrow>
        (\<exists>r t tx'. body_fn lg p ctx s = Done (r, t) \<and>
           guarantee i (savepoints p) (set (outcomes p (tx_data tx))) (meaning p (tx_data tx)) s tx r t tx'))"

lemma body_okD:
  assumes "body_ok lg ctx i p" "ready i (savepoints p) s tx"
  obtains r t tx' where "body_fn lg p ctx s = Done (r, t)"
    "guarantee i (savepoints p) (set (outcomes p (tx_data tx))) (meaning p (tx_data tx)) s tx r t tx'"
  using assms unfolding body_ok_def by blast

lemma ready_less: "ready i n s tx \<Longrightarrow> m \<le> n \<Longrightarrow> ready i m s tx"
  by (simp add: ready_def)

lemma body_ok_Exec:
  assumes "ctx_value ctx TxContextKey = Some (CtxConn (SqlTx i))"
  shows "body_ok lg ctx i (Exec f)"
  unfolding body_ok_def
proof (intro allI impI)
  fix s :: "'a db_state" and tx
  assume ready: "ready i (savepoints (Exec f)) s tx"
  have c: "ConnFromContext ctx (OtherConn 0) = SqlTx i" using assms by (simp add: ConnFromContext_def)
  from ready have "open_tx s i = Some tx" by (simp add: ready_def)
  then obtain r t tx' where e: "tx_Exec i (Query f) s = (r, t)" "open_tx t i = Some tx'" "tx_frame i s t"
    "db_globalSpID t = db_globalSpID s"
    "(r, tx') = run_stmt (Query f) tx \<or> db_faults s \<noteq> [] \<and> r \<noteq> None \<and> tx' = abort tx"
    by (rule tx_Exec_cases)
  from e(5) have "tx_savepoints tx' = tx_savepoints tx"
    by (auto simp: run_stmt_def abort_def split: if_splits sum.splits)
  with e have "guarantee i 0 (set (outcomes (Exec f) (tx_data tx))) (meaning (Exec f) (tx_data tx)) s tx r t tx'"
    by (cases "f (tx_data tx)") (auto simp: guarantee_def run_stmt_def abort_def split: if_splits)
  moreover have "body_fn lg (Exec f) ctx s = Done (r, t)" using c e(1) by (simp add: conn_Exec_def)
  ultimately show "\<exists>r t tx'. body_fn lg (Exec f) ctx s = Done (r, t) \<and>
      guarantee i (savepoints (Exec f)) (set (outcomes (Exec f) (tx_data tx))) (meaning (Exec f) (tx_data tx)) s tx r t tx'"
    unfolding savepoints.simps by blast
qed

lemma body_ok_Seq:
  assumes p: "body_ok lg ctx i p" and q: "body_ok lg ctx i q"
  shows "body_ok lg ctx i (Seq p q)"
  unfolding body_ok_def
proof (intro allI impI)
  fix s :: "'a db_state" and tx
  assume ready: "ready i (savepoints (Seq p q)) s tx"
  let ?goal = "\<lambda>r t tx'. body_fn lg (Seq p q) ctx s = Done (r, t) \<and> guarantee i (savepoints (Seq p q))
      (set (outcomes (Seq p q) (tx_data tx))) (meaning (Seq p q) (tx_data tx)) s tx r t tx'"
  obtain r t tx1 where p': "body_fn lg p ctx s = Done (r, t)"
    "guarantee i (savepoints p) (set (outcomes p (tx_data tx))) (meaning p (tx_data tx)) s tx r t tx1"
    by (rule body_okD [OF p ready_less [OF ready]]) simp
  show "\<exists>r t tx'. ?goal r t tx'"
  proof (cases r)
    case (Some err)
    from p' Some have "?goal r t tx1" by (auto simp: guarantee_def split: prod.split option.split)
    then show ?thesis by blast
  next
    case None
    from ready_after [OF p'(2)] ready have "ready i (savepoints q) t tx1" by simp
    from body_okD [OF q this] obtain r2 u tx2 where q': "body_fn lg q ctx t = Done (r2, u)"
      "guarantee i (savepoints q) (set (outcomes q (tx_data tx1))) (meaning q (tx_data tx1)) t tx1 r2 u tx2" .
    have "guarantee i (savepoints p + savepoints q) (set (outcomes (Seq p q) (tx_data tx)))
        (meaning (Seq p q) (tx_data tx)) s tx r2 u tx2"
    proof (rule guarantee_trans [OF p'(2) q'(2)])
      assume "\<not> tx_aborted tx1" "tx_data tx2 \<in> set (outcomes q (tx_data tx1))"
      with p'(2) None show "\<not> tx_aborted tx \<and> tx_data tx2 \<in> set (outcomes (Seq p q) (tx_data tx))"
        by (auto simp: guarantee_def)
    next
      assume "db_faults s = []" "\<not> tx_aborted tx"
      with p'(2) None have m: "fst (meaning p (tx_data tx)) = None" "\<not> tx_aborted tx1" "tx_data tx1 = snd (meaning p (tx_data tx))"
        "db_faults t = []"
        by (auto simp: guarantee_def tx_frame_def)
      with q'(2) show "r2 = fst (meaning (Seq p q) (tx_data tx)) \<and>
          (r2 = None \<longrightarrow> \<not> tx_aborted tx2 \<and> tx_data tx2 = snd (meaning (Seq p q) (tx_data tx)))"
        by (cases "meaning p (tx_data tx)") (simp add: guarantee_def)
    qed
    with p'(1) q'(1) None show ?thesis by auto
  qed
qed

lemma nested_run:
  assumes "ctx_value ctx TxContextKey = Some (CtxConn (SqlTx i))" "body_ok lg ctx i p" "ready i (Suc (savepoints p)) s tx"
  obtains r t tx' where "RunInTx lg ctx (body_fn lg p) s = Done (r, t)"
    "nested_guarantee i (savepoints p) (set (outcomes p (tx_data tx))) (meaning p) s tx r t tx'"
proof -
  have "\<exists>r t tx'. runSavepoint lg ctx (body_fn lg p) s = Done (r, t) \<and>
      nested_guarantee i (savepoints p) (set (outcomes p (tx_data tx))) (meaning p) s tx r t tx'"
    by (rule runSavepoint_guarantee [OF assms(1,3)]) (use assms(2) in \<open>simp add: body_ok_def\<close>)
  with that assms(1) show thesis by (auto simp: RunInTx_def RunInTxWithOpts_def)
qed

lemma body_ok_Nested:
  assumes "ctx_value ctx TxContextKey = Some (CtxConn (SqlTx i))" "body_ok lg ctx i p"
  shows "body_ok lg ctx i (Nested p)"
  unfolding body_ok_def
proof (intro allI impI)
  fix s :: "'a db_state" and tx
  assume "ready i (savepoints (Nested p)) s tx"
  then have "ready i (Suc (savepoints p)) s tx" by simp
  from nested_run [OF assms this] obtain r t tx' where "RunInTx lg ctx (body_fn lg p) s = Done (r, t)"
    "nested_guarantee i (savepoints p) (set (outcomes p (tx_data tx))) (meaning p) s tx r t tx'" .
  then show "\<exists>r t tx'. body_fn lg (Nested p) ctx s = Done (r, t) \<and> guarantee i (savepoints (Nested p))
      (set (outcomes (Nested p) (tx_data tx))) (meaning (Nested p) (tx_data tx)) s tx r t tx'"
    by (intro exI [of _ r] exI [of _ t] exI [of _ tx']) (simp add: nested_guarantee_def nested_meaning_def)
qed

lemma body_ok_Try:
  assumes ctx: "ctx_value ctx TxContextKey = Some (CtxConn (SqlTx i))" and p: "body_ok lg ctx i p" and q: "body_ok lg ctx i q"
  shows "body_ok lg ctx i (Try p q)"
  unfolding body_ok_def
proof (intro allI impI)
  fix s :: "'a db_state" and tx
  assume ready: "ready i (savepoints (Try p q)) s tx"
  let ?goal = "\<lambda>r t tx'. body_fn lg (Try p q) ctx s = Done (r, t) \<and> guarantee i (savepoints (Try p q))
      (set (outcomes (Try p q) (tx_data tx))) (meaning (Try p q) (tx_data tx)) s tx r t tx'"
  obtain r t tx1 where run: "RunInTx lg ctx (body_fn lg p) s = Done (r, t)"
    and n: "nested_guarantee i (savepoints p) (set (outcomes p (tx_data tx))) (meaning p) s tx r t tx1"
    by (rule nested_run [OF ctx p ready_less [OF ready]]) simp
  from n have g: "guarantee i (Suc (savepoints p)) (set (outcomes p (tx_data tx))) (nested_meaning (meaning p) (tx_data tx)) s tx r t tx1"
    and kept: "r \<noteq> None \<longrightarrow> tx_aborted tx1 \<or> \<not> tx_aborted tx \<and> tx_data tx1 = tx_data tx"
      "r \<noteq> None \<and> db_faults s = [] \<and> \<not> tx_aborted tx \<longrightarrow> \<not> tx_aborted tx1" by (simp_all add: nested_guarantee_def)
  show "\<exists>r t tx'. ?goal r t tx'"
  proof (cases r)
    case None
    with g run have "?goal r t tx1" by (auto simp: guarantee_def nested_meaning_def split: prod.splits option.splits)
    then show ?thesis by blast
  next
    case (Some err)
    from ready_after [OF g] ready have "ready i (savepoints q) t tx1" by simp
    from body_okD [OF q this] obtain r2 u tx2 where q': "body_fn lg q ctx t = Done (r2, u)"
      "guarantee i (savepoints q) (set (outcomes q (tx_data tx1))) (meaning q (tx_data tx1)) t tx1 r2 u tx2" .
    have "guarantee i (Suc (savepoints p) + savepoints q) (set (outcomes (Try p q) (tx_data tx)))
        (meaning (Try p q) (tx_data tx)) s tx r2 u tx2"
    proof (rule guarantee_trans [OF g q'(2)])
      assume "\<not> tx_aborted tx1" "tx_data tx2 \<in> set (outcomes q (tx_data tx1))"
      with kept(1) Some show "\<not> tx_aborted tx \<and> tx_data tx2 \<in> set (outcomes (Try p q) (tx_data tx))" by auto
    next
      assume "db_faults s = []" "\<not> tx_aborted tx"
      with g kept Some have m: "fst (meaning p (tx_data tx)) \<noteq> None" "\<not> tx_aborted tx1" "tx_data tx1 = tx_data tx" "db_faults t = []"
        by (auto simp: guarantee_def tx_frame_def nested_meaning_def split: prod.splits option.splits)
      with q'(2) show "r2 = fst (meaning (Try p q) (tx_data tx)) \<and>
          (r2 = None \<longrightarrow> \<not> tx_aborted tx2 \<and> tx_data tx2 = snd (meaning (Try p q) (tx_data tx)))"
        by (cases "meaning p (tx_data tx)") (auto simp: guarantee_def)
    qed
    with run q'(1) Some show ?thesis by auto
  qed
qed

lemma body_guarantee:
  assumes "ctx_value ctx TxContextKey = Some (CtxConn (SqlTx i))"
  shows "body_ok lg ctx i p"
proof (induction p)
  case (Exec f)
  show ?case by (rule body_ok_Exec [OF assms])
next
  case (Seq p q)
  then show ?case by (rule body_ok_Seq)
next
  case (Nested p)
  then show ?case by (rule body_ok_Nested [OF assms])
next
  case (Try p q)
  then show ?case by (rule body_ok_Try [OF assms])
qed (auto simp: body_ok_def guarantee_def ready_def)

lemma new_transaction_ready:
  assumes "BeginTx s = (Inr i, s1)" "0 \<le> db_globalSpID s" "db_globalSpID s + int n \<le> max_int64"
  shows "ready i n s1 \<lparr>tx_data = db_committed s, tx_savepoints = [], tx_aborted = False\<rparr> \<and>
    i = length (db_txs s) \<and> length (db_txs s1) = Suc i \<and> db_committed s1 = db_committed s \<and>
    (\<forall>j. j \<noteq> i \<longrightarrow> open_tx s1 j = open_tx s j) \<and> set (db_faults s1) \<subseteq> set (db_faults s)"
proof -
  obtain f s0 where nf: "next_fault s = (f, s0)" by fastforce
  from next_fault_frame [OF nf] assms nf show ?thesis
    by (cases f) (auto simp: BeginTx_def ready_def open_tx_def nth_append)
qed

lemma BeginTx_fails: "BeginTx s = (Inl err, s1) \<Longrightarrow> db_committed s1 = db_committed s \<and> db_txs s1 = db_txs s \<and> db_faults s \<noteq> []"
  by (auto simp: BeginTx_def next_fault_def split: list.splits fault.splits)

lemma Rollback_ends:
  assumes "open_tx s i = Some tx" "Rollback i s = (r, t)"
  shows "db_committed t = db_committed s \<and> open_tx t i = None \<and> (\<forall>j. j \<noteq> i \<longrightarrow> open_tx t j = open_tx s j)"
proof -
  obtain f s0 where nf: "next_fault s = (f, s0)" by fastforce
  from next_fault_frame [OF nf] assms nf show ?thesis
    by (cases f) (auto simp: Rollback_def open_tx_def split: if_splits)
qed

lemma Commit_ends:
  assumes "open_tx s i = Some tx" "Commit i s = (r, t)"
  shows "open_tx t i = None \<and> (\<forall>j. j \<noteq> i \<longrightarrow> open_tx t j = open_tx s j) \<and>
    (r = None \<longrightarrow> \<not> tx_aborted tx \<and> db_committed t = tx_data tx) \<and>
    (\<forall>err. r = Some err \<longrightarrow> db_committed t = db_committed s \<or>
       \<not> tx_aborted tx \<and> db_committed t = tx_data tx \<and> LostReply err \<in> set (db_faults s)) \<and>
    (db_faults s = [] \<and> \<not> tx_aborted tx \<longrightarrow> r = None)"
proof -
  obtain f s0 where nf: "next_fault s = (f, s0)" by fastforce
  define s2 where "s2 = s0\<lparr>db_txs := (db_txs s0)[i := None]\<rparr>"
  note f = next_fault_frame [OF nf]
  have i: "i < length (db_txs s)" using assms(1) by (simp add: open_tx_def split: if_splits)
  have o: "open_tx s2 i = None" "\<forall>j. j \<noteq> i \<longrightarrow> open_tx s2 j = open_tx s j" "db_committed s2 = db_committed s"
    using f i by (simp_all add: s2_def open_tx_def)
  have same: "open_tx (s2\<lparr>db_committed := d\<rparr>) j = open_tx s2 j" for d j by (simp add: open_tx_def)
  have C: "Commit i s = (if tx_aborted tx then (Some ''pq: Could not complete operation in a failed transaction'', s2)
              else case f of
                     NoFault \<Rightarrow> (None, s2\<lparr>db_committed := tx_data tx\<rparr>)
                   | Fails err \<Rightarrow> (Some err, s2)
                   | LostReply err \<Rightarrow> (Some err, s2\<lparr>db_committed := tx_data tx\<rparr>))"
    using assms(1) nf by (cases f) (simp_all add: Commit_def Let_def s2_def)
  show ?thesis
  proof (cases "tx_aborted tx")
    case True
    with C assms(2) have "r \<noteq> None" "t = s2" by auto
    with True o show ?thesis by simp
  next
    case False
    with C assms(2) f have "t = s2 \<or> t = s2\<lparr>db_committed := tx_data tx\<rparr>" by (cases f) auto
    then have "open_tx t i = None \<and> (\<forall>j. j \<noteq> i \<longrightarrow> open_tx t j = open_tx s j)" using o same by auto
    moreover have "(r = None \<longrightarrow> db_committed t = tx_data tx) \<and>
      (\<forall>err. r = Some err \<longrightarrow> db_committed t = db_committed s \<or>
        db_committed t = tx_data tx \<and> LostReply err \<in> set (db_faults s)) \<and> (db_faults s = [] \<longrightarrow> r = None)"
      using C False assms(2) f o(3) by (cases f) auto
    ultimately show ?thesis using False by simp
  qed
qed

lemma log_db_error_same [simp]:
  "db_committed (log_db_error lg msg attrs s) = db_committed s" "open_tx (log_db_error lg msg attrs s) i = open_tx s i"
  by (simp_all add: log_db_error_def open_tx_def)

text \<open>The body of a new transaction: its number was free, and nothing else has changed.\<close>

lemma new_tx_body:
  assumes "BeginTx s = (Inr i, s1)" "0 \<le> db_globalSpID s" "db_globalSpID s + int (savepoints p) \<le> max_int64"
  obtains r t tx' where "body_fn lg p (contextWithConn ctx (SqlTx i)) s1 = Done (r, t)" "open_tx t i = Some tx'"
    "open_tx s i = None" "\<forall>j. j \<noteq> i \<longrightarrow> open_tx t j = open_tx s j" "db_committed t = db_committed s"
    "set (db_faults t) \<subseteq> set (db_faults s)"
    "r = None \<and> \<not> tx_aborted tx' \<longrightarrow> tx_data tx' \<in> set (outcomes p (db_committed s))"
    "db_faults s = [] \<longrightarrow> r = fst (meaning p (db_committed s)) \<and>
       (r = None \<longrightarrow> \<not> tx_aborted tx' \<and> tx_data tx' = snd (meaning p (db_committed s)))"
proof -
  let ?tx = "\<lparr>tx_data = db_committed s, tx_savepoints = [], tx_aborted = False\<rparr>"
  note R = new_transaction_ready [OF assms]
  have "ctx_value (contextWithConn ctx (SqlTx i)) TxContextKey = Some (CtxConn (SqlTx i))" by (simp add: contextWithConn_def)
  from body_okD [OF body_guarantee [OF this, where lg = lg] R [THEN conjunct1]] obtain r t tx' where
    b: "body_fn lg p (contextWithConn ctx (SqlTx i)) s1 = Done (r, t)" and
    g: "guarantee i (savepoints p) (set (outcomes p (db_committed s))) (meaning p (db_committed s)) s1 ?tx r t tx'"
    by auto
  have o: "open_tx t i = Some tx'" "tx_frame i s1 t" using g by (simp_all add: guarantee_def)
  have "open_tx s i = None" using R by (simp add: open_tx_def)
  moreover have "\<forall>j. j \<noteq> i \<longrightarrow> open_tx t j = open_tx s j" "db_committed t = db_committed s"
    using o(2) R by (simp_all add: tx_frame_def)
  moreover have "set (db_faults t) \<subseteq> set (db_faults s)" using o(2) R by (auto simp: tx_frame_def)
  moreover have "db_faults s = [] \<longrightarrow> db_faults s1 = []" using R by auto
  ultimately show thesis using that [OF b o(1)] g by (simp add: guarantee_def)
qed

text \<open>The run of a new transaction, by how it ended.\<close>

lemma runNewTx_rollback:
  assumes "BeginTx s = (Inr i, s1)" "fn (contextWithConn ctx (SqlTx i)) s1 = Done (Some err, t)"
    and o: "open_tx t i = Some tx'"
  shows "\<exists>u. runNewTx lg ctx fn s = Done (Some err, u) \<and> db_committed u = db_committed t \<and>
    open_tx u i = None \<and> (\<forall>j. j \<noteq> i \<longrightarrow> open_tx u j = open_tx t j)"
proof -
  obtain rb u where rb: "Rollback i t = (rb, u)" by fastforce
  define u' where "u' = (case rb of None \<Rightarrow> u | Some rbErr \<Rightarrow> log_db_error lg ''db: rollback failed'' [(''error'', rbErr)] u)"
  have "db_committed u' = db_committed u" "open_tx u' j = open_tx u j" for j
    by (simp_all add: u'_def split: option.split)
  moreover have "runNewTx lg ctx fn s = Done (Some err, u')"
    using assms(1,2) rb by (cases rb) (simp_all add: runNewTx_def u'_def)
  ultimately show ?thesis using Rollback_ends [OF o rb] by (intro exI [of _ u']) simp
qed

lemma RunInTx_cases:
  assumes ctx: "ctx_value ctx TxContextKey = None" "0 \<le> db_globalSpID s"
    "db_globalSpID s + int (savepoints p) \<le> max_int64"
  obtains (no_tx) err t where "RunInTx lg ctx (body_fn lg p) s = Done (Some err, t)"
      "db_committed t = db_committed s" "\<forall>j. open_tx t j = open_tx s j" "db_faults s \<noteq> []"
  | (failed) err t where "RunInTx lg ctx (body_fn lg p) s = Done (Some err, t)"
      "db_committed t = db_committed s" "\<forall>j. open_tx t j = open_tx s j"
      "db_faults s = [] \<longrightarrow> Some err = fst (meaning p (db_committed s))"
  | (committed) r t d where
      "RunInTx lg ctx (body_fn lg p) s = Done (map_option (\<lambda>err. ''db: commit: '' @ err) r, t)"
      "\<forall>j. open_tx t j = open_tx s j" "r = None \<longrightarrow> db_committed t = d \<and> d \<in> set (outcomes p (db_committed s))"
      "\<forall>err. r = Some err \<longrightarrow> db_committed t = db_committed s \<or>
         db_committed t = d \<and> d \<in> set (outcomes p (db_committed s)) \<and> LostReply err \<in> set (db_faults s)"
      "db_faults s = [] \<longrightarrow> r = None \<and> meaning p (db_committed s) = (None, d)"
proof -
  have run: "RunInTx lg ctx (body_fn lg p) s = runNewTx lg ctx (body_fn lg p) s"
    using ctx(1) by (simp add: RunInTx_def RunInTxWithOpts_def)
  show thesis
  proof (cases "BeginTx s")
    case (Pair b s1)
    show thesis
    proof (cases b)
      case (Inl err)
      with Pair BeginTx_fails [of s err s1] show thesis
        by (intro no_tx [of "''db: begin tx: '' @ err" s1]) (simp_all add: run runNewTx_def open_tx_def)
    next
      case (Inr i)
      have B: "BeginTx s = (Inr i, s1)" using Pair Inr by simp
      obtain r t tx' where b: "body_fn lg p (contextWithConn ctx (SqlTx i)) s1 = Done (r, t)" and o: "open_tx t i = Some tx'"
        and none: "open_tx s i = None" and others: "\<forall>j. j \<noteq> i \<longrightarrow> open_tx t j = open_tx s j"
        and com: "db_committed t = db_committed s" and faults: "set (db_faults t) \<subseteq> set (db_faults s)"
        and outs: "r = None \<and> \<not> tx_aborted tx' \<longrightarrow> tx_data tx' \<in> set (outcomes p (db_committed s))"
        and spec: "db_faults s = [] \<longrightarrow> r = fst (meaning p (db_committed s)) \<and>
          (r = None \<longrightarrow> \<not> tx_aborted tx' \<and> tx_data tx' = snd (meaning p (db_committed s)))"
        by (rule new_tx_body [OF B ctx(2,3)])
      show thesis
      proof (cases r)
        case (Some err)
        from runNewTx_rollback [where fn = "body_fn lg p" and lg = lg, OF B b [unfolded Some] o] obtain u where
          "RunInTx lg ctx (body_fn lg p) s = Done (Some err, u)" "db_committed u = db_committed t"
          "\<forall>j. open_tx u j = open_tx s j" using run others none by metis
        with com spec Some show thesis by (intro failed [of err u]) simp_all
      next
        case None
        obtain c u where c: "Commit i t = (c, u)" by fastforce
        note e = Commit_ends [OF o c]
        have outs: "\<not> tx_aborted tx' \<longrightarrow> tx_data tx' \<in> set (outcomes p (db_committed s))" using outs None by simp
        show thesis
        proof (rule committed [of c u "tx_data tx'"])
          show "RunInTx lg ctx (body_fn lg p) s = Done (map_option (\<lambda>err. ''db: commit: '' @ err) c, u)"
            using B b None c by (cases c) (simp_all add: run runNewTx_def)
          show "\<forall>j. open_tx u j = open_tx s j" using e others none by metis
          show "c = None \<longrightarrow> db_committed u = tx_data tx' \<and> tx_data tx' \<in> set (outcomes p (db_committed s))"
            using e outs by simp
          show "\<forall>err. c = Some err \<longrightarrow> db_committed u = db_committed s \<or>
             db_committed u = tx_data tx' \<and> tx_data tx' \<in> set (outcomes p (db_committed s)) \<and> LostReply err \<in> set (db_faults s)"
            using e outs faults com by auto
          show "db_faults s = [] \<longrightarrow> c = None \<and> meaning p (db_committed s) = (None, tx_data tx')"
            using e spec faults None by (auto simp: prod_eq_iff)
        qed
      qed
    qed
  qed
qed

section \<open>Properties\<close>


text \<open>C16. Without faults \<open>RunInTx\<close> computes the specification of nested transactions: the error of the
  body, the data it ends with on success, the old data otherwise.\<close>

theorem RunInTx_refines:
  assumes "ctx_value ctx TxContextKey = None" "0 \<le> db_globalSpID s"
    and "db_globalSpID s + int (savepoints p) \<le> max_int64" "db_faults s = []"
  shows "\<exists>t. RunInTx lg ctx (body_fn lg p) s = Done (fst (meaning p (db_committed s)), t) \<and>
    db_committed t = (if fst (meaning p (db_committed s)) = None then snd (meaning p (db_committed s)) else db_committed s)"
proof (rule RunInTx_cases [OF assms(1-3), of lg])
  fix err t
  assume "RunInTx lg ctx (body_fn lg p) s = Done (Some err, t)" "db_committed t = db_committed s"
    "db_faults s = [] \<longrightarrow> Some err = fst (meaning p (db_committed s))"
  with assms(4) show ?thesis by (metis option.distinct(1))
next
  fix r t d
  assume "RunInTx lg ctx (body_fn lg p) s = Done (map_option (\<lambda>err. ''db: commit: '' @ err) r, t)"
    "r = None \<longrightarrow> db_committed t = d \<and> d \<in> set (outcomes p (db_committed s))"
    "db_faults s = [] \<longrightarrow> r = None \<and> meaning p (db_committed s) = (None, d)"
  with assms(4) show ?thesis by simp
qed (use assms(4) in simp)

section \<open>Witnesses\<close>

text \<open>Two inserts around a nested transaction that fails and is handled, on a list of strings.\<close>

definition insert_row :: "string \<Rightarrow> string list \<Rightarrow> string + string list" where
  "insert_row x d = (if x \<in> set d then Inl ''duplicate key'' else Inr (x # d))"

definition example_body :: "string list body" where
  "example_body = Seq (Exec (insert_row ''a''))
     (Seq (Try (Seq (Exec (insert_row ''b'')) (Exec (insert_row ''a''))) (Exec (insert_row ''c''))) Skip)"

definition example_db :: "fault list \<Rightarrow> string list db_state" where
  "example_db fs = \<lparr>db_committed = [], db_txs = [], db_globalSpID = 0, db_faults = fs, db_log = []\<rparr>"

theorem RunInTx_refines_witness:
  "\<exists>t. RunInTx (log_New LevelInfo) Background (body_fn (log_New LevelInfo) example_body) (example_db []) = Done (None, t) \<and>
     db_committed t = [''c'', ''a'']"
  using RunInTx_refines [of Background "example_db []" example_body "log_New LevelInfo"]
  by (simp add: example_body_def example_db_def insert_row_def max_int64_def)


text \<open>A panic of the function passes through \<open>RunInTx\<close>: nothing commits or rolls back.\<close>

lemma panic_leaves_tx_open:
  assumes "ctx_value ctx TxContextKey = None" "BeginTx s = (Inr i, s1)" "fn (contextWithConn ctx (SqlTx i)) s1 = Panicked v t"
  shows "RunInTx lg ctx fn s = Panicked v t"
  using assms by (simp add: RunInTx_def RunInTxWithOpts_def runNewTx_def)

end
