(* ===== verification/PgLeader.thy ===== *)
theory PgLeader
  imports Db_Tx "HOL-Library.Word"
begin

unbundle bit_operations_syntax

text \<open>
  \<open>schedule/pg_leader.go\<close>: leader election by PostgreSQL advisory locks, for any number of instances
  (processes with an elector each) and goroutines that share one server.  Every section of code
  between two waits is a function; \<open>pc_step\<close> composes the sections of a goroutine, \<open>le_step\<close>
  interleaves the goroutines.  Connections are server sessions, numbered by \<open>nat\<close>; an instance has
  its own pool.  The server keeps for each lock the session that holds it and how often it took it,
  as the documentation of advisory locks says, and drops the locks of a session that ends.  The
  reference count is a Go \<open>int\<close> kept as \<open>int\<close>: it counts calls, so it stays below \<open>2 ^ 63\<close>.
\<close>

section \<open>hashKey\<close>

definition fnv_step :: "64 word \<Rightarrow> char \<Rightarrow> 64 word" where
  "fnv_step h c = (h XOR of_char c) * 1099511628211"

definition fnv64a :: "string \<Rightarrow> 64 word" where
  "fnv64a bytes = foldl fnv_step 14695981039346656037 bytes"

definition hashKey :: "string \<Rightarrow> int" where
  "hashKey key = sint (fnv64a key)"

text \<open>The published test vector of FNV-1a for \<open>a\<close>, and a key of the example.\<close>

lemma fnv64a_vector: "fnv64a ''a'' = 0xaf63dc4c8601ec8c"
  by (simp add: fnv64a_def fnv_step_def)

lemma hashKey_int64: "in_int64 (hashKey key)"
  using sint_range_size [of "fnv64a key"]
  by (simp add: hashKey_def in_int64_def min_int64_def max_int64_def word_size)

section \<open>State\<close>

record lockEntry =
  le_conn :: nat
  le_id :: int
  le_refCount :: int

text \<open>
  \<open>ls_locks\<close>: the map of each instance.  \<open>ls_idle\<close>: the instance in whose pool a connection idles.
  \<open>ls_next\<close>: the next session number.  \<open>ls_holder\<close>: the server's lock table.  \<open>ls_lost\<close>: sessions
  that broke down while a client held the connection or its pool did.
\<close>

record leader_state =
  ls_locks :: "nat \<Rightarrow> string \<Rightarrow> lockEntry option"
  ls_idle :: "nat \<Rightarrow> nat option"
  ls_next :: nat
  ls_holder :: "int \<Rightarrow> (nat \<times> nat) option"
  ls_lost :: "nat set"

definition NewPgLeaderElectors :: leader_state where
  "NewPgLeaderElectors =
     \<lparr>ls_locks = (\<lambda>_ _. None), ls_idle = (\<lambda>_. None), ls_next = 0, ls_holder = (\<lambda>_. None), ls_lost = {}\<rparr>"

definition set_lock :: "nat \<Rightarrow> string \<Rightarrow> lockEntry option \<Rightarrow> leader_state \<Rightarrow> leader_state" where
  "set_lock i key e s = s\<lparr>ls_locks := (ls_locks s)(i := (ls_locks s i)(key := e))\<rparr>"

subsection \<open>The server\<close>

definition pg_try_advisory_lock :: "nat \<Rightarrow> int \<Rightarrow> leader_state \<Rightarrow> bool \<times> leader_state" where
  "pg_try_advisory_lock c lid s =
     (case ls_holder s lid of
        None \<Rightarrow> (True, s\<lparr>ls_holder := (ls_holder s)(lid := Some (c, 1))\<rparr>)
      | Some (c', n) \<Rightarrow>
          if c' = c then (True, s\<lparr>ls_holder := (ls_holder s)(lid := Some (c, Suc n))\<rparr>) else (False, s))"

definition pg_advisory_unlock :: "nat \<Rightarrow> int \<Rightarrow> leader_state \<Rightarrow> bool \<times> leader_state" where
  "pg_advisory_unlock c lid s =
     (case ls_holder s lid of
        None \<Rightarrow> (False, s)
      | Some (c', n) \<Rightarrow>
          if c' = c
          then (True, s\<lparr>ls_holder := (ls_holder s)(lid := if n \<le> 1 then None else Some (c, n - 1))\<rparr>)
          else (False, s))"

definition drop_session :: "nat \<Rightarrow> leader_state \<Rightarrow> leader_state" where
  "drop_session c s =
     s\<lparr>ls_holder := (\<lambda>lid. case ls_holder s lid of Some (c', n) \<Rightarrow> if c' = c then None else Some (c', n) | None \<Rightarrow> None)\<rparr>"

text \<open>A session breaks down: the server drops its locks, the client does not notice.\<close>

definition session_lost :: "nat \<Rightarrow> leader_state \<Rightarrow> leader_state" where
  "session_lost c s = drop_session c (s\<lparr>ls_lost := insert c (ls_lost s)\<rparr>)"

text \<open>A query fails before the server ran it, or its reply is lost; on a lost session it fails.\<close>

definition may_fault :: "nat \<Rightarrow> fault \<Rightarrow> leader_state \<Rightarrow> bool" where
  "may_fault c f s \<longleftrightarrow> (c \<in> ls_lost s \<longrightarrow> (\<exists>err. f = Fails err))"

text \<open>\<open>conn.Close\<close>: the pool keeps the connection or ends the session.\<close>

definition conn_Close :: "nat \<Rightarrow> nat \<Rightarrow> bool \<Rightarrow> leader_state \<Rightarrow> leader_state" where
  "conn_Close i c keep s = (if keep then s\<lparr>ls_idle := (ls_idle s)(c \<mapsto> i)\<rparr> else drop_session c s)"

section \<open>The sections of the methods\<close>

text \<open>
  Where a goroutine is.  The first number is the instance.  \<open>CL_close\<close> says whether the row of the
  unlock query is still open: \<open>Close\<close> of the elector never scans it, and the \<open>Close\<close> of a connection waits
  for its rows, which the end of the query's context closes.
\<close>

datatype pc =
    Out
  | TA_conn nat string
  | TA_query nat string nat
  | TA_close nat nat "string + bool"
  | TA_store nat string nat
  | TA_returned "string + bool"
  | RL_unlock nat lockEntry
  | RL_close nat nat "string option"
  | CL_loop nat "lockEntry list" "string option"
  | CL_close nat nat bool "lockEntry list" "string option"
  | Returned "string option"

definition pg_leader_err :: "string \<Rightarrow> string" where
  "pg_leader_err err = ''schedule: pg leader: '' @ err"

subsection \<open>TryAcquire\<close>

definition TryAcquire_check :: "nat \<Rightarrow> string \<Rightarrow> leader_state \<Rightarrow> pc \<times> leader_state" where
  "TryAcquire_check i key s =
     (case ls_locks s i key of
        Some entry \<Rightarrow>
          (TA_returned (Inr True), set_lock i key (Some (entry\<lparr>le_refCount := le_refCount entry + 1\<rparr>)) s)
      | None \<Rightarrow> (TA_conn i key, s))"

definition TryAcquire_conn :: "nat \<Rightarrow> string \<Rightarrow> string + nat \<Rightarrow> leader_state \<Rightarrow> pc \<times> leader_state" where
  "TryAcquire_conn i key res s =
     (case res of
        Inl err \<Rightarrow> (TA_returned (Inl (pg_leader_err err)), s)
      | Inr c \<Rightarrow>
          (TA_query i key c, s\<lparr>ls_idle := (ls_idle s)(c := None), ls_next := max (ls_next s) (Suc c)\<rparr>))"

text \<open>The pool hands out an idle connection or opens a new one.\<close>

definition may_hand_out :: "nat \<Rightarrow> string + nat \<Rightarrow> leader_state \<Rightarrow> bool" where
  "may_hand_out i res s \<longleftrightarrow> (case res of Inl _ \<Rightarrow> True | Inr c \<Rightarrow> ls_idle s c = Some i \<or> c = ls_next s)"

definition TryAcquire_query :: "nat \<Rightarrow> string \<Rightarrow> nat \<Rightarrow> fault \<Rightarrow> leader_state \<Rightarrow> pc \<times> leader_state" where
  "TryAcquire_query i key c f s =
     (case f of
        NoFault \<Rightarrow>
          (let (acquired, s1) = pg_try_advisory_lock c (hashKey key) s
           in (if acquired then TA_store i key c else TA_close i c (Inr False), s1))
      | Fails err \<Rightarrow> (TA_close i c (Inl (pg_leader_err err)), s)
      | LostReply err \<Rightarrow>
          (TA_close i c (Inl (pg_leader_err err)), snd (pg_try_advisory_lock c (hashKey key) s)))"

definition TryAcquire_store :: "nat \<Rightarrow> string \<Rightarrow> nat \<Rightarrow> leader_state \<Rightarrow> pc \<times> leader_state" where
  "TryAcquire_store i key c s =
     (TA_returned (Inr True), set_lock i key (Some \<lparr>le_conn = c, le_id = hashKey key, le_refCount = 1\<rparr>) s)"

subsection \<open>Release\<close>

definition Release_check :: "nat \<Rightarrow> string \<Rightarrow> leader_state \<Rightarrow> pc \<times> leader_state" where
  "Release_check i key s =
     (case ls_locks s i key of
        None \<Rightarrow> (Returned None, s)
      | Some entry \<Rightarrow>
          (let entry' = entry\<lparr>le_refCount := le_refCount entry - 1\<rparr>
           in if 0 < le_refCount entry' then (Returned None, set_lock i key (Some entry') s)
              else (RL_unlock i entry', set_lock i key None s)))"

text \<open>The query of an unlock, with its error.\<close>

definition unlock_query :: "lockEntry \<Rightarrow> fault \<Rightarrow> leader_state \<Rightarrow> string option \<times> leader_state" where
  "unlock_query entry f s =
     (case f of
        NoFault \<Rightarrow> (None, snd (pg_advisory_unlock (le_conn entry) (le_id entry) s))
      | Fails err \<Rightarrow> (Some err, s)
      | LostReply err \<Rightarrow> (Some err, snd (pg_advisory_unlock (le_conn entry) (le_id entry) s)))"

definition Release_unlock :: "nat \<Rightarrow> lockEntry \<Rightarrow> fault \<Rightarrow> leader_state \<Rightarrow> pc \<times> leader_state" where
  "Release_unlock i entry f s =
     (let (err, s1) = unlock_query entry f s in (RL_close i (le_conn entry) (map_option pg_leader_err err), s1))"

subsection \<open>Close\<close>

text \<open>The maps are swapped; the iteration visits the entries in any order of the keys \<open>ks\<close>.\<close>

definition Close_swap :: "nat \<Rightarrow> string list \<Rightarrow> leader_state \<Rightarrow> pc \<times> leader_state" where
  "Close_swap i ks s =
     (CL_loop i (map (\<lambda>k. the (ls_locks s i k)) ks) None, s\<lparr>ls_locks := (ls_locks s)(i := (\<lambda>_. None))\<rparr>)"

definition Close_unlock ::
    "nat \<Rightarrow> lockEntry \<Rightarrow> lockEntry list \<Rightarrow> string option \<Rightarrow> fault \<Rightarrow> leader_state \<Rightarrow> pc \<times> leader_state"
where
  "Close_unlock i entry es firstErr f s =
     (let (err, s1) = unlock_query entry f s
      in (CL_close i (le_conn entry) (err = None) es
            (if firstErr = None then map_option pg_leader_err err else firstErr), s1))"

section \<open>Goroutines\<close>

text \<open>
  What the outside learns: leadership granted, given up, and all of it given up; \<open>Context_done\<close> marks the
  steps that only the end of the caller's context lets happen.
\<close>

datatype notice = Granted nat string | Given_up nat string | Closed nat | Context_done | Tau

definition granted :: "nat \<Rightarrow> string \<Rightarrow> pc \<Rightarrow> notice" where
  "granted i key p = (if p = TA_returned (Inr True) then Granted i key else Tau)"

inductive pc_step :: "pc \<Rightarrow> leader_state \<Rightarrow> notice \<Rightarrow> pc \<Rightarrow> leader_state \<Rightarrow> bool" where
  ta_check: "TryAcquire_check i key s = (p, t) \<Longrightarrow> pc_step Out s (granted i key p) p t"
| ta_conn: "may_hand_out i res s \<Longrightarrow> TryAcquire_conn i key res s = (p, t) \<Longrightarrow> pc_step (TA_conn i key) s Tau p t"
| ta_query: "may_fault c f s \<Longrightarrow> TryAcquire_query i key c f s = (p, t) \<Longrightarrow> pc_step (TA_query i key c) s Tau p t"
| ta_close: "pc_step (TA_close i c r) s Tau (TA_returned r) (conn_Close i c keep s)"
| ta_store: "TryAcquire_store i key c s = (p, t) \<Longrightarrow> pc_step (TA_store i key c) s (granted i key p) p t"
| ta_returned: "pc_step (TA_returned r) s Tau Out s"
| rl_check: "Release_check i key s = (p, t) \<Longrightarrow> pc_step Out s (Given_up i key) p t"
| rl_unlock: "may_fault (le_conn e) f s \<Longrightarrow> Release_unlock i e f s = (p, t) \<Longrightarrow> pc_step (RL_unlock i e) s Tau p t"
| rl_close: "pc_step (RL_close i c r) s Tau (Returned r) (conn_Close i c keep s)"
| cl_swap: "distinct ks \<Longrightarrow> set ks = dom (ls_locks s i) \<Longrightarrow> Close_swap i ks s = (p, t) \<Longrightarrow> pc_step Out s (Closed i) p t"
| cl_unlock: "may_fault (le_conn e) f s \<Longrightarrow> Close_unlock i e es r f s = (p, t) \<Longrightarrow>
    pc_step (CL_loop i (e # es) r) s Tau p t"
| cl_close: "pc_step (CL_close i c False es r) s Tau (CL_loop i es r) (conn_Close i c keep s)"
| cl_close_rows: "pc_step (CL_close i c True es r) s Context_done (CL_loop i es r) (conn_Close i c keep s)"
| cl_returned: "pc_step (CL_loop i [] r) s Tau (Returned r) s"
| returned: "pc_step (Returned r) s Tau Out s"


text \<open>The acquisitions an instance has been granted and not given up: what its callers believe.\<close>

fun record_notice :: "notice \<Rightarrow> (nat \<Rightarrow> string \<Rightarrow> nat) \<Rightarrow> nat \<Rightarrow> string \<Rightarrow> nat" where
  "record_notice (Granted i key) G = G(i := (G i)(key := Suc (G i key)))"
| "record_notice (Given_up i key) G = G(i := (G i)(key := G i key - 1))"
| "record_notice (Closed i) G = G(i := (\<lambda>_. 0))"
| "record_notice Context_done G = G"
| "record_notice Tau G = G"

inductive le_reach :: "(nat \<Rightarrow> pc) \<Rightarrow> leader_state \<Rightarrow> (nat \<Rightarrow> string \<Rightarrow> nat) \<Rightarrow> bool" where
  initial: "le_reach (\<lambda>_. Out) NewPgLeaderElectors (\<lambda>_ _. 0)"
| goroutine: "le_reach P s G \<Longrightarrow> pc_step (P t) s n p s' \<Longrightarrow> le_reach (P(t := p)) s' (record_notice n G)"
| lost: "le_reach P s G \<Longrightarrow> le_reach P (session_lost c s) G"

section \<open>The invariant\<close>

text \<open>Every connection in use is in one place: the pool, an entry, or the hands of a goroutine.\<close>

datatype place = In_pool | In_entry nat string | In_thread nat

fun pc_conns :: "pc \<Rightarrow> nat list" where
  "pc_conns (TA_query i k c) = [c]"
| "pc_conns (TA_close i c r) = [c]"
| "pc_conns (TA_store i k c) = [c]"
| "pc_conns (RL_unlock i e) = [le_conn e]"
| "pc_conns (RL_close i c r) = [c]"
| "pc_conns (CL_loop i es r) = map le_conn es"
| "pc_conns (CL_close i c b es r) = c # map le_conn es"
| "pc_conns _ = []"

definition holds :: "leader_state \<Rightarrow> int \<Rightarrow> nat \<Rightarrow> bool" where
  "holds s lid c \<longleftrightarrow> (\<exists>n. ls_holder s lid = Some (c, n))"

definition entry_ok :: "(nat \<Rightarrow> place) \<Rightarrow> leader_state \<Rightarrow> nat \<Rightarrow> string \<Rightarrow> lockEntry \<Rightarrow> bool" where
  "entry_ok own s i k e \<longleftrightarrow>
     own (le_conn e) = In_entry i k \<and> le_id e = hashKey k \<and> 1 \<le> le_refCount e \<and> le_conn e < ls_next s \<and>
     (le_conn e \<notin> ls_lost s \<longrightarrow> holds s (hashKey k) (le_conn e))"

definition thread_ok :: "(nat \<Rightarrow> place) \<Rightarrow> leader_state \<Rightarrow> nat \<Rightarrow> pc \<Rightarrow> bool" where
  "thread_ok own s t p \<longleftrightarrow>
     distinct (pc_conns p) \<and> (\<forall>c \<in> set (pc_conns p). own c = In_thread t \<and> c < ls_next s) \<and>
     (\<forall>i k c. p = TA_store i k c \<and> c \<notin> ls_lost s \<longrightarrow> holds s (hashKey k) c)"

definition counts_ok :: "leader_state \<Rightarrow> (nat \<Rightarrow> string \<Rightarrow> nat) \<Rightarrow> bool" where
  "counts_ok s G \<longleftrightarrow>
     (\<forall>i k. G i k = (case ls_locks s i k of None \<Rightarrow> 0 | Some e \<Rightarrow> nat (le_refCount e)))"

definition leader_inv :: "(nat \<Rightarrow> place) \<Rightarrow> (nat \<Rightarrow> pc) \<Rightarrow> leader_state \<Rightarrow> (nat \<Rightarrow> string \<Rightarrow> nat) \<Rightarrow> bool" where
  "leader_inv own P s G \<longleftrightarrow>
     (\<forall>i k e. ls_locks s i k = Some e \<longrightarrow> entry_ok own s i k e) \<and>
     (\<forall>t. thread_ok own s t (P t)) \<and>
     (\<forall>c i. ls_idle s c = Some i \<longrightarrow> own c = In_pool \<and> c < ls_next s) \<and>
     (ls_lost s = {} \<longrightarrow> counts_ok s G)"

text \<open>The server's operations touch the lock table only, and only the locks of the session that asks.\<close>

lemma server_frame [simp]:
  "ls_locks (snd (pg_try_advisory_lock c lid s)) = ls_locks s"
  "ls_idle (snd (pg_try_advisory_lock c lid s)) = ls_idle s"
  "ls_next (snd (pg_try_advisory_lock c lid s)) = ls_next s"
  "ls_lost (snd (pg_try_advisory_lock c lid s)) = ls_lost s"
  "ls_locks (snd (pg_advisory_unlock c lid s)) = ls_locks s"
  "ls_idle (snd (pg_advisory_unlock c lid s)) = ls_idle s"
  "ls_next (snd (pg_advisory_unlock c lid s)) = ls_next s"
  "ls_lost (snd (pg_advisory_unlock c lid s)) = ls_lost s"
  "ls_locks (drop_session c s) = ls_locks s" "ls_idle (drop_session c s) = ls_idle s"
  "ls_next (drop_session c s) = ls_next s" "ls_lost (drop_session c s) = ls_lost s"
  by (auto simp: pg_try_advisory_lock_def pg_advisory_unlock_def drop_session_def split: option.split prod.split)

lemma holds_try: "holds s lid c \<Longrightarrow> holds (snd (pg_try_advisory_lock c' lid' s)) lid c"
  by (auto simp: holds_def pg_try_advisory_lock_def split: option.split prod.split)

lemma try_holds: "fst (pg_try_advisory_lock c lid s) \<Longrightarrow> holds (snd (pg_try_advisory_lock c lid s)) lid c"
  by (auto simp: holds_def pg_try_advisory_lock_def split: option.splits prod.splits if_splits)

lemma try_refused: "holds s lid c' \<Longrightarrow> c' \<noteq> c \<Longrightarrow> \<not> fst (pg_try_advisory_lock c lid s)"
  by (auto simp: holds_def pg_try_advisory_lock_def)

lemma holds_unlock: "holds s lid c \<Longrightarrow> c' \<noteq> c \<Longrightarrow> holds (snd (pg_advisory_unlock c' lid' s)) lid c"
  by (auto simp: holds_def pg_advisory_unlock_def split: option.split prod.split)

lemma holds_drop: "holds s lid c \<Longrightarrow> c' \<noteq> c \<Longrightarrow> holds (drop_session c' s) lid c"
  by (auto simp: holds_def drop_session_def)

lemma holds_unique: "holds s lid c \<Longrightarrow> holds s lid c' \<Longrightarrow> c = c'"
  by (auto simp: holds_def)

text \<open>A step of one goroutine that keeps its connections to itself.\<close>

lemma inv_local:
  assumes "leader_inv own P s G" and "distinct (pc_conns p)" "set (pc_conns p) \<subseteq> set (pc_conns (P t))"
    and "\<And>i k c. p = TA_store i k c \<Longrightarrow> holds s' (hashKey k) c"
    and "ls_locks s' = ls_locks s" "ls_idle s' = ls_idle s" "ls_next s' = ls_next s" "ls_lost s' = ls_lost s"
    and "\<And>lid c. c \<notin> set (pc_conns (P t)) \<Longrightarrow> holds s lid c \<Longrightarrow> holds s' lid c"
  shows "leader_inv own (P(t := p)) s' G"
proof -
  have t: "own c = In_thread t" if "c \<in> set (pc_conns (P t))" for c
    using assms(1) that by (simp add: leader_inv_def thread_ok_def)
  have "entry_ok own s' i k e" if "ls_locks s i k = Some e" for i k e
  proof -
    have e: "entry_ok own s i k e" using assms(1) that by (simp add: leader_inv_def)
    then have "le_conn e \<notin> set (pc_conns (P t))" using t by (auto simp: entry_ok_def)
    with e assms(7-9) show ?thesis by (simp add: entry_ok_def)
  qed
  moreover have "thread_ok own s' u ((P(t := p)) u)" for u
  proof (cases "u = t")
    case True
    have "thread_ok own s t (P t)" using assms(1) by (simp add: leader_inv_def)
    with True assms(2-4,7) show ?thesis by (auto simp: thread_ok_def)
  next
    case False
    have u: "thread_ok own s u (P u)" using assms(1) by (simp add: leader_inv_def)
    then have "c \<notin> set (pc_conns (P t))" if "P u = TA_store i k c" for i k c
      using that t False by (auto simp: thread_ok_def)
    with u False assms(7-9) show ?thesis by (simp add: thread_ok_def)
  qed
  moreover have "(\<forall>c i. ls_idle s' c = Some i \<longrightarrow> own c = In_pool \<and> c < ls_next s') \<and> (ls_lost s' = {} \<longrightarrow> counts_ok s' G)"
    using assms(1,5-8) by (simp add: leader_inv_def counts_ok_def)
  ultimately show ?thesis using assms(5) by (simp add: leader_inv_def)
qed


lemma inv_entry: "leader_inv own P s G \<Longrightarrow> ls_locks s i k = Some e \<Longrightarrow> entry_ok own s i k e"
  by (simp add: leader_inv_def)

lemma inv_thread: "leader_inv own P s G \<Longrightarrow> thread_ok own s t (P t)"
  by (simp add: leader_inv_def)

text \<open>A goroutine gives its first connection back.\<close>

lemma inv_close:
  assumes inv: "leader_inv own P s G" and c: "pc_conns (P t) = c # pc_conns p" and p: "\<And>i k c. p \<noteq> TA_store i k c"
  shows "leader_inv (own(c := In_pool)) (P(t := p)) (conn_Close i c keep s) G"
proof -
  have t: "own c = In_thread t" "c < ls_next s" "c \<notin> set (pc_conns p)"
    using inv_thread [OF inv, of t] c by (auto simp: thread_ok_def)
  have same: "ls_locks (conn_Close i c keep s) = ls_locks s" "ls_next (conn_Close i c keep s) = ls_next s"
    "ls_lost (conn_Close i c keep s) = ls_lost s"
    "ls_idle (conn_Close i c keep s) d = (if keep \<and> d = c then Some i else ls_idle s d)" for d
    by (simp_all add: conn_Close_def)
  have h: "holds (conn_Close i c keep s) lid d" if "holds s lid d" "d \<noteq> c" for lid d
    using that holds_drop [of s lid d c] by (auto simp: conn_Close_def holds_def)
  have "entry_ok (own(c := In_pool)) (conn_Close i c keep s) j k e" if "ls_locks s j k = Some e" for j k e
    using inv_entry [OF inv that] t(1) h same by (auto simp: entry_ok_def)
  moreover have "thread_ok (own(c := In_pool)) (conn_Close i c keep s) u ((P(t := p)) u)" for u
  proof (cases "u = t")
    case True
    with inv_thread [OF inv, of t] c p same t(3) show ?thesis by (auto simp: thread_ok_def)
  next
    case False
    with inv_thread [OF inv, of u] t(1) have "c \<notin> set (pc_conns (P u))" by (auto simp: thread_ok_def)
    with inv_thread [OF inv, of u] False h same show ?thesis by (auto simp: thread_ok_def)
  qed
  moreover have "(own(c := In_pool)) d = In_pool \<and> d < ls_next s" if "ls_idle (conn_Close i c keep s) d = Some j" for d j
    using inv that same t by (auto simp: leader_inv_def split: if_splits)
  moreover have "ls_lost s = {} \<longrightarrow> counts_ok (conn_Close i c keep s) G"
    using inv same by (simp add: leader_inv_def counts_ok_def)
  ultimately show ?thesis using same by (simp add: leader_inv_def)
qed

text \<open>A goroutine without a connection gets one from the pool.\<close>

lemma inv_take:
  assumes inv: "leader_inv own P s G" and none: "pc_conns (P t) = []" and c: "ls_idle s c = Some i \<or> c = ls_next s"
  shows "leader_inv (own(c := In_thread t)) (P(t := TA_query i k c))
    (s\<lparr>ls_idle := (ls_idle s)(c := None), ls_next := max (ls_next s) (Suc c)\<rparr>) G"
proof -
  let ?own = "own(c := In_thread t)"
  let ?s = "s\<lparr>ls_idle := (ls_idle s)(c := None), ls_next := max (ls_next s) (Suc c)\<rparr>"
  have free: "own d = In_pool \<or> d \<noteq> c" if "own d \<noteq> In_pool \<longrightarrow> d < ls_next s" for d
    using that c inv by (auto simp: leader_inv_def)
  have "entry_ok ?own ?s j l e" if "ls_locks s j l = Some e" for j l e
    using inv_entry [OF inv that] free [of "le_conn e"] by (auto simp: entry_ok_def holds_def)
  moreover have "thread_ok ?own ?s u ((P(t := TA_query i k c)) u)" for u
  proof (cases "u = t")
    case False
    have "c \<notin> set (pc_conns (P u))" using inv_thread [OF inv, of u] free [of c] by (auto simp: thread_ok_def)
    with inv_thread [OF inv, of u] False show ?thesis by (auto simp: thread_ok_def holds_def)
  qed (simp add: thread_ok_def)
  moreover have "?own d = In_pool \<and> d < ls_next ?s" if "ls_idle ?s d = Some j" for d j
    using inv that by (auto simp: leader_inv_def split: if_splits)
  moreover have "ls_lost ?s = {} \<longrightarrow> counts_ok ?s G" using inv by (simp add: leader_inv_def counts_ok_def)
  ultimately show ?thesis by (simp add: leader_inv_def)
qed

text \<open>The end of \<open>TryAcquire\<close>: the connection moves to the entry.\<close>

lemma inv_store:
  assumes inv: "leader_inv own P s G" and t: "P t = TA_store i k c"
  shows "leader_inv (own(c := In_entry i k)) (P(t := TA_returned (Inr True)))
    (set_lock i k (Some \<lparr>le_conn = c, le_id = hashKey k, le_refCount = 1\<rparr>) s) (record_notice (Granted i k) G)"
proof -
  let ?own = "own(c := In_entry i k)"
  let ?s = "set_lock i k (Some \<lparr>le_conn = c, le_id = hashKey k, le_refCount = 1\<rparr>) s"
  have c: "own c = In_thread t" "c < ls_next s" "c \<notin> ls_lost s \<longrightarrow> holds s (hashKey k) c"
    using inv_thread [OF inv, of t] t by (auto simp: thread_ok_def)
  have same: "ls_idle ?s = ls_idle s" "ls_next ?s = ls_next s" "ls_lost ?s = ls_lost s" "holds ?s lid d = holds s lid d" for lid d
    by (simp_all add: set_lock_def holds_def)
  have "entry_ok ?own ?s j l e" if "ls_locks ?s j l = Some e" for j l e
  proof (cases "j = i \<and> l = k")
    case True
    with that c same show ?thesis by (auto simp: set_lock_def entry_ok_def)
  next
    case False
    with that have "ls_locks s j l = Some e" by (auto simp: set_lock_def split: if_splits)
    from inv_entry [OF inv this] c(1) same show ?thesis by (auto simp: entry_ok_def)
  qed
  moreover have "thread_ok ?own ?s u ((P(t := TA_returned (Inr True))) u)" for u
  proof (cases "u = t")
    case False
    with inv_thread [OF inv, of u] c(1) have "c \<notin> set (pc_conns (P u))" by (auto simp: thread_ok_def)
    with inv_thread [OF inv, of u] False same show ?thesis by (auto simp: thread_ok_def)
  qed (simp add: thread_ok_def)
  moreover have "?own d = In_pool \<and> d < ls_next s" if "ls_idle s d = Some j" for d j
    using inv that c(1) by (auto simp: leader_inv_def)
  moreover have "counts_ok ?s (record_notice (Granted i k) G)" if lost: "ls_lost s = {}"
  proof -
    have "ls_locks s i k = None"
    proof (cases "ls_locks s i k")
      case (Some e)
      from inv_entry [OF inv Some] c lost have own: "own (le_conn e) = In_entry i k" and
        h: "holds s (hashKey k) (le_conn e)" "holds s (hashKey k) c" by (simp_all add: entry_ok_def)
      from holds_unique [OF h] own c(1) show ?thesis by simp
    qed simp
    moreover have "counts_ok s G" using inv lost by (simp add: leader_inv_def)
    ultimately show ?thesis by (auto simp: counts_ok_def set_lock_def)
  qed
  ultimately show ?thesis using same by (simp add: leader_inv_def)
qed

text \<open>A reference count changes.\<close>

lemma inv_count:
  assumes inv: "leader_inv own P s G" and e: "ls_locks s i k = Some e" and n: "1 \<le> le_refCount e + d"
    and p: "pc_conns (P t) = []" "pc_conns p = []" "\<And>i k c. p \<noteq> TA_store i k c"
    and G: "\<And>j l. G' j l = (if j = i \<and> l = k then nat (int (G i k) + d) else G j l)"
  shows "leader_inv own (P(t := p)) (set_lock i k (Some (e\<lparr>le_refCount := le_refCount e + d\<rparr>)) s) G'"
proof -
  let ?s = "set_lock i k (Some (e\<lparr>le_refCount := le_refCount e + d\<rparr>)) s"
  have same: "ls_idle ?s = ls_idle s" "ls_next ?s = ls_next s" "ls_lost ?s = ls_lost s" "holds ?s lid c = holds s lid c" for lid c
    by (simp_all add: set_lock_def holds_def)
  have "entry_ok own ?s j l e'" if "ls_locks ?s j l = Some e'" for j l e'
  proof (cases "j = i \<and> l = k")
    case True
    with that inv_entry [OF inv e] n same show ?thesis by (auto simp: set_lock_def entry_ok_def)
  next
    case False
    with that have "ls_locks s j l = Some e'" by (auto simp: set_lock_def split: if_splits)
    from inv_entry [OF inv this] same show ?thesis by (simp add: entry_ok_def)
  qed
  moreover have "thread_ok own ?s u ((P(t := p)) u)" for u
    using inv_thread [OF inv, of u] p same by (auto simp: thread_ok_def)
  moreover have "counts_ok ?s G'" if "ls_lost s = {}"
  proof -
    have "counts_ok s G" using inv that by (simp add: leader_inv_def)
    moreover have "1 \<le> le_refCount e" using inv_entry [OF inv e] by (simp add: entry_ok_def)
    ultimately show ?thesis using e by (auto simp: counts_ok_def set_lock_def G)
  qed
  ultimately show ?thesis using inv same by (simp add: leader_inv_def)
qed


text \<open>Entries move into the hands of a goroutine.\<close>

lemma inv_remove:
  assumes inv: "leader_inv own P s G" and ks: "distinct ks" "set ks \<subseteq> dom (ls_locks s i)"
    and t: "pc_conns (P t) = []" and p: "pc_conns p = map (\<lambda>k. le_conn (the (ls_locks s i k))) ks" "\<And>i k c. p \<noteq> TA_store i k c"
    and L: "\<And>j l. ls_locks s' j l = (if j = i \<and> l \<in> set ks then None else ls_locks s j l)"
    and same: "ls_idle s' = ls_idle s" "ls_next s' = ls_next s" "ls_lost s' = ls_lost s" "ls_holder s' = ls_holder s"
    and G: "\<And>j l. ls_lost s = {} \<Longrightarrow> G' j l = (if j = i \<and> l \<in> set ks then 0 else G j l)"
  shows "leader_inv (\<lambda>c. if c \<in> set (pc_conns p) then In_thread t else own c) (P(t := p)) s' G'"
proof -
  let ?own = "\<lambda>c. if c \<in> set (pc_conns p) then In_thread t else own c"
  have e: "entry_ok own s i k (the (ls_locks s i k))" if "k \<in> set ks" for k
    using ks(2) that inv_entry [OF inv, of i k] by force
  have own: "\<exists>k \<in> set ks. own c = In_entry i k" if "c \<in> set (pc_conns p)" for c
    using that e p(1) by (auto simp: entry_ok_def)
  have holds: "holds s' = holds s" by (intro ext) (simp add: holds_def same)
  have "inj_on (\<lambda>k. le_conn (the (ls_locks s i k))) (set ks)"
  proof (rule inj_onI)
    fix k l
    assume kl: "k \<in> set ks" "l \<in> set ks" "le_conn (the (ls_locks s i k)) = le_conn (the (ls_locks s i l))"
    have "own (le_conn (the (ls_locks s i k))) = In_entry i k" "own (le_conn (the (ls_locks s i l))) = In_entry i l"
      using e [OF kl(1)] e [OF kl(2)] by (simp_all add: entry_ok_def)
    then show "k = l" unfolding kl(3) by (metis place.inject(1))
  qed
  then have d: "distinct (pc_conns p)" using ks(1) p(1) by (simp add: distinct_map)
  have "entry_ok ?own s' j l e'" if "ls_locks s' j l = Some e'" for j l e'
  proof -
    from that have l: "ls_locks s j l = Some e'" "\<not> (j = i \<and> l \<in> set ks)" by (auto simp: L split: if_splits)
    with inv_entry [OF inv l(1)] own [of "le_conn e'"] have "le_conn e' \<notin> set (pc_conns p)" by (auto simp: entry_ok_def)
    with inv_entry [OF inv l(1)] same holds show ?thesis by (simp add: entry_ok_def)
  qed
  moreover have "thread_ok ?own s' u ((P(t := p)) u)" for u
  proof (cases "u = t")
    case True
    with d p e same show ?thesis by (auto simp: thread_ok_def entry_ok_def)
  next
    case False
    have "c \<notin> set (pc_conns p)" if "c \<in> set (pc_conns (P u))" for c
      using inv_thread [OF inv, of u] that own [of c] by (auto simp: thread_ok_def)
    with inv_thread [OF inv, of u] False same holds show ?thesis by (simp add: thread_ok_def)
  qed
  moreover have "?own c = In_pool \<and> c < ls_next s'" if "ls_idle s' c = Some j" for c j
  proof -
    have "own c = In_pool \<and> c < ls_next s" using inv that same by (simp add: leader_inv_def)
    with own [of c] same show ?thesis by auto
  qed
  moreover have "counts_ok s' G'" if "ls_lost s' = {}"
  proof -
    have "counts_ok s G" using inv that same by (simp add: leader_inv_def)
    with that same G L show ?thesis by (simp add: counts_ok_def)
  qed
  ultimately show ?thesis by (simp add: leader_inv_def)
qed

lemma inv_lost:
  assumes inv: "leader_inv own P s G"
  shows "leader_inv own P (session_lost c s) G"
proof -
  have h: "holds (session_lost c s) lid d" if "holds s lid d" "d \<noteq> c" for lid d
    using that by (auto simp: session_lost_def drop_session_def holds_def)
  have same: "ls_locks (session_lost c s) = ls_locks s" "ls_idle (session_lost c s) = ls_idle s"
    "ls_next (session_lost c s) = ls_next s" "ls_lost (session_lost c s) = insert c (ls_lost s)"
    by (simp_all add: session_lost_def)
  have "entry_ok own (session_lost c s) i k e" if "ls_locks s i k = Some e" for i k e
    using inv_entry [OF inv that] h same by (auto simp: entry_ok_def)
  moreover have "thread_ok own (session_lost c s) u (P u)" for u
    using inv_thread [OF inv, of u] h same by (auto simp: thread_ok_def)
  ultimately show ?thesis using inv same by (simp add: leader_inv_def)
qed

lemma unlock_query_frame:
  "ls_locks (snd (unlock_query e f s)) = ls_locks s" "ls_idle (snd (unlock_query e f s)) = ls_idle s"
  "ls_next (snd (unlock_query e f s)) = ls_next s" "ls_lost (snd (unlock_query e f s)) = ls_lost s"
  "c \<noteq> le_conn e \<Longrightarrow> holds s lid c \<Longrightarrow> holds (snd (unlock_query e f s)) lid c"
  by (auto simp: unlock_query_def holds_unlock split: fault.split)

lemma inv_query:
  assumes "leader_inv own P s G" "P t = TA_query i k c" "TryAcquire_query i k c f s = (p, s')"
  shows "leader_inv own (P(t := p)) s' G"
proof -
  obtain a s1 where a: "pg_try_advisory_lock c (hashKey k) s = (a, s1)" by fastforce
  have s1: "s1 = snd (pg_try_advisory_lock c (hashKey k) s)" using a by simp
  have h: "a \<Longrightarrow> holds s1 (hashKey k) c" using try_holds [of c "hashKey k" s] a by simp
  have s': "s' = s1 \<or> s' = s" using assms(3) a by (cases f) (auto simp: TryAcquire_query_def split: if_splits)
  have p: "pc_conns p = [c]" using assms(3) a by (cases f) (auto simp: TryAcquire_query_def split: if_splits)
  have store: "j = i \<and> l = k \<and> d = c \<and> a \<and> s' = s1" if "p = TA_store j l d" for j l d
    using assms(3) a that by (cases f) (auto simp: TryAcquire_query_def split: if_splits)
  show ?thesis
  proof (rule inv_local [OF assms(1)])
    show "holds s' (hashKey l) d" if "p = TA_store j l d" for j l d using store [OF that] h by simp
    show "holds s' lid d" if "holds s lid d" for lid d using s' holds_try [OF that] that by (auto simp: s1)
    show "distinct (pc_conns p)" "set (pc_conns p) \<subseteq> set (pc_conns (P t))" using p assms(2) by simp_all
  qed (use s' s1 in auto)
qed

lemma inv_acquire_check:
  assumes inv: "leader_inv own P s G" and out: "P t = Out" and c: "TryAcquire_check i key s = (p, s')"
  shows "leader_inv own (P(t := p)) s' (record_notice (granted i key p) G)"
proof (cases "ls_locks s i key")
  case None
  with c have "p = TA_conn i key" "s' = s" by (simp_all add: TryAcquire_check_def)
  then show ?thesis by (auto simp: granted_def intro!: inv_local [OF inv])
next
  case (Some e)
  with c have p: "p = TA_returned (Inr True)" "s' = set_lock i key (Some (e\<lparr>le_refCount := le_refCount e + 1\<rparr>)) s"
    by (simp_all add: TryAcquire_check_def)
  have "1 \<le> le_refCount e + 1" using inv_entry [OF inv Some] by (simp add: entry_ok_def)
  then show ?thesis unfolding p by (intro inv_count [OF inv Some]) (use out in \<open>auto simp: granted_def\<close>)
qed

lemma inv_release_check:
  assumes inv: "leader_inv own P s G" and out: "P t = Out" and c: "Release_check i key s = (p, s')"
  shows "\<exists>own. leader_inv own (P(t := p)) s' (record_notice (Given_up i key) G)"
proof (cases "ls_locks s i key")
  case None
  have "G i key = 0" if "ls_lost s = {}" using inv that None by (simp add: leader_inv_def counts_ok_def)
  then have "leader_inv own P s (record_notice (Given_up i key) G)" using inv None by (simp add: leader_inv_def counts_ok_def)
  with None c show ?thesis by (auto simp: Release_check_def intro!: exI inv_local)
next
  case (Some e)
  note ok = inv_entry [OF inv Some, unfolded entry_ok_def]
  have G1: "G i key = nat (le_refCount e)" if "ls_lost s = {}"
    using inv that Some by (simp add: leader_inv_def counts_ok_def)
  show ?thesis
  proof (cases "0 < le_refCount e - 1")
    case True
    have "leader_inv own (P(t := Returned None)) (set_lock i key (Some (e\<lparr>le_refCount := le_refCount e + - 1\<rparr>)) s)
        (record_notice (Given_up i key) G)"
      by (rule inv_count [OF inv Some]) (use True out in auto)
    with True Some c show ?thesis by (auto simp: Release_check_def)
  next
    case False
    let ?e = "e\<lparr>le_refCount := le_refCount e - 1\<rparr>"
    from False Some c have p: "p = RL_unlock i ?e" "s' = set_lock i key None s" by (simp_all add: Release_check_def)
    have one: "le_refCount e = 1" using False ok by simp
    show ?thesis unfolding p
    proof (intro exI, rule inv_remove [OF inv, where ks = "[key]" and i = i])
      show "record_notice (Given_up i key) G j l = (if j = i \<and> l \<in> set [key] then 0 else G j l)" if "ls_lost s = {}" for j l
        using G1 [OF that] one by simp
    qed (use Some out in \<open>auto simp: set_lock_def\<close>)
  qed
qed

lemma inv_close_unlock:
  assumes inv: "leader_inv own P s G" and at: "P t = CL_loop i (e # es) r" and c: "Close_unlock i e es r f s = (p, s')"
  shows "leader_inv own (P(t := p)) s' G"
proof -
  from c have p: "pc_conns p = le_conn e # map le_conn es" "s' = snd (unlock_query e f s)" "\<And>i k c. p \<noteq> TA_store i k c"
    by (auto simp: Close_unlock_def split: prod.splits)
  have d: "distinct (pc_conns (P t))" using inv_thread [OF inv, of t] by (simp add: thread_ok_def)
  show ?thesis by (rule inv_local [OF inv]) (use p d at in \<open>simp_all add: unlock_query_frame\<close>)
qed

text \<open>The invariant is kept by every section of every method.\<close>

lemma leader_inv_step:
  assumes inv: "leader_inv own P s G" and step: "pc_step (P t) s n p s'"
  shows "\<exists>own. leader_inv own (P(t := p)) s' (record_notice n G)"
  using step
proof cases
  case (ta_check i key)
  with inv_acquire_check [OF inv, of t i key p s'] show ?thesis by auto
next
  case (ta_conn i res key)
  show ?thesis
  proof (cases res)
    case (Inl err)
    with ta_conn show ?thesis by (auto simp: TryAcquire_conn_def intro!: exI inv_local [OF inv])
  next
    case (Inr c)
    with ta_conn show ?thesis
      using inv_take [OF inv, of t c i key] by (auto simp: TryAcquire_conn_def may_hand_out_def)
  qed
next
  case (ta_query c f i key)
  with inv_query [OF inv, of t i key c f p s'] show ?thesis by auto
next
  case (ta_close i c r keep)
  with inv_close [OF inv, of t c p i keep] show ?thesis by auto
next
  case (ta_store i key c)
  with inv_store [OF inv, of t i key c] show ?thesis by (auto simp: TryAcquire_store_def granted_def)
next
  case (ta_returned r)
  then show ?thesis by (auto intro!: exI inv_local [OF inv])
next
  case (rl_check i key)
  with inv_release_check [OF inv, of t i key p s'] show ?thesis by auto
next
  case (rl_unlock e f i)
  then have "p = RL_close i (le_conn e) (map_option pg_leader_err (fst (unlock_query e f s)))" "s' = snd (unlock_query e f s)"
    by (simp_all add: Release_unlock_def split: prod.splits)
  with rl_unlock show ?thesis
    by (auto intro!: exI inv_local [OF inv] simp: unlock_query_frame)
next
  case (rl_close i c r keep)
  with inv_close [OF inv, of t c p i keep] show ?thesis by auto
next
  case (cl_swap ks i)
  then have p: "p = CL_loop i (map (\<lambda>k. the (ls_locks s i k)) ks) None" "s' = s\<lparr>ls_locks := (ls_locks s)(i := (\<lambda>_. None))\<rparr>"
    by (simp_all add: Close_swap_def)
  have G: "G i l = 0" if "ls_lost s = {}" "ls_locks s i l = None" for l
    using inv that by (simp add: leader_inv_def counts_ok_def)
  show ?thesis unfolding p
    by (intro exI, rule inv_remove [OF inv, where ks = ks and i = i]) (use cl_swap G in \<open>auto simp: domIff\<close>)
next
  case (cl_unlock e f i es r)
  with inv_close_unlock [OF inv, of t i e es r f p s'] show ?thesis by auto
next
  case (cl_close i c es r keep)
  with inv_close [OF inv, of t c p i keep] show ?thesis by auto
next
  case (cl_close_rows i c es r keep)
  with inv_close [OF inv, of t c p i keep] show ?thesis by auto
next
  case (cl_returned i r)
  then show ?thesis by (auto intro!: exI inv_local [OF inv])
next
  case (returned r)
  then show ?thesis by (auto intro!: exI inv_local [OF inv])
qed


lemma leader_inv_reach: "le_reach P s G \<Longrightarrow> \<exists>own. leader_inv own P s G"
proof (induction rule: le_reach.induct)
  case initial
  show ?case
    by (rule exI [of _ "\<lambda>_. In_pool"])
      (simp add: leader_inv_def NewPgLeaderElectors_def thread_ok_def counts_ok_def)
next
  case (goroutine P s G t n p s')
  then show ?case using leader_inv_step by blast
next
  case (lost P s G c)
  then show ?case using inv_lost by blast
qed

section \<open>Every call ends\<close>

text \<open>
  The steps a goroutine still has before it is out of the elector's methods: three queries or closes for
  \<open>TryAcquire\<close>, two for \<open>Release\<close>, two for every entry of \<open>Close\<close>, and the return.
\<close>

fun pc_left :: "pc \<Rightarrow> nat" where
  "pc_left Out = 0"
| "pc_left (TA_conn i k) = 4"
| "pc_left (TA_query i k c) = 3"
| "pc_left (TA_close i c r) = 2"
| "pc_left (TA_store i k c) = 2"
| "pc_left (TA_returned r) = 1"
| "pc_left (RL_unlock i e) = 3"
| "pc_left (RL_close i c r) = 2"
| "pc_left (CL_loop i es r) = 2 * length es + 2"
| "pc_left (CL_close i c b es r) = 2 * length es + 3"
| "pc_left (Returned r) = 1"

text \<open>The own steps of a goroutine inside a call; between them the others change the state at will.\<close>

inductive own_steps :: "pc \<Rightarrow> nat \<Rightarrow> pc \<Rightarrow> bool" where
  no_step: "own_steps p 0 p"
| next_step: "own_steps p k q \<Longrightarrow> q \<noteq> Out \<Longrightarrow> pc_step q s n r t \<Longrightarrow> own_steps p (Suc k) r"

lemma pc_step_left: "pc_step p s n q t \<Longrightarrow> p \<noteq> Out \<Longrightarrow> pc_left q < pc_left p"
  by (induction rule: pc_step.induct)
    (auto simp: TryAcquire_conn_def TryAcquire_query_def TryAcquire_store_def Release_unlock_def Close_unlock_def
      split: sum.splits fault.splits prod.splits if_splits)

lemma pc_step_enabled: "p \<noteq> Out \<Longrightarrow> \<exists>n q t. pc_step p s n q t"
proof (cases p)
  case (TA_conn i k)
  have "may_hand_out i (Inl []) s" by (simp add: may_hand_out_def)
  then show ?thesis unfolding TA_conn by (metis pc_step.ta_conn surj_pair)
next
  case (TA_query i k c)
  have "may_fault c (Fails []) s" by (simp add: may_fault_def)
  then show ?thesis unfolding TA_query by (metis pc_step.ta_query surj_pair)
next
  case (TA_store i k c)
  then show ?thesis by (metis pc_step.ta_store surj_pair)
next
  case (RL_unlock i e)
  have "may_fault (le_conn e) (Fails []) s" by (simp add: may_fault_def)
  then show ?thesis unfolding RL_unlock by (metis pc_step.rl_unlock surj_pair)
next
  case (CL_loop i es r)
  show ?thesis
  proof (cases es)
    case (Cons e es')
    have "may_fault (le_conn e) (Fails []) s" by (simp add: may_fault_def)
    then show ?thesis unfolding CL_loop Cons by (metis pc_step.cl_unlock surj_pair)
  qed (use CL_loop pc_step.cl_returned in blast)
next
  case (CL_close i c b es r)
  have "\<exists>n q t. pc_step (CL_close i c b es r) s n q t"
    using pc_step.cl_close [of i c es r s] pc_step.cl_close_rows [of i c es r s] by (cases b) (simp, blast)+
  then show ?thesis using CL_close by simp
qed (auto intro: pc_step.intros)

lemma own_steps_left: "own_steps p k q \<Longrightarrow> k + pc_left q \<le> pc_left p"
proof (induction rule: own_steps.induct)
  case (next_step p k q s n r t)
  then show ?case using pc_step_left [OF next_step.hyps(3,2)] by simp
qed simp

inductive_cases context_stepE: "pc_step p s Context_done q t"

section \<open>Properties\<close>



text \<open>C17. Two holders of a lock are one: whatever the goroutines of all instances do, and whatever queries
  fail, two entries whose keys have the same lock number and whose sessions live are the same entry
  of the same instance.\<close>

theorem Leader_exclusive:
  assumes "le_reach P s G"
    and "ls_locks s i k = Some e" "le_conn e \<notin> ls_lost s"
    and "ls_locks s j l = Some e'" "le_conn e' \<notin> ls_lost s"
    and "hashKey k = hashKey l"
  shows "i = j \<and> k = l"
proof -
  obtain own where inv: "leader_inv own P s G" using leader_inv_reach [OF assms(1)] by blast
  have e: "own (le_conn e) = In_entry i k" "holds s (hashKey k) (le_conn e)"
    using inv_entry [OF inv assms(2)] assms(3) by (simp_all add: entry_ok_def)
  have e': "own (le_conn e') = In_entry j l" "holds s (hashKey k) (le_conn e')"
    using inv_entry [OF inv assms(4)] assms(5,6) by (simp_all add: entry_ok_def)
  from holds_unique [OF e(2) e'(2)] e(1) e'(1) show ?thesis by simp
qed

text \<open>C18. While no session is lost the callers' belief is right: the acquisitions of a key an instance
  has been granted and not given up are counted by the entry, so no two instances are leader for
  keys with the same lock number.\<close>

theorem Leader_grants:
  assumes "le_reach P s G" "ls_lost s = {}" "0 < G i k" "0 < G j l" "hashKey k = hashKey l"
  shows "i = j \<and> k = l \<and> (\<exists>e. ls_locks s i k = Some e \<and> le_refCount e = int (G i k) \<and>
    ls_holder s (hashKey k) \<noteq> None)"
proof -
  obtain own where inv: "leader_inv own P s G" using leader_inv_reach [OF assms(1)] by blast
  then have c: "counts_ok s G" using assms(2) by (simp add: leader_inv_def)
  then obtain e e' where e: "ls_locks s i k = Some e" "ls_locks s j l = Some e'"
    using assms(3,4) by (fastforce simp: counts_ok_def split: option.splits)
  have ok: "entry_ok own s i k e" "entry_ok own s j l e'" using inv_entry [OF inv] e by simp_all
  then have h: "own (le_conn e) = In_entry i k" "own (le_conn e') = In_entry j l"
    "holds s (hashKey k) (le_conn e)" "holds s (hashKey k) (le_conn e')"
    using assms(2,5) by (simp_all add: entry_ok_def)
  have "le_refCount e = int (G i k)" using c e(1) ok(1) by (simp add: counts_ok_def entry_ok_def)
  moreover from holds_unique [OF h(3,4)] h(1,2) have "i = j \<and> k = l" by simp
  ultimately show ?thesis using e(1) h(3) by (auto simp: holds_def)
qed

section \<open>Whole calls\<close>

text \<open>
  The methods run without interruption, with the faults of their round trips in order (a missing
  fault is none); the pool prefers an idle connection and keeps a closed one.
\<close>

fun take_fault' :: "fault list \<Rightarrow> fault \<times> fault list" where
  "take_fault' [] = (NoFault, [])"
| "take_fault' (f # fs) = (f, fs)"

definition pick_conn :: "nat \<Rightarrow> leader_state \<Rightarrow> nat" where
  "pick_conn i s = (case List.find (\<lambda>c. ls_idle s c = Some i) [0..<ls_next s] of Some c \<Rightarrow> c | None \<Rightarrow> ls_next s)"

definition fault_on :: "nat \<Rightarrow> leader_state \<Rightarrow> fault \<Rightarrow> fault" where
  "fault_on c s f = (if c \<in> ls_lost s then Fails ''driver: bad connection'' else f)"

definition TryAcquire ::
    "nat \<Rightarrow> string \<Rightarrow> fault list \<times> leader_state \<Rightarrow> (string + bool) \<times> fault list \<times> leader_state"
where
  "TryAcquire i key fs_s =
     (let (fs, s) = fs_s
      in case TryAcquire_check i key s of
           (TA_returned r, s1) \<Rightarrow> (r, fs, s1)
         | (_, s1) \<Rightarrow>
             (let (f1, fs1) = take_fault' fs
              in case TryAcquire_conn i key
                   (case f1 of NoFault \<Rightarrow> Inr (pick_conn i s1) | Fails err \<Rightarrow> Inl err | LostReply err \<Rightarrow> Inl err) s1 of
                   (TA_query _ _ c, s2) \<Rightarrow>
                     (let (f2, fs2) = take_fault' fs1
                      in case TryAcquire_query i key c (fault_on c s2 f2) s2 of
                           (TA_store _ _ _, s3) \<Rightarrow> (Inr True, fs2, snd (TryAcquire_store i key c s3))
                         | (TA_close _ _ r, s3) \<Rightarrow> (r, fs2, conn_Close i c True s3)
                         | (_, s3) \<Rightarrow> (Inr False, fs2, s3))
                 | (TA_returned r, s2) \<Rightarrow> (r, fs1, s2)
                 | (_, s2) \<Rightarrow> (Inr False, fs1, s2)))"

definition Release ::
    "nat \<Rightarrow> string \<Rightarrow> fault list \<times> leader_state \<Rightarrow> string option \<times> fault list \<times> leader_state"
where
  "Release i key fs_s =
     (let (fs, s) = fs_s
      in case Release_check i key s of
           (RL_unlock _ e, s1) \<Rightarrow>
             (let (f, fs1) = take_fault' fs
              in case Release_unlock i e (fault_on (le_conn e) s1 f) s1 of
                   (RL_close _ c err, s2) \<Rightarrow> (err, fs1, conn_Close i c True s2)
                 | (_, s2) \<Rightarrow> (None, fs1, s2))
         | (_, s1) \<Rightarrow> (None, fs, s1))"

text \<open>How often instance \<open>i\<close> holds a key.\<close>

definition leading :: "nat \<Rightarrow> fault list \<times> leader_state \<Rightarrow> string \<Rightarrow> nat" where
  "leading i fs_s key = (case ls_locks (snd fs_s) i key of None \<Rightarrow> 0 | Some e \<Rightarrow> nat (le_refCount e))"


lemma run_goroutine:
  "le_reach (P(t := p)) s G \<Longrightarrow> pc_step p s n p' s' \<Longrightarrow> le_reach (P(t := p')) s' (record_notice n G)"
  using le_reach.goroutine [of "P(t := p)" s G t n p' s'] by simp

lemma may_fault_on: "may_fault c (fault_on c s f) s"
  by (simp add: may_fault_def fault_on_def)

lemma may_hand_out_pick: "may_hand_out i (Inr (pick_conn i s)) s"
  by (auto simp: may_hand_out_def pick_conn_def find_Some_iff split: option.split)

text \<open>A whole call is a run of the step relation that begins and ends outside the elector.\<close>

lemma TryAcquire_query_reach:
  assumes reach: "le_reach (P(t := TA_query i key c)) s G" and P: "P(t := Out) = P"
    and Q: "TryAcquire_query i key c (fault_on c s f) s = (p, s')"
  obtains (store) "p = TA_store i key c" "le_reach P (snd (TryAcquire_store i key c s')) (record_notice (Granted i key) G)"
  | (close) x where "p = TA_close i c x" "x \<noteq> Inr True" "le_reach P (conn_Close i c True s') G"
proof -
  have r: "le_reach (P(t := p)) s' G" using run_goroutine [OF reach pc_step.ta_query [OF may_fault_on Q]] by simp
  from Q consider (stored) "p = TA_store i key c" | (closed) x where "p = TA_close i c x" "x \<noteq> Inr True"
    by (auto simp: TryAcquire_query_def split: fault.splits prod.splits if_splits)
  then show thesis
  proof cases
    case stored
    define u where "u = snd (TryAcquire_store i key c s')"
    have S: "TryAcquire_store i key c s' = (TA_returned (Inr True), u)" by (simp add: TryAcquire_store_def u_def)
    have "le_reach (P(t := TA_returned (Inr True))) u (record_notice (Granted i key) G)"
      using run_goroutine [OF r [unfolded stored] pc_step.ta_store [OF S]] by (simp add: granted_def)
    from run_goroutine [OF this pc_step.ta_returned] P show thesis
      by (intro store) (simp_all add: stored u_def)
  next
    case (closed x)
    from run_goroutine [OF r [unfolded closed(1)] pc_step.ta_close [of i c x s' True]]
    have "le_reach (P(t := TA_returned x)) (conn_Close i c True s') G" by simp
    from run_goroutine [OF this pc_step.ta_returned] P closed show thesis by (intro close) simp_all
  qed
qed

lemma TryAcquire_conn_reach:
  assumes reach: "le_reach (P(t := TA_conn i key)) s G" and P: "P(t := Out) = P"
    and none: "ls_locks s i key = None" and call: "TryAcquire i key (fs, s) = (r, fs', s')"
  shows "le_reach P s' (if r = Inr True then record_notice (Granted i key) G else G)"
proof -
  have C: "TryAcquire_check i key s = (TA_conn i key, s)" using none by (simp add: TryAcquire_check_def)
  obtain f1 fs1 where f1: "take_fault' fs = (f1, fs1)" by fastforce
  show ?thesis
  proof (cases "f1 = NoFault")
    case False
    then obtain err where err: "f1 = Fails err \<or> f1 = LostReply err" by (cases f1) auto
    define x where "x = TA_returned (Inl (pg_leader_err err))"
    have D: "TryAcquire_conn i key (Inl err) s = (x, s)" by (simp add: TryAcquire_conn_def x_def)
    have "may_hand_out i (Inl err) s" by (simp add: may_hand_out_def)
    from run_goroutine [OF reach pc_step.ta_conn [OF this D]] have "le_reach (P(t := x)) s G" by simp
    from run_goroutine [OF this [unfolded x_def] pc_step.ta_returned] P have "le_reach P s G" by simp
    moreover have "s' = s \<and> r = Inl (pg_leader_err err)"
      using call C f1 err D by (auto simp: TryAcquire_def x_def)
    ultimately show ?thesis by simp
  next
    case True
    let ?c = "pick_conn i s"
    obtain s2 where D: "TryAcquire_conn i key (Inr ?c) s = (TA_query i key ?c, s2)"
      by (simp add: TryAcquire_conn_def)
    have r2: "le_reach (P(t := TA_query i key ?c)) s2 G"
      using run_goroutine [OF reach pc_step.ta_conn [OF may_hand_out_pick D]] by simp
    obtain f2 fs2 where f2: "take_fault' fs1 = (f2, fs2)" by fastforce
    obtain p s3 where Q: "TryAcquire_query i key ?c (fault_on ?c s2 f2) s2 = (p, s3)" by fastforce
    from r2 P Q show ?thesis
    proof (cases rule: TryAcquire_query_reach)
      case store
      moreover have "s' = snd (TryAcquire_store i key ?c s3) \<and> r = Inr True"
        using call C f1 True D f2 Q store by (simp add: TryAcquire_def TryAcquire_store_def)
      ultimately show ?thesis by simp
    next
      case (close x)
      moreover have "s' = conn_Close i ?c True s3 \<and> r = x"
        using call C f1 True D f2 Q close by (simp add: TryAcquire_def)
      ultimately show ?thesis by simp
    qed
  qed
qed

lemma TryAcquire_reach:
  assumes reach: "le_reach P s G" and t: "P t = Out" and call: "TryAcquire i key (fs, s) = (r, fs', s')"
  shows "le_reach P s' (if r = Inr True then record_notice (Granted i key) G else G)"
proof -
  have P: "P(t := Out) = P" using t by auto
  have r0: "le_reach (P(t := Out)) s G" using reach P by simp
  show ?thesis
  proof (cases "ls_locks s i key")
    case (Some e)
    define s1 where "s1 = set_lock i key (Some (e\<lparr>le_refCount := le_refCount e + 1\<rparr>)) s"
    have C: "TryAcquire_check i key s = (TA_returned (Inr True), s1)"
      using Some by (simp add: TryAcquire_check_def s1_def)
    have "le_reach (P(t := TA_returned (Inr True))) s1 (record_notice (granted i key (TA_returned (Inr True))) G)"
      by (rule run_goroutine [OF r0 pc_step.ta_check [OF C]])
    from run_goroutine [OF this pc_step.ta_returned] call C P show ?thesis
      by (simp add: TryAcquire_def granted_def)
  next
    case None
    have C: "TryAcquire_check i key s = (TA_conn i key, s)" using None by (simp add: TryAcquire_check_def)
    have r1: "le_reach (P(t := TA_conn i key)) s G"
      using run_goroutine [OF r0 pc_step.ta_check [OF C]] by (simp add: granted_def)
    from TryAcquire_conn_reach [OF r1 P None call] show ?thesis .
  qed
qed

lemma Release_reach:
  assumes reach: "le_reach P s G" and t: "P t = Out" and call: "Release i key (fs, s) = (r, fs', s')"
  shows "le_reach P s' (record_notice (Given_up i key) G)"
proof -
  have P: "P(t := Out) = P" using t by auto
  have r0: "le_reach (P(t := Out)) s G" using reach P by simp
  obtain p s1 where C: "Release_check i key s = (p, s1)" by fastforce
  note r1 = run_goroutine [OF r0 pc_step.rl_check [OF C]]
  from C consider (kept) "p = Returned None" | (unlock) e where "p = RL_unlock i e"
    by (auto simp: Release_check_def Let_def split: option.splits if_splits)
  then show ?thesis
  proof cases
    case kept
    have "le_reach (P(t := Returned None)) s1 (record_notice (Given_up i key) G)" using r1 kept by simp
    from run_goroutine [OF this pc_step.returned] P call C kept show ?thesis
      by (simp add: Release_def)
  next
    case (unlock e)
    obtain f fs1 where f: "take_fault' fs = (f, fs1)" by fastforce
    obtain err s2 where U: "Release_unlock i e (fault_on (le_conn e) s1 f) s1 = (RL_close i (le_conn e) err, s2)"
      by (cases "unlock_query e (fault_on (le_conn e) s1 f) s1") (simp add: Release_unlock_def)
    have "le_reach (P(t := RL_unlock i e)) s1 (record_notice (Given_up i key) G)" using r1 unlock by simp
    from run_goroutine [OF this pc_step.rl_unlock [OF may_fault_on U]]
    have "le_reach (P(t := RL_close i (le_conn e) err)) s2 (record_notice (Given_up i key) G)" by simp
    from run_goroutine [OF this pc_step.rl_close [of i "le_conn e" err s2 True]]
    have "le_reach (P(t := Returned err)) (conn_Close i (le_conn e) True s2) (record_notice (Given_up i key) G)" by simp
    from run_goroutine [OF this pc_step.returned] P call C unlock f U show ?thesis
      by (simp add: Release_def)
  qed
qed


section \<open>Runs\<close>

definition start_system :: "fault list \<times> leader_state" where
  "start_system = ([], NewPgLeaderElectors)"

lemma start_reach: "le_reach (\<lambda>_. Out) (snd start_system) (\<lambda>_ _. 0)"
  by (simp add: start_system_def le_reach.initial)

lemma start_locks [simp]: "ls_locks (snd start_system) i k = None" "ls_lost (snd start_system) = {}"
  by (simp_all add: start_system_def NewPgLeaderElectors_def)

text \<open>Instance 0 gets the lock on its first connection.\<close>

definition leader_0 :: leader_state where
  "leader_0 = \<lparr>ls_locks = (\<lambda>_ _. None)(0 := (\<lambda>_. None)(''k'' := Some \<lparr>le_conn = 0, le_id = hashKey ''k'', le_refCount = 1\<rparr>)),
     ls_idle = (\<lambda>_. None), ls_next = 1, ls_holder = (\<lambda>_. None)(hashKey ''k'' := Some (0, 1)), ls_lost = {}\<rparr>"

lemma TryAcquire_first: "TryAcquire 0 ''k'' start_system = (Inr True, [], leader_0)"
  by (simp add: TryAcquire_def TryAcquire_check_def TryAcquire_conn_def TryAcquire_query_def TryAcquire_store_def
      pick_conn_def fault_on_def pg_try_advisory_lock_def set_lock_def start_system_def NewPgLeaderElectors_def
      leader_0_def fun_eq_iff)

lemma leader_0_reach: "le_reach (\<lambda>_. Out) leader_0 (record_notice (Granted 0 ''k'') (\<lambda>_ _. 0))"
proof -
  have "TryAcquire 0 ''k'' ([], snd start_system) = (Inr True, [], leader_0)"
    using TryAcquire_first by (simp add: start_system_def)
  from TryAcquire_reach [OF start_reach _ this] show ?thesis by simp
qed

text \<open>A second instance is refused.\<close>

lemma TryAcquire_second: "fst (TryAcquire 1 ''k'' ([], leader_0)) = Inr False"
  by (simp add: TryAcquire_def TryAcquire_check_def TryAcquire_conn_def TryAcquire_query_def
      pick_conn_def fault_on_def pg_try_advisory_lock_def leader_0_def)

theorem Leader_exclusive_witness:
  "ls_locks leader_0 0 ''k'' = Some \<lparr>le_conn = 0, le_id = hashKey ''k'', le_refCount = 1\<rparr> \<and>
   (0::nat) = 0 \<and> ''k'' = ''k''"
  using Leader_exclusive [OF leader_0_reach, of 0 "''k''" "\<lparr>le_conn = 0, le_id = hashKey ''k'', le_refCount = 1\<rparr>" 0 "''k''"
      "\<lparr>le_conn = 0, le_id = hashKey ''k'', le_refCount = 1\<rparr>"]
  by (simp add: leader_0_def)

theorem Leader_grants_witness: "\<exists>e. ls_locks leader_0 0 ''k'' = Some e \<and> le_refCount e = 1 \<and> ls_holder leader_0 (hashKey ''k'') \<noteq> None"
  using Leader_grants [OF leader_0_reach, of 0 "''k''" 0 "''k''"] by (simp add: leader_0_def)

text \<open>
  The election has no lease: when the session of the leader is lost, a second instance becomes leader
  while the first still counts as one.
\<close>

lemma lost_session_two_leaders:
  "\<exists>s G. le_reach (\<lambda>_. Out) s G \<and> 0 < G 0 ''k'' \<and> 0 < G 1 ''k''"
proof -
  let ?s = "session_lost 0 leader_0"
  let ?G = "record_notice (Granted 0 ''k'') (\<lambda>_ _. 0)"
  have r: "le_reach (\<lambda>_. Out) ?s ?G" by (rule le_reach.lost [OF leader_0_reach])
  obtain fs s' where "TryAcquire 1 ''k'' ([], ?s) = (Inr True, fs, s')"
    by (simp add: TryAcquire_def TryAcquire_check_def TryAcquire_conn_def TryAcquire_query_def TryAcquire_store_def
      pick_conn_def fault_on_def pg_try_advisory_lock_def set_lock_def leader_0_def session_lost_def drop_session_def)
  from TryAcquire_reach [OF r _ this]
  have "le_reach (\<lambda>_. Out) s' (record_notice (Granted 1 ''k'') ?G)" by simp
  moreover have "0 < record_notice (Granted 1 ''k'') ?G 0 ''k''" "0 < record_notice (Granted 1 ''k'') ?G 1 ''k''" by simp_all
  ultimately show ?thesis by blast
qed

text \<open>
  An unlock that the server refused leaves the lock with the connection, and the connection goes back
  to the pool: the other instances are refused although nobody is leader.
\<close>

lemma failed_unlock_keeps_lock:
  "case Release 0 ''k'' ([Fails ''statement timeout''], leader_0) of
     (err, _, s) \<Rightarrow> err = Some (pg_leader_err ''statement timeout'') \<and> ls_locks s 0 ''k'' = None \<and>
       ls_idle s 0 = Some 0 \<and> fst (TryAcquire 1 ''k'' ([], s)) = Inr False"
  by (simp add: Release_def Release_check_def Release_unlock_def unlock_query_def fault_on_def conn_Close_def
      set_lock_def leader_0_def TryAcquire_def TryAcquire_check_def TryAcquire_conn_def TryAcquire_query_def
      pick_conn_def pg_try_advisory_lock_def)

text \<open>
  \<open>Close\<close> never scans the row of an unlock that the server answered, so it waits for the end of the context
  before it returns the connection.
\<close>

inductive_cases cl_closeE: "pc_step (CL_close i c rows_open es r) s n p t"

lemma Close_waits_for_context:
  assumes "Close_unlock i e es r NoFault s = (p, t)" "pc_step p t n q u"
  shows "n = Context_done"
  using assms by (auto simp: Close_unlock_def unlock_query_def elim: cl_closeE)

section \<open>The contract of a leader elector\<close>

text \<open>
  What the scheduler relies on, for one instance: \<open>held\<close> counts the acquisitions of a key; a call that
  answers true adds one, any other adds none, and a release, also a failed one, gives one back.
\<close>

locale leader_elector =
  fixes ok :: "'s \<Rightarrow> bool"
    and acquire :: "string \<Rightarrow> 's \<Rightarrow> (string + bool) \<times> 's"
    and release :: "string \<Rightarrow> 's \<Rightarrow> string option \<times> 's"
    and held :: "'s \<Rightarrow> string \<Rightarrow> nat"
  assumes acquired: "ok s \<Longrightarrow> acquire key s = (Inr True, t) \<Longrightarrow> held t = (held s)(key := Suc (held s key))"
    and refused: "ok s \<Longrightarrow> acquire key s = (r, t) \<Longrightarrow> r \<noteq> Inr True \<Longrightarrow> held t = held s"
    and released: "ok s \<Longrightarrow> release key s = (res, t) \<Longrightarrow> held t = (held s)(key := held s key - 1)"
    and ok_acquire: "ok s \<Longrightarrow> acquire key s = (r, t) \<Longrightarrow> ok t"
    and ok_release: "ok s \<Longrightarrow> release key s = (res, t) \<Longrightarrow> ok t"
begin

lemma acquire_release:
  assumes "ok s" "acquire key s = (Inr True, t)" "held u = held t" "ok u" "release key u = (res, v)"
  shows "held v = held s \<and> ok v"
  using assms acquired [OF assms(1,2)] released [OF assms(4,5)] ok_release by auto

end

definition counts_positive :: "fault list \<times> leader_state \<Rightarrow> bool" where
  "counts_positive fs_s \<longleftrightarrow> (\<forall>i k e. ls_locks (snd fs_s) i k = Some e \<longrightarrow> 1 \<le> le_refCount e)"

lemma TryAcquire_locks:
  assumes "TryAcquire i key (fs, s) = (r, fs', s')"
  shows "ls_locks s' = ls_locks s \<and> r \<noteq> Inr True \<or>
    r = Inr True \<and> (\<exists>e. ls_locks s' = ls_locks (set_lock i key (Some e) s) \<and>
      (case ls_locks s i key of None \<Rightarrow> le_refCount e = 1 | Some e0 \<Rightarrow> le_refCount e = le_refCount e0 + 1))"
proof (cases "ls_locks s i key")
  case (Some e)
  with assms show ?thesis by (auto simp: TryAcquire_def TryAcquire_check_def)
next
  case None
  obtain f1 fs1 where f1: "take_fault' fs = (f1, fs1)" by fastforce
  obtain f2 fs2 where f2: "take_fault' fs1 = (f2, fs2)" by fastforce
  let ?s2 = "s\<lparr>ls_idle := (ls_idle s)(pick_conn i s := None), ls_next := max (ls_next s) (Suc (pick_conn i s))\<rparr>"
  obtain p s3 where Q: "TryAcquire_query i key (pick_conn i s) (fault_on (pick_conn i s) ?s2 f2) ?s2 = (p, s3)"
    by fastforce
  have "s3 = snd (pg_try_advisory_lock (pick_conn i s) (hashKey key) ?s2) \<or> s3 = ?s2"
    using Q by (auto simp: TryAcquire_query_def split: fault.splits prod.splits)
  then have s3: "ls_locks s3 = ls_locks s" by auto
  note unfolds = TryAcquire_def TryAcquire_check_def TryAcquire_conn_def TryAcquire_store_def set_lock_def conn_Close_def
  show ?thesis
  proof (cases "f1 = NoFault")
    case False
    with assms None f1 show ?thesis by (cases f1) (auto simp: unfolds)
  next
    case no_fault: True
    note run = assms None f1 f2 Q s3 no_fault
    from Q consider (store) "p = TA_store i key (pick_conn i s)" | (close) x where "p = TA_close i (pick_conn i s) x" "x \<noteq> Inr True"
      by (auto simp: TryAcquire_query_def split: fault.splits prod.splits if_splits)
    then show ?thesis
    proof cases
      case store
      with run have "r = Inr True" "ls_locks s' = ls_locks (set_lock i key
          (Some \<lparr>le_conn = pick_conn i s, le_id = hashKey key, le_refCount = 1\<rparr>) s)"
        by (auto simp: unfolds)
      with None show ?thesis by auto
    next
      case (close x)
      with run show ?thesis by (auto simp: unfolds)
    qed
  qed
qed


lemma Release_locks:
  assumes "Release i key (fs, s) = (r, fs', s')"
  shows "ls_locks s' = (case ls_locks s i key of
      None \<Rightarrow> ls_locks s
    | Some e \<Rightarrow> ls_locks (set_lock i key
        (if 1 < le_refCount e then Some (e\<lparr>le_refCount := le_refCount e - 1\<rparr>) else None) s))"
proof (cases "ls_locks s i key")
  case None
  with assms show ?thesis by (auto simp: Release_def Release_check_def)
next
  case (Some e)
  let ?e = "e\<lparr>le_refCount := le_refCount e - 1\<rparr>"
  obtain f fs1 where f: "take_fault' fs = (f, fs1)" by fastforce
  obtain err s2 where U: "unlock_query ?e (fault_on (le_conn e) (set_lock i key None s) f) (set_lock i key None s) = (err, s2)"
    by fastforce
  have "ls_locks s2 = ls_locks (set_lock i key None s)" using unlock_query_frame(1) U by (metis snd_conv)
  with assms Some f U show ?thesis
    by (cases "1 < le_refCount e") (auto simp: Release_def Release_check_def Release_unlock_def conn_Close_def)
qed

lemma leading_acquire:
  assumes ok: "counts_positive s" and call: "TryAcquire i key s = (r, t)"
  shows "counts_positive t \<and>
    leading i t = (if r = Inr True then (leading i s)(key := Suc (leading i s key)) else leading i s)"
proof -
  obtain fs s0 fs' t0 where st: "s = (fs, s0)" "t = (fs', t0)" by fastforce
  have "TryAcquire i key (fs, s0) = (r, fs', t0)" using call by (simp add: st)
  note L = TryAcquire_locks [OF this]
  have p: "1 \<le> le_refCount e" if "ls_locks s0 j k = Some e" for j k e
    using ok that by (simp add: st counts_positive_def)
  show ?thesis
  proof (cases "r = Inr True")
    case False
    with L p show ?thesis by (auto simp: st leading_def counts_positive_def)
  next
    case True
    with L obtain e where e: "ls_locks t0 = ls_locks (set_lock i key (Some e) s0)"
      "case ls_locks s0 i key of None \<Rightarrow> le_refCount e = 1 | Some e0 \<Rightarrow> le_refCount e = le_refCount e0 + 1" by auto
    have "1 \<le> le_refCount e" using e(2) p by (fastforce split: option.splits)
    then have "counts_positive t" using p e(1) by (auto simp: st counts_positive_def set_lock_def)
    moreover have "leading i t = (leading i s)(key := Suc (leading i s key))"
      using e p by (cases "ls_locks s0 i key") (fastforce simp: st leading_def set_lock_def fun_eq_iff)+
    ultimately show ?thesis using True by simp
  qed
qed

lemma leading_release:
  assumes ok: "counts_positive s" and call: "Release i key s = (res, t)"
  shows "counts_positive t \<and> leading i t = (leading i s)(key := leading i s key - 1)"
proof -
  obtain fs s0 fs' t0 where st: "s = (fs, s0)" "t = (fs', t0)" by fastforce
  have "Release i key (fs, s0) = (res, fs', t0)" using call by (simp add: st)
  note L = Release_locks [OF this]
  have p: "1 \<le> le_refCount e" if "ls_locks s0 j k = Some e" for j k e
    using ok that by (simp add: st counts_positive_def)
  have "counts_positive t"
    using L p by (auto simp: st counts_positive_def set_lock_def split: if_splits option.splits)
  moreover have "leading i t = (leading i s)(key := leading i s key - 1)"
  proof (cases "ls_locks s0 i key")
    case None
    with L show ?thesis by (auto simp: st leading_def fun_eq_iff)
  next
    case (Some e)
    with p [OF Some] L show ?thesis by (auto simp: st leading_def set_lock_def fun_eq_iff)
  qed
  ultimately show ?thesis by simp
qed

text \<open>Each instance's elector meets the contract, whatever faults occur.\<close>

interpretation pg_leader: leader_elector counts_positive "TryAcquire i" "Release i" "leading i" for i
proof unfold_locales
  fix s t :: "fault list \<times> leader_state" and key r res
  assume ok: "counts_positive s"
  show "leading i t = (leading i s)(key := Suc (leading i s key))" if "TryAcquire i key s = (Inr True, t)"
    using leading_acquire [OF ok that] by simp
  show "leading i t = leading i s" if "TryAcquire i key s = (r, t)" "r \<noteq> Inr True"
    using leading_acquire [OF ok that(1)] that(2) by simp
  show "leading i t = (leading i s)(key := leading i s key - 1)" if "Release i key s = (res, t)"
    using leading_release [OF ok that] by simp
  show "counts_positive t" if "TryAcquire i key s = (r, t)" using leading_acquire [OF ok that] by simp
  show "counts_positive t" if "Release i key s = (res, t)" using leading_release [OF ok that] by simp
qed

end
