(* ===== verification/Job.thy ===== *)
theory Job
  imports Http
begin

text \<open>
  \<open>job/job.go\<close>, \<open>job/backend.go\<close> and \<open>job/enqueuer.go\<close>: job options, the interface of persistent
  backends and the enqueuer.  A job is a value of any type \<open>'j\<close>; \<open>job_iface\<close> holds what the code asks
  of it (its name and its JSON form).  The in-memory channel is the list of the envelopes in its
  buffer.  Locale \<open>job_backend\<close> is the contract of a backend towards the enqueuer.
\<close>

section \<open>Jobs and options\<close>

record 'j job_iface =
  ji_JobName :: "'j \<Rightarrow> string"
  ji_Marshal :: "'j \<Rightarrow> string + string"

record jobOptions =
  jo_queue :: string
  jo_persist :: bool
  jo_priority :: int

type_synonym JobOption = "jobOptions \<Rightarrow> jobOptions"

definition defaultJobOptions :: jobOptions where
  "defaultJobOptions = \<lparr>jo_queue = ''default'', jo_persist = False, jo_priority = 0\<rparr>"

definition WithQueue :: "string \<Rightarrow> JobOption" where
  "WithQueue name = (\<lambda>o'. o'\<lparr>jo_queue := name\<rparr>)"

definition WithPersist :: JobOption where
  "WithPersist = (\<lambda>o'. o'\<lparr>jo_persist := True\<rparr>)"

definition WithPriority :: "int \<Rightarrow> JobOption" where
  "WithPriority p = (\<lambda>o'. o'\<lparr>jo_priority := p\<rparr>)"

text \<open>The loop \<open>for _, fn := range opts\<close>: later options win.\<close>

fun apply_options :: "('a \<Rightarrow> 'a) list \<Rightarrow> 'a \<Rightarrow> 'a" where
  "apply_options [] a = a"
| "apply_options (fn # fns) a = apply_options fns (fn a)"

section \<open>Backends\<close>

record PersistedJob =
  pj_ID :: int
  pj_Name :: string
  pj_Queue :: string
  pj_Priority :: int
  pj_Payload :: string
  pj_Attempts :: int
  pj_MaxAttempts :: int
  pj_LockedBy :: string
  pj_CreatedAt :: go_time

record QueueDetail =
  qd_Name :: string
  qd_Pending :: int
  qd_Running :: int

record QueueStats =
  qs_Pending :: int
  qs_Running :: int
  qs_Completed :: int
  qs_Dead :: int
  qs_Queues :: "string \<rightharpoonup> QueueDetail"

text \<open>
  The interface \<open>Backend\<close>; an error is its text.  \<open>'s\<close> is the state the backend lives in.
\<close>

record ('j, 's) Backend =
  be_Enqueue :: "'j \<Rightarrow> jobOptions \<Rightarrow> 's \<Rightarrow> string option \<times> 's"
  be_Fetch :: "string list \<Rightarrow> string \<Rightarrow> 's \<Rightarrow> (string + PersistedJob option) \<times> 's"
  be_Complete :: "int \<Rightarrow> 's \<Rightarrow> string option \<times> 's"
  be_Fail :: "int \<Rightarrow> string option \<Rightarrow> 's \<Rightarrow> string option \<times> 's"
  be_Dead :: "int \<Rightarrow> string option \<Rightarrow> 's \<Rightarrow> string option \<times> 's"
  be_RetryDead :: "int \<Rightarrow> 's \<Rightarrow> string option \<times> 's"
  be_Stats :: "'s \<Rightarrow> (string + QueueStats) \<times> 's"
  be_Cleanup :: "go_time \<Rightarrow> 's \<Rightarrow> (string + int) \<times> 's"

section \<open>The enqueuer\<close>

record 'j envelope =
  en_job :: 'j
  en_opts :: jobOptions
  en_enqueuedAt :: go_time

text \<open>\<open>eq_size\<close> is the capacity of the channel.\<close>

record ('j, 's) Enqueuer =
  eq_size :: nat
  eq_backend :: "('j, 's) Backend option"
  eq_logger :: logger

type_synonym ('j, 's) EnqueuerOption = "('j, 's) Enqueuer \<Rightarrow> ('j, 's) Enqueuer"

definition WithBackend :: "('j, 's) Backend \<Rightarrow> ('j, 's) EnqueuerOption" where
  "WithBackend b = (\<lambda>e. e\<lparr>eq_backend := Some b\<rparr>)"

definition WithQueueSize :: "nat \<Rightarrow> ('j, 's) EnqueuerOption" where
  "WithQueueSize n = (\<lambda>e. e\<lparr>eq_size := n\<rparr>)"

definition NewEnqueuer :: "logger \<Rightarrow> ('j, 's) EnqueuerOption list \<Rightarrow> ('j, 's) Enqueuer" where
  "NewEnqueuer lg opts = apply_options opts \<lparr>eq_size = 1000, eq_backend = None, eq_logger = lg\<rparr>"

text \<open>
  What a call of \<open>Enqueue\<close> does before it touches the channel: reject, hand the job to the backend,
  or reach the \<open>select\<close> with an envelope.
\<close>

datatype ('j, 's) enqueue_plan =
    Reject string
  | Persist "'s \<Rightarrow> string option \<times> 's"
  | Send "'j envelope"

definition Enqueue_plan ::
    "'j job_iface \<Rightarrow> ('j, 's) Enqueuer \<Rightarrow> go_time \<Rightarrow> 'j \<Rightarrow> JobOption list \<Rightarrow> ('j, 's) enqueue_plan"
where
  "Enqueue_plan I e now j opts =
     (let o' = apply_options opts defaultJobOptions
      in if jo_persist o'
         then (case eq_backend e of
                 None \<Rightarrow> Reject (''job: no persistent backend configured for job '' @ ji_JobName I j)
               | Some b \<Rightarrow> Persist (be_Enqueue b j o'))
         else Send \<lparr>en_job = j, en_opts = o', en_enqueuedAt = now\<rparr>)"

text \<open>
  All outcomes a call may have, on the buffer and the backend's state.  \<open>done\<close> is the error of the
  context once it is done.  When both branches of the \<open>select\<close> are ready either may be taken; when
  none is, the call blocks and there is no outcome.  (A receiver that already waits is the
  handoff of theory \<open>Worker\<close>.)
\<close>

definition Enqueue ::
    "'j job_iface \<Rightarrow> ('j, 's) Enqueuer \<Rightarrow> string option \<Rightarrow> go_time \<Rightarrow> 'j \<Rightarrow> JobOption list \<Rightarrow>
     'j envelope list \<times> 's \<Rightarrow> (string option \<times> 'j envelope list \<times> 's) list"
where
  "Enqueue I e ctx_done now j opts qs =
     (let (q, s) = qs
      in case Enqueue_plan I e now j opts of
           Reject err \<Rightarrow> [(Some err, q, s)]
         | Persist f \<Rightarrow> (let (err, s') = f s in [(err, q, s')])
         | Send env \<Rightarrow>
             (if length q < eq_size e then [(None, q @ [env], s)] else []) @
             (case ctx_done of None \<Rightarrow> [] | Some err \<Rightarrow> [(Some err, q, s)]))"

section \<open>Lemmas\<close>

lemma apply_options_append: "apply_options (fs @ gs) a = apply_options gs (apply_options fs a)"
  by (induction fs arbitrary: a) simp_all

lemma apply_options_fold: "apply_options fs a = fold (\<lambda>f. f) fs a"
  by (induction fs arbitrary: a) simp_all

text \<open>
  The contract of a backend towards the enqueuer: an enqueued job is among the stored ones, a failed
  call stores nothing.  \<open>stored\<close> lists the jobs in the order they were accepted.
\<close>

locale job_backend =
  fixes enq :: "'j \<Rightarrow> jobOptions \<Rightarrow> 's \<Rightarrow> string option \<times> 's"
    and stored :: "'s \<Rightarrow> 'a list"
    and entry :: "'j \<Rightarrow> jobOptions \<Rightarrow> 's \<Rightarrow> 'a"
  assumes enq_ok: "enq j o' s = (None, t) \<Longrightarrow> stored t = stored s @ [entry j o' s]"
    and enq_err: "enq j o' s = (Some err, t) \<Longrightarrow> stored t = stored s"
begin

text \<open>One call adds one entry in one place or, when it reports an error, nothing anywhere.\<close>

lemma Enqueue_adds:
  assumes "eq_backend e = None \<or> (\<exists>b. eq_backend e = Some b \<and> be_Enqueue b = enq)"
    and "(res, q', t) \<in> set (Enqueue I e cd now j opts (q, s))"
  shows "if res = None
    then (if jo_persist (apply_options opts defaultJobOptions)
          then q' = q \<and> stored t = stored s @ [entry j (apply_options opts defaultJobOptions) s]
          else q' = q @ [\<lparr>en_job = j, en_opts = apply_options opts defaultJobOptions, en_enqueuedAt = now\<rparr>] \<and>
            t = s \<and> length q' \<le> eq_size e)
    else q' = q \<and> stored t = stored s"
proof (cases "jo_persist (apply_options opts defaultJobOptions)")
  case True
  obtain r t' where r: "enq j (apply_options opts defaultJobOptions) s = (r, t')" by fastforce
  from True assms r show ?thesis
    by (cases r) (auto simp: Enqueue_def Enqueue_plan_def Let_def enq_ok enq_err split: option.splits)
next
  case False
  with assms show ?thesis
    by (auto simp: Enqueue_def Enqueue_plan_def Let_def split: option.splits if_splits)
qed

end

end
