(* ===== verification/Scheduler.thy ===== *)
theory Scheduler
  imports PgLeader Job
begin

text \<open>
  \<open>schedule/schedule.go\<close>: the scheduler, its registration of cron entries, a tick with leader election,
  and its start and shutdown.  The cron library is not under \<open>src/\<close>: the errors of its parser are a
  parameter, its entries are recorded, and what its documentation says of \<open>Start\<close> and \<open>Stop\<close> is
  the state \<open>cron_running\<close> and the rule \<open>fire\<close>.  The callback \<open>onError\<close> is the caller's code: its calls
  are recorded.
\<close>

section \<open>Data\<close>

record 'j Definition =
  sd_Name :: string
  sd_Cron :: string
  sd_Job :: 'j
  sd_Options :: "JobOption list"
  sd_Overlap :: bool
  sd_Timezone :: "string option"

text \<open>The interface \<open>LeaderElector\<close>, on the state it lives in.\<close>

record 'l LeaderElector =
  lf_TryAcquire :: "string \<Rightarrow> 'l \<Rightarrow> (string + bool) \<times> 'l"
  lf_Release :: "string \<Rightarrow> 'l \<Rightarrow> string option \<times> 'l"

text \<open>An entry of the cron library: its specification, and whether it skips while still running.\<close>

record 'j cron_entry =
  ce_spec :: string
  ce_skip :: bool
  ce_def :: "'j Definition"

record ('j, 's, 'l) Scheduler =
  sc_definitions :: "'j Definition list"
  sc_enqueuer :: "('j, 's) Enqueuer"
  sc_logger :: logger
  sc_leader :: "'l LeaderElector option"
  sc_onError :: bool

text \<open>What the ticks of a scheduler change.\<close>

record ('j, 's, 'l) sched_world =
  sw_buffer :: "'j envelope list"
  sw_backend :: 's
  sw_leader :: 'l
  sw_log :: "log_entry list"
  sw_errors :: "(string \<times> string) list"

type_synonym ('j, 's, 'l) SchedulerOption = "('j, 's, 'l) Scheduler \<Rightarrow> ('j, 's, 'l) Scheduler"

definition WithOnError :: "('j, 's, 'l) SchedulerOption" where
  "WithOnError s = s\<lparr>sc_onError := True\<rparr>"

definition NewScheduler ::
    "('j, 's) Enqueuer \<Rightarrow> logger \<Rightarrow> 'l LeaderElector option \<Rightarrow> ('j, 's, 'l) SchedulerOption list \<Rightarrow>
     ('j, 's, 'l) Scheduler"
where
  "NewScheduler e lg leader opts =
     apply_options opts
       \<lparr>sc_definitions = [], sc_enqueuer = e, sc_logger = lg, sc_leader = leader, sc_onError = False\<rparr>"

definition Register :: "'j Definition list \<Rightarrow> ('j, 's, 'l) Scheduler \<Rightarrow> ('j, 's, 'l) Scheduler" where
  "Register defs s = s\<lparr>sc_definitions := sc_definitions s @ defs\<rparr>"

section \<open>A tick\<close>

definition notifyError ::
    "('j, 's, 'l) Scheduler \<Rightarrow> string \<Rightarrow> string \<Rightarrow> ('j, 's, 'l) sched_world \<Rightarrow> ('j, 's, 'l) sched_world"
where
  "notifyError sc name err w = (if sc_onError sc then w\<lparr>sw_errors := sw_errors w @ [(name, err)]\<rparr> else w)"

definition sched_log ::
    "('j, 's, 'l) Scheduler \<Rightarrow> log_level \<Rightarrow> string \<Rightarrow> (string \<times> string) list \<Rightarrow>
     ('j, 's, 'l) sched_world \<Rightarrow> ('j, 's, 'l) sched_world"
where
  "sched_log sc level msg attrs w = w\<lparr>sw_log := log_record level (sc_logger sc) msg attrs (sw_log w)\<rparr>"

text \<open>
  \<open>Enqueue\<close> under the context \<open>Background\<close>, which never ends: no outcome means the call blocks on the
  full channel, and then \<open>None\<close> is its result.
\<close>

definition tick_Enqueue ::
    "'j job_iface \<Rightarrow> ('j, 's, 'l) Scheduler \<Rightarrow> go_time \<Rightarrow> 'j Definition \<Rightarrow> ('j, 's, 'l) sched_world \<Rightarrow>
     (string option \<times> ('j, 's, 'l) sched_world) option"
where
  "tick_Enqueue I sc now def w =
     (case Enqueue I (sc_enqueuer sc) None now (sd_Job def) (sd_Options def) (sw_buffer w, sw_backend w) of
        [] \<Rightarrow> None
      | (err, q, s) # _ \<Rightarrow> Some (err, w\<lparr>sw_buffer := q, sw_backend := s\<rparr>))"

definition tick_body ::
    "'j job_iface \<Rightarrow> ('j, 's, 'l) Scheduler \<Rightarrow> go_time \<Rightarrow> 'j Definition \<Rightarrow> ('j, 's, 'l) sched_world \<Rightarrow>
     ('j, 's, 'l) sched_world option"
where
  "tick_body I sc now def w =
     (case tick_Enqueue I sc now def w of
        None \<Rightarrow> None
      | Some (None, w1) \<Rightarrow> Some w1
      | Some (Some err, w1) \<Rightarrow>
          Some (notifyError sc (sd_Name def) err
            (sched_log sc LevelError ''schedule: enqueue failed'' [(''name'', sd_Name def), (''error'', err)] w1)))"

definition lock_key :: "'j Definition \<Rightarrow> string" where
  "lock_key def = ''schedule:'' @ sd_Name def"

definition tick_release ::
    "('j, 's, 'l) Scheduler \<Rightarrow> 'l LeaderElector \<Rightarrow> 'j Definition \<Rightarrow> ('j, 's, 'l) sched_world \<Rightarrow> ('j, 's, 'l) sched_world"
where
  "tick_release sc L def w =
     (case lf_Release L (lock_key def) (sw_leader w) of
        (None, l) \<Rightarrow> w\<lparr>sw_leader := l\<rparr>
      | (Some err, l) \<Rightarrow>
          sched_log sc LevelError ''schedule: leader release failed''
            [(''name'', sd_Name def), (''error'', err)] (w\<lparr>sw_leader := l\<rparr>))"

text \<open>
  The function given to \<open>cron.AddJob\<close>: \<open>Inr\<close> when it returns, \<open>Inl\<close> the world in which it blocks for ever.
\<close>

definition tick ::
    "'j job_iface \<Rightarrow> ('j, 's, 'l) Scheduler \<Rightarrow> go_time \<Rightarrow> 'j Definition \<Rightarrow> ('j, 's, 'l) sched_world \<Rightarrow>
     ('j, 's, 'l) sched_world + ('j, 's, 'l) sched_world"
where
  "tick I sc now def w =
     (case sc_leader sc of
        None \<Rightarrow> (case tick_body I sc now def w of None \<Rightarrow> Inl w | Some w1 \<Rightarrow> Inr w1)
      | Some L \<Rightarrow>
          (case lf_TryAcquire L (lock_key def) (sw_leader w) of
             (Inl err, l) \<Rightarrow>
               Inr (notifyError sc (sd_Name def) err
                 (sched_log sc LevelError ''schedule: leader election failed''
                   [(''name'', sd_Name def), (''error'', err)] (w\<lparr>sw_leader := l\<rparr>)))
           | (Inr acquired, l) \<Rightarrow>
               if \<not> acquired
               then Inr (sched_log sc LevelDebug ''schedule: skipped (not leader)''
                      [(''name'', sd_Name def)] (w\<lparr>sw_leader := l\<rparr>))
               else (case tick_body I sc now def (w\<lparr>sw_leader := l\<rparr>) of
                       None \<Rightarrow> Inl (w\<lparr>sw_leader := l\<rparr>)
                     | Some w1 \<Rightarrow> Inr (tick_release sc L def w1))))"

section \<open>Registration with cron\<close>

definition cron_spec :: "'j Definition \<Rightarrow> string" where
  "cron_spec def =
     (case sd_Timezone def of None \<Rightarrow> sd_Cron def | Some tz \<Rightarrow> ''CRON_TZ='' @ tz @ '' '' @ sd_Cron def)"

text \<open>\<open>parse\<close> is the parameter: the error of the cron library for a specification.\<close>

definition addDefinition ::
    "(string \<Rightarrow> string option) \<Rightarrow> 'j Definition \<Rightarrow> 'j cron_entry list \<Rightarrow> string option \<times> 'j cron_entry list"
where
  "addDefinition parse def es =
     (case parse (cron_spec def) of
        Some err \<Rightarrow> (Some err, es)
      | None \<Rightarrow> (None, es @ [\<lparr>ce_spec = cron_spec def, ce_skip = \<not> sd_Overlap def, ce_def = def\<rparr>]))"

fun add_definitions ::
    "(string \<Rightarrow> string option) \<Rightarrow> logger \<Rightarrow> 'j Definition list \<Rightarrow> 'j cron_entry list \<Rightarrow> log_entry list \<Rightarrow>
     'j cron_entry list \<times> log_entry list"
where
  "add_definitions parse lg [] es log = (es, log)"
| "add_definitions parse lg (def # defs) es log =
     (case addDefinition parse def es of
        (Some err, es1) \<Rightarrow>
          add_definitions parse lg defs es1
            (log_record LevelError lg ''schedule: failed to add definition''
              [(''name'', sd_Name def), (''cron'', sd_Cron def), (''error'', err)] log)
      | (None, es1) \<Rightarrow>
          add_definitions parse lg defs es1
            (log_record LevelInfo lg ''schedule: registered'' [(''name'', sd_Name def), (''cron'', sd_Cron def)] log))"

text \<open>The adapter \<open>cronLogger\<close>.\<close>

definition cron_Info :: "logger \<Rightarrow> string \<Rightarrow> (string \<times> string) list \<Rightarrow> log_entry list \<Rightarrow> log_entry list" where
  "cron_Info lg msg kvs log = log_record LevelInfo lg (''schedule: '' @ msg) kvs log"

definition cron_Error :: "logger \<Rightarrow> string \<Rightarrow> string \<Rightarrow> (string \<times> string) list \<Rightarrow> log_entry list \<Rightarrow> log_entry list" where
  "cron_Error lg err msg kvs log = log_record LevelError lg (''schedule: '' @ msg) ((''error'', err) # kvs) log"

section \<open>Start and shutdown\<close>

text \<open>
  \<open>ss_inflight\<close>: the ticks that run, by the index of their entry; \<open>ss_starters\<close>: the callers of \<open>Start\<close> that wait
  in its \<open>select\<close>; \<open>ss_waiters\<close>: the callers of \<open>Shutdown\<close> that wait.
\<close>

record 'j sched_state =
  ss_entries :: "'j cron_entry list"
  ss_cron_running :: bool
  ss_started :: bool
  ss_stopped :: bool
  ss_inflight :: "nat list"
  ss_starters :: nat
  ss_waiters :: nat
  ss_log :: "log_entry list"

definition sched_init :: "'j sched_state" where
  "sched_init = \<lparr>ss_entries = [], ss_cron_running = False, ss_started = False, ss_stopped = False,
     ss_inflight = [], ss_starters = 0, ss_waiters = 0, ss_log = []\<rparr>"

definition Start_call :: "(string \<Rightarrow> string option) \<Rightarrow> ('j, 's, 'l) Scheduler \<Rightarrow> 'j sched_state \<Rightarrow> 'j sched_state" where
  "Start_call parse sc s =
     (if ss_started s then s
      else (let (es, log) = add_definitions parse (sc_logger sc) (sc_definitions sc) (ss_entries s) (ss_log s)
            in s\<lparr>ss_started := True, ss_cron_running := True, ss_starters := Suc (ss_starters s), ss_entries := es,
                 ss_log := log_record LevelInfo (sc_logger sc) ''schedule: started''
                   [(''definitions'', itoa (int (length (sc_definitions sc))))] log\<rparr>))"

definition Shutdown_begin :: "'j sched_state \<Rightarrow> 'j sched_state" where
  "Shutdown_begin s = s\<lparr>ss_stopped := True, ss_cron_running := False, ss_waiters := Suc (ss_waiters s)\<rparr>"

datatype sched_event =
    Start_called
  | Start_returned bool
  | Fired nat
  | Tick_ended nat
  | Shutdown_called
  | Shutdown_ok
  | Shutdown_timeout

text \<open>\<open>Start_returned True\<close> when the context ended, \<open>False\<close> when \<open>stopCh\<close> was closed.\<close>

inductive sched_step ::
    "(string \<Rightarrow> string option) \<Rightarrow> ('j, 's, 'l) Scheduler \<Rightarrow> 'j sched_state \<Rightarrow> sched_event \<Rightarrow> 'j sched_state \<Rightarrow> bool"
  for parse sc
where
  start: "sched_step parse sc s Start_called (Start_call parse sc s)"
| start_returned: "0 < ss_starters s \<Longrightarrow> by_ctx \<or> ss_stopped s \<Longrightarrow>
    sched_step parse sc s (Start_returned by_ctx) (s\<lparr>ss_starters := ss_starters s - 1\<rparr>)"
| fire: "ss_cron_running s \<Longrightarrow> n < length (ss_entries s) \<Longrightarrow>
    \<not> (ce_skip (ss_entries s ! n) \<and> n \<in> set (ss_inflight s)) \<Longrightarrow>
    sched_step parse sc s (Fired n) (s\<lparr>ss_inflight := ss_inflight s @ [n]\<rparr>)"
| tick_ended: "n \<in> set (ss_inflight s) \<Longrightarrow>
    sched_step parse sc s (Tick_ended n) (s\<lparr>ss_inflight := remove1 n (ss_inflight s)\<rparr>)"
| shutdown: "sched_step parse sc s Shutdown_called (Shutdown_begin s)"
| shutdown_ok: "0 < ss_waiters s \<Longrightarrow> ss_inflight s = [] \<Longrightarrow>
    sched_step parse sc s Shutdown_ok (s\<lparr>ss_waiters := ss_waiters s - 1\<rparr>)"
| shutdown_timeout: "0 < ss_waiters s \<Longrightarrow>
    sched_step parse sc s Shutdown_timeout (s\<lparr>ss_waiters := ss_waiters s - 1\<rparr>)"

inductive sched_run ::
    "(string \<Rightarrow> string option) \<Rightarrow> ('j, 's, 'l) Scheduler \<Rightarrow> 'j sched_state \<Rightarrow> sched_event list \<Rightarrow> 'j sched_state \<Rightarrow> bool"
  for parse sc
where
  none: "sched_run parse sc s [] s"
| more: "sched_step parse sc s e t \<Longrightarrow> sched_run parse sc t es u \<Longrightarrow> sched_run parse sc s (e # es) u"


section \<open>Lemmas\<close>

lemma sched_log_same [simp]:
  "sw_buffer (sched_log sc lv msg attrs w) = sw_buffer w" "sw_backend (sched_log sc lv msg attrs w) = sw_backend w"
  "sw_leader (sched_log sc lv msg attrs w) = sw_leader w" "sw_errors (sched_log sc lv msg attrs w) = sw_errors w"
  by (simp_all add: sched_log_def)

lemma notifyError_same [simp]:
  "sw_buffer (notifyError sc n err w) = sw_buffer w" "sw_backend (notifyError sc n err w) = sw_backend w"
  "sw_leader (notifyError sc n err w) = sw_leader w"
  "sw_errors (notifyError sc n err w) = sw_errors w @ (if sc_onError sc then [(n, err)] else [])"
  by (simp_all add: notifyError_def)

lemma tick_release_same [simp]:
  "sw_buffer (tick_release sc L def w) = sw_buffer w" "sw_backend (tick_release sc L def w) = sw_backend w"
  "sw_errors (tick_release sc L def w) = sw_errors w"
  "sw_leader (tick_release sc L def w) = snd (lf_Release L (lock_key def) (sw_leader w))"
  by (simp_all add: tick_release_def split: prod.split option.split)

text \<open>The body enqueues once and reports the error; it does not touch the leader's state.\<close>

definition enqueue_outcomes ::
    "'j job_iface \<Rightarrow> ('j, 's, 'l) Scheduler \<Rightarrow> go_time \<Rightarrow> 'j Definition \<Rightarrow> ('j, 's, 'l) sched_world \<Rightarrow>
     (string option \<times> 'j envelope list \<times> 's) list"
where
  "enqueue_outcomes I sc now def w =
     Enqueue I (sc_enqueuer sc) None now (sd_Job def) (sd_Options def) (sw_buffer w, sw_backend w)"

definition enqueued_once ::
    "'j job_iface \<Rightarrow> ('j, 's, 'l) Scheduler \<Rightarrow> go_time \<Rightarrow> 'j Definition \<Rightarrow>
     ('j, 's, 'l) sched_world \<Rightarrow> ('j, 's, 'l) sched_world \<Rightarrow> bool"
where
  "enqueued_once I sc now def w w' \<longleftrightarrow>
     (\<exists>err. (err, sw_buffer w', sw_backend w') \<in> set (enqueue_outcomes I sc now def w) \<and>
        sw_errors w' = sw_errors w @
          (case err of Some e \<Rightarrow> if sc_onError sc then [(sd_Name def, e)] else [] | None \<Rightarrow> []))"

lemma tick_body_cases:
  "case tick_body I sc now def w of
     None \<Rightarrow> enqueue_outcomes I sc now def w = []
   | Some w1 \<Rightarrow> enqueued_once I sc now def w w1 \<and> sw_leader w1 = sw_leader w"
proof (cases "enqueue_outcomes I sc now def w")
  case Nil
  then show ?thesis by (simp add: tick_body_def tick_Enqueue_def enqueue_outcomes_def)
next
  case (Cons o' os)
  obtain err q s where o': "o' = (err, q, s)" by (cases o')
  have "tick_Enqueue I sc now def w = Some (err, w\<lparr>sw_buffer := q, sw_backend := s\<rparr>)"
    using Cons by (simp add: tick_Enqueue_def enqueue_outcomes_def o')
  moreover have "(err, q, s) \<in> set (enqueue_outcomes I sc now def w)" using Cons by (simp add: o')
  ultimately show ?thesis
    by (cases err) (auto simp: tick_body_def enqueued_once_def intro!: exI [of _ err])
qed

context leader_elector
begin

text \<open>A tick under any elector that meets the contract.\<close>

lemma tick_leader:
  assumes ok: "ok (sw_leader w)" and L: "sc_leader sc = Some \<lparr>lf_TryAcquire = acquire, lf_Release = release\<rparr>"
  shows "case tick I sc now def w of
     Inr w' \<Rightarrow> ok (sw_leader w') \<and> held (sw_leader w') = held (sw_leader w) \<and>
       (if fst (acquire (lock_key def) (sw_leader w)) = Inr True then enqueued_once I sc now def w w'
        else sw_buffer w' = sw_buffer w \<and> sw_backend w' = sw_backend w)
   | Inl w' \<Rightarrow> fst (acquire (lock_key def) (sw_leader w)) = Inr True \<and> enqueue_outcomes I sc now def w = [] \<and>
       held (sw_leader w') = (held (sw_leader w))(lock_key def := Suc (held (sw_leader w) (lock_key def)))"
proof -
  obtain r l where a: "acquire (lock_key def) (sw_leader w) = (r, l)" by fastforce
  have okl: "ok l" by (rule ok_acquire [OF ok a])
  show ?thesis
  proof (cases "r = Inr True")
    case False
    with refused [OF ok a] okl show ?thesis
      by (cases r) (simp_all add: tick_def L a)
  next
    case True
    let ?w = "w\<lparr>sw_leader := l\<rparr>"
    have same: "enqueue_outcomes I sc now def ?w = enqueue_outcomes I sc now def w"
      "enqueued_once I sc now def ?w w' = enqueued_once I sc now def w w'" for w'
      by (simp_all add: enqueue_outcomes_def enqueued_once_def)
    show ?thesis
    proof (cases "tick_body I sc now def ?w")
      case None
      with tick_body_cases [of I sc now def ?w] same True a acquired [OF ok] show ?thesis
        by (simp add: tick_def L)
    next
      case (Some w1)
      with tick_body_cases [of I sc now def ?w] same have w1: "enqueued_once I sc now def w w1" "sw_leader w1 = l"
        by simp_all
      obtain res l' where r': "release (lock_key def) l = (res, l')" by fastforce
      have "enqueued_once I sc now def w (tick_release sc \<lparr>lf_TryAcquire = acquire, lf_Release = release\<rparr> def w1)"
        using w1(1) by (simp add: enqueued_once_def)
      with True a Some w1(2) r' acquire_release [OF ok a [unfolded True] refl okl r'] show ?thesis
        by (simp add: tick_def L)
    qed
  qed
qed

end

definition pg_elector :: "nat \<Rightarrow> (fault list \<times> leader_state) LeaderElector" where
  "pg_elector i = \<lparr>lf_TryAcquire = TryAcquire i, lf_Release = Release i\<rparr>"

section \<open>Properties\<close>


text \<open>The lifecycle: once a started scheduler is told to stop, the cron library stays stopped.\<close>

lemma run_started: "sched_run parse sc s es t \<Longrightarrow> ss_started s \<or> Start_called \<in> set es \<Longrightarrow> ss_started t"
proof (induction rule: sched_run.induct)
  case (more s e t es u)
  then show ?case by (auto simp: Start_call_def Shutdown_begin_def split: prod.splits elim!: sched_step.cases)
qed simp

lemma step_stopped:
  assumes "sched_step parse sc s e t" "ss_started s" "\<not> ss_cron_running s"
  shows "ss_started t \<and> \<not> ss_cron_running t \<and> (\<forall>n. e \<noteq> Fired n) \<and>
    (ss_inflight s = [] \<longrightarrow> ss_inflight t = []) \<and> (e = Shutdown_ok \<longrightarrow> ss_inflight t = [])"
  using assms by cases (auto simp: Start_call_def Shutdown_begin_def split: prod.splits)

lemma run_stopped:
  "sched_run parse sc s es t \<Longrightarrow> ss_started s \<Longrightarrow> \<not> ss_cron_running s \<Longrightarrow>
   (\<forall>n. Fired n \<notin> set es) \<and> \<not> ss_cron_running t \<and>
   (ss_inflight s = [] \<or> Shutdown_ok \<in> set es \<longrightarrow> ss_inflight t = [])"
proof (induction rule: sched_run.induct)
  case (more s e t es u)
  from step_stopped [OF more.hyps(1) more.prems] more.IH show ?case by auto
qed simp

lemma run_append: "sched_run parse sc s (es @ es') u \<Longrightarrow> \<exists>t. sched_run parse sc s es t \<and> sched_run parse sc t es' u"
proof (induction es arbitrary: s)
  case Nil
  then show ?case by (auto intro: sched_run.none)
next
  case (Cons e es)
  from Cons.prems obtain t where "sched_step parse sc s e t" "sched_run parse sc t (es @ es') u"
    by (auto elim: sched_run.cases)
  with Cons.IH show ?case by (meson sched_run.more)
qed

inductive_cases sched_run_consE: "sched_run parse sc s (e # es) t"
inductive_cases sched_shutdownE: "sched_step parse sc s Shutdown_called t"

text \<open>C25. After \<open>Start\<close> a call of \<open>Shutdown\<close> is final: no tick begins after it, and once a \<open>Shutdown\<close> has
  returned without an error no tick runs.\<close>

theorem Scheduler_shutdown:
  assumes "sched_run parse sc sched_init (es @ Shutdown_called # es') t" "Start_called \<in> set es"
  shows "(\<forall>n. Fired n \<notin> set es') \<and> (Shutdown_ok \<in> set es' \<longrightarrow> ss_inflight t = [])"
proof -
  from run_append [OF assms(1)] obtain s where s: "sched_run parse sc sched_init es s"
    "sched_run parse sc s (Shutdown_called # es') t" by blast
  have "ss_started s" using run_started [OF s(1)] assms(2) by simp
  moreover from s(2) have "sched_run parse sc (Shutdown_begin s) es' t"
    by (auto elim!: sched_run_consE sched_shutdownE)
  ultimately show ?thesis
    using run_stopped [of parse sc "Shutdown_begin s" es' t] by (auto simp: Shutdown_begin_def)
qed

text \<open>A definition without \<open>Overlap\<close> has at most one tick that runs.\<close>

definition no_overlap :: "'j sched_state \<Rightarrow> bool" where
  "no_overlap s \<longleftrightarrow>
     (\<forall>n < length (ss_entries s). ce_skip (ss_entries s ! n) \<longrightarrow> count_list (ss_inflight s) n \<le> 1) \<and>
     (\<forall>n \<in> set (ss_inflight s). n < length (ss_entries s)) \<and>
     (\<not> ss_started s \<longrightarrow> ss_entries s = [])"

lemma count_list_remove1: "count_list (remove1 x xs) y \<le> count_list xs y"
  by (induction xs) auto

lemma no_overlap_step: "sched_step parse sc s e t \<Longrightarrow> no_overlap s \<Longrightarrow> no_overlap t"
proof (induction rule: sched_step.induct)
  case (start s)
  then show ?case by (auto simp: no_overlap_def Start_call_def split: prod.splits)
next
  case (fire s n)
  then show ?case by (auto simp: no_overlap_def count_list_append count_notin)
next
  case (tick_ended n s)
  then have "ce_skip (ss_entries s ! m) \<longrightarrow> count_list (remove1 n (ss_inflight s)) m \<le> 1" if "m < length (ss_entries s)" for m
    using that count_list_remove1 [of n "ss_inflight s" m] by (fastforce simp: no_overlap_def)
  with tick_ended set_remove1_subset [of n "ss_inflight s"] show ?case by (auto simp: no_overlap_def)
qed (auto simp: no_overlap_def Shutdown_begin_def)


lemma no_overlap_run: "sched_run parse sc s es t \<Longrightarrow> no_overlap s \<Longrightarrow> no_overlap t"
  by (induction rule: sched_run.induct) (auto dest: no_overlap_step)

lemma no_overlap_init: "no_overlap sched_init"
  by (simp add: no_overlap_def sched_init_def)

section \<open>Witnesses and behaviours at the edge\<close>

definition string_jobs :: "string job_iface" where
  "string_jobs = \<lparr>ji_JobName = (\<lambda>j. j), ji_Marshal = Inr\<rparr>"

definition heartbeat :: "string Definition" where
  "heartbeat = \<lparr>sd_Name = ''k'', sd_Cron = ''@every 30s'', sd_Job = ''beat'', sd_Options = [],
     sd_Overlap = False, sd_Timezone = None\<rparr>"

definition example_scheduler :: "nat \<Rightarrow> (string, unit, fault list \<times> leader_state) Scheduler" where
  "example_scheduler i = Register [heartbeat]
     (NewScheduler (NewEnqueuer (log_New LevelInfo) [WithQueueSize 100]) (log_New LevelInfo) (Some (pg_elector i)) [WithOnError])"

definition example_world :: "(string, unit, fault list \<times> leader_state) sched_world" where
  "example_world = \<lparr>sw_buffer = [], sw_backend = (), sw_leader = start_system, sw_log = [], sw_errors = []\<rparr>"

lemma example_leader: "sc_leader (example_scheduler i) = Some (pg_elector i)"
  by (simp add: example_scheduler_def Register_def NewScheduler_def WithOnError_def)

lemma start_counts: "counts_positive start_system"
  by (simp add: counts_positive_def)


text \<open>
  The lock is held only while the job is enqueued, so two instances whose clocks fire for the same time
  both enqueue it, one after the other.
\<close>

lemma both_instances_enqueue:
  "\<exists>w1 w2. tick string_jobs (example_scheduler 0) 0 heartbeat example_world = Inr w1 \<and>
     tick string_jobs (example_scheduler 1) 0 heartbeat w1 = Inr w2 \<and> length (sw_buffer w2) = 2"
  by (simp add: tick_def example_leader pg_elector_def tick_body_def tick_Enqueue_def tick_release_def
      Enqueue_def Enqueue_plan_def example_scheduler_def Register_def NewScheduler_def WithOnError_def NewEnqueuer_def
      WithQueueSize_def heartbeat_def example_world_def defaultJobOptions_def Let_def lock_key_def
      TryAcquire_def TryAcquire_check_def TryAcquire_conn_def TryAcquire_query_def TryAcquire_store_def
      Release_def Release_check_def Release_unlock_def unlock_query_def conn_Close_def pick_conn_def fault_on_def
      pg_try_advisory_lock_def pg_advisory_unlock_def set_lock_def start_system_def NewPgLeaderElectors_def)

definition started :: "string sched_state" where
  "started = Start_call (\<lambda>_. None) (example_scheduler 0) sched_init"

lemma started_fields:
  "ss_entries started = [\<lparr>ce_spec = ''@every 30s'', ce_skip = True, ce_def = heartbeat\<rparr>]" "ss_cron_running started"
  "ss_started started" "ss_inflight started = []" "ss_waiters started = 0"
  by (simp_all add: started_def Start_call_def sched_init_def addDefinition_def cron_spec_def example_scheduler_def
      Register_def NewScheduler_def WithOnError_def heartbeat_def)

theorem Scheduler_shutdown_witness:
  "\<exists>t. sched_run (\<lambda>_. None) (example_scheduler 0) sched_init
      ([Start_called, Fired 0] @ Shutdown_called # [Tick_ended 0, Shutdown_ok]) t \<and> ss_inflight t = []"
proof -
  let ?p = "\<lambda>_ :: string. None :: string option"
  let ?sc = "example_scheduler 0"
  let ?s1 = "started\<lparr>ss_inflight := ss_inflight started @ [0]\<rparr>"
  let ?s2 = "Shutdown_begin ?s1"
  let ?s3 = "?s2\<lparr>ss_inflight := remove1 0 (ss_inflight ?s2)\<rparr>"
  let ?s4 = "?s3\<lparr>ss_waiters := ss_waiters ?s3 - 1\<rparr>"
  have "sched_step ?p ?sc sched_init Start_called started" unfolding started_def by (rule sched_step.start)
  moreover have "sched_step ?p ?sc started (Fired 0) ?s1" by (rule sched_step.fire) (simp_all add: started_fields)
  moreover have "sched_step ?p ?sc ?s1 Shutdown_called ?s2" by (rule sched_step.shutdown)
  moreover have "sched_step ?p ?sc ?s2 (Tick_ended 0) ?s3"
    by (rule sched_step.tick_ended) (simp add: Shutdown_begin_def started_fields)
  moreover have "sched_step ?p ?sc ?s3 Shutdown_ok ?s4"
    by (rule sched_step.shutdown_ok) (simp_all add: Shutdown_begin_def started_fields)
  ultimately have run: "sched_run ?p ?sc sched_init ([Start_called, Fired 0] @ Shutdown_called # [Tick_ended 0, Shutdown_ok]) ?s4"
    by (auto intro!: sched_run.intros)
  from Scheduler_shutdown [OF run] run show ?thesis by (intro exI [of _ ?s4] conjI) auto
qed

text \<open>A scheduler that is told to stop before it starts runs its definitions for ever.\<close>

lemma late_start_runs:
  "\<exists>t. sched_run (\<lambda>_. None) (example_scheduler 0) sched_init
     [Shutdown_called, Shutdown_ok, Start_called, Start_returned False, Fired 0] t"
proof -
  let ?p = "\<lambda>_ :: string. None :: string option"
  let ?sc = "example_scheduler 0"
  let ?s1 = "Shutdown_begin sched_init :: string sched_state"
  let ?s2 = "?s1\<lparr>ss_waiters := ss_waiters ?s1 - 1\<rparr>"
  let ?s3 = "Start_call ?p ?sc ?s2"
  let ?s4 = "?s3\<lparr>ss_starters := ss_starters ?s3 - 1\<rparr>"
  have f: "ss_cron_running ?s4" "length (ss_entries ?s4) = 1" "ss_inflight ?s4 = []" "ss_stopped ?s3" "0 < ss_starters ?s3"
    by (simp_all add: Start_call_def Shutdown_begin_def sched_init_def addDefinition_def cron_spec_def example_scheduler_def
      Register_def NewScheduler_def WithOnError_def heartbeat_def)
  have "sched_step ?p ?sc sched_init Shutdown_called ?s1" by (rule sched_step.shutdown)
  moreover have "sched_step ?p ?sc ?s1 Shutdown_ok ?s2"
    by (rule sched_step.shutdown_ok) (simp_all add: Shutdown_begin_def sched_init_def)
  moreover have "sched_step ?p ?sc ?s2 Start_called ?s3" by (rule sched_step.start)
  moreover have "sched_step ?p ?sc ?s3 (Start_returned False) ?s4"
    by (rule sched_step.start_returned) (use f(4,5) in blast)+
  moreover have "sched_step ?p ?sc ?s4 (Fired 0) (?s4\<lparr>ss_inflight := ss_inflight ?s4 @ [0]\<rparr>)"
    by (rule sched_step.fire) (use f(1-3) in \<open>simp_all only: list.set empty_iff not_False_eq_True simp_thms less_one\<close>)
  ultimately show ?thesis by (meson sched_run.intros)
qed

end
