(* ===== verification/Worker.thy ===== *)
theory Worker
  imports Job "HOL-Library.Multiset"
begin

text \<open>
  \<open>job/worker.go\<close>: the pool of goroutines that consume the in-memory queue, as a labelled transition
  system.  A goroutine waits at the \<open>select\<close> of \<open>run\<close>, executes a job, or has returned; the state
  also keeps the channel's buffer, \<open>stopCh\<close>, the context, the \<open>WaitGroup\<close>, and, for the theorems, the
  history of the envelopes sent, started and finished.
\<close>

section \<open>State\<close>

record WorkerConfig =
  wc_Concurrency :: int
  wc_ShutdownTimeout :: duration

record Worker =
  wr_concurrency :: int
  wr_logger :: logger

definition NewWorker :: "WorkerConfig \<Rightarrow> logger \<Rightarrow> Worker" where
  "NewWorker cfg lg =
     \<lparr>wr_concurrency = (if wc_Concurrency cfg \<le> 0 then 1 else wc_Concurrency cfg), wr_logger = lg\<rparr>"

datatype 'j phase = Waiting | Executing "'j envelope" | Returned

record ('j, 'b) worker_state =
  wk_queue :: "'j envelope list"
  wk_backend :: 'b
  wk_phases :: "'j phase list"
  wk_wg :: int
  wk_stop :: bool
  wk_ctx_done :: bool
  wk_crashed :: bool
  wk_log :: "log_entry list"
  wk_starts :: nat
  wk_sent :: "'j envelope list"
  wk_started :: "'j envelope list"
  wk_finished :: "('j envelope \<times> string option) list"

definition worker_init :: "'b \<Rightarrow> ('j, 'b) worker_state" where
  "worker_init b =
     \<lparr>wk_queue = [], wk_backend = b, wk_phases = [], wk_wg = 0, wk_stop = False, wk_ctx_done = False,
      wk_crashed = False, wk_log = [], wk_starts = 0, wk_sent = [], wk_started = [], wk_finished = []\<rparr>"

section \<open>Operations\<close>

text \<open>\<open>w.wg.Add (1); go w.run (ctx, i)\<close>, \<open>n\<close> times.\<close>

fun Start_workers :: "nat \<Rightarrow> ('j, 'b) worker_state \<Rightarrow> ('j, 'b) worker_state" where
  "Start_workers 0 s = s"
| "Start_workers (Suc n) s = Start_workers n (s\<lparr>wk_wg := wk_wg s + 1, wk_phases := wk_phases s @ [Waiting]\<rparr>)"

definition worker_Start :: "Worker \<Rightarrow> ('j, 'b) worker_state \<Rightarrow> ('j, 'b) worker_state" where
  "worker_Start w s = Start_workers (nat (wr_concurrency w)) (s\<lparr>wk_starts := Suc (wk_starts s)\<rparr>)"

text \<open>The head of \<open>execute\<close>: the log line, before the job runs.\<close>

definition begin_job ::
    "'j job_iface \<Rightarrow> Worker \<Rightarrow> nat \<Rightarrow> 'j envelope \<Rightarrow> ('j, 'b) worker_state \<Rightarrow> ('j, 'b) worker_state"
where
  "begin_job I w i env s =
     s\<lparr>wk_phases := (wk_phases s)[i := Executing env], wk_started := wk_started s @ [env],
       wk_log := log_record LevelInfo (wr_logger w) ''job: executing''
         [(''job'', ji_JobName I (en_job env)), (''worker'', itoa (int i)), (''queue'', jo_queue (en_opts env))]
         (wk_log s)\<rparr>"

text \<open>The tail of \<open>execute\<close>, with the result of the job, and back to the \<open>select\<close>.\<close>

definition end_job ::
    "'j job_iface \<Rightarrow> Worker \<Rightarrow> nat \<Rightarrow> 'j envelope \<Rightarrow> string option \<Rightarrow> ('j, 'b) worker_state \<Rightarrow> ('j, 'b) worker_state"
where
  "end_job I w i env res s =
     s\<lparr>wk_phases := (wk_phases s)[i := Waiting], wk_finished := wk_finished s @ [(env, res)],
       wk_log := (case res of
           None \<Rightarrow> wk_log s
         | Some err \<Rightarrow>
             log_record LevelError (wr_logger w) ''job: failed''
               [(''job'', ji_JobName I (en_job env)), (''worker'', itoa (int i)), (''error'', err)] (wk_log s))\<rparr>"

text \<open>\<open>defer w.wg.Done ()\<close> on the way out of \<open>run\<close>.\<close>

definition exit_run :: "nat \<Rightarrow> ('j, 'b) worker_state \<Rightarrow> ('j, 'b) worker_state" where
  "exit_run i s = s\<lparr>wk_phases := (wk_phases s)[i := Returned], wk_wg := wk_wg s - 1\<rparr>"

text \<open>The \<open>select\<close> of \<open>run\<close>: every ready branch is a possible continuation, none means waiting.\<close>

definition run_select ::
    "'j job_iface \<Rightarrow> Worker \<Rightarrow> nat \<Rightarrow> ('j, 'b) worker_state \<Rightarrow> ('j, 'b) worker_state list"
where
  "run_select I w i s =
     (if wk_stop s then [exit_run i s] else []) @
     (if wk_ctx_done s then [exit_run i s] else []) @
     (case wk_queue s of
        [] \<Rightarrow> []
      | env # q \<Rightarrow> [begin_job I w i env (s\<lparr>wk_queue := q\<rparr>)])"

text \<open>\<open>Shutdown\<close>: closing a channel twice panics; then the \<open>select\<close> on the wait group and the context.\<close>

definition Shutdown_close :: "('j, 'b) worker_state \<Rightarrow> ('j, 'b) worker_state hres" where
  "Shutdown_close s = (if wk_stop s then Panicked ''close of closed channel'' s else Done (s\<lparr>wk_stop := True\<rparr>))"

definition Shutdown_return :: "string option \<Rightarrow> ('j, 'b) worker_state \<Rightarrow> string option list" where
  "Shutdown_return ctx_done s =
     (if wk_wg s = 0 then [None] else []) @ (case ctx_done of None \<Rightarrow> [] | Some err \<Rightarrow> [Some err])"

section \<open>Steps\<close>

datatype worker_event =
    EvStart
  | EvEnqueue "string option"
  | EvHandoff nat
  | EvSelect nat
  | EvFinish nat "string option"
  | EvJobPanic nat
  | EvContextDone
  | EvClose
  | EvShutdownReturn "string option"

text \<open>
  A panic of a job, or of a second \<open>Shutdown\<close>, ends the process: nothing recovers it.
\<close>

inductive worker_step ::
    "'j job_iface \<Rightarrow> ('j, 'b) Enqueuer \<Rightarrow> Worker \<Rightarrow>
     ('j, 'b) worker_state \<Rightarrow> worker_event \<Rightarrow> ('j, 'b) worker_state \<Rightarrow> bool"
  for I e w
where
  start: "\<not> wk_crashed s \<Longrightarrow> worker_step I e w s EvStart (worker_Start w s)"
| enqueue: "\<not> wk_crashed s \<Longrightarrow> (res, q, b) \<in> set (Enqueue I e cd now j opts (wk_queue s, wk_backend s)) \<Longrightarrow>
     worker_step I e w s (EvEnqueue res)
       (s\<lparr>wk_queue := q, wk_backend := b, wk_sent := wk_sent s @ drop (length (wk_queue s)) q\<rparr>)"
| handoff: "\<not> wk_crashed s \<Longrightarrow> wk_queue s = [] \<Longrightarrow> i < length (wk_phases s) \<Longrightarrow> wk_phases s ! i = Waiting \<Longrightarrow>
     Enqueue_plan I e now j opts = Send env \<Longrightarrow>
     worker_step I e w s (EvHandoff i) (begin_job I w i env (s\<lparr>wk_sent := wk_sent s @ [env]\<rparr>))"
| selected: "\<not> wk_crashed s \<Longrightarrow> i < length (wk_phases s) \<Longrightarrow> wk_phases s ! i = Waiting \<Longrightarrow>
     t \<in> set (run_select I w i s) \<Longrightarrow> worker_step I e w s (EvSelect i) t"
| finish: "\<not> wk_crashed s \<Longrightarrow> i < length (wk_phases s) \<Longrightarrow> wk_phases s ! i = Executing env \<Longrightarrow>
     worker_step I e w s (EvFinish i res) (end_job I w i env res s)"
| job_panic: "\<not> wk_crashed s \<Longrightarrow> i < length (wk_phases s) \<Longrightarrow> wk_phases s ! i = Executing env \<Longrightarrow>
     worker_step I e w s (EvJobPanic i) (s\<lparr>wk_crashed := True\<rparr>)"
| context_done: "\<not> wk_crashed s \<Longrightarrow> worker_step I e w s EvContextDone (s\<lparr>wk_ctx_done := True\<rparr>)"
| close: "\<not> wk_crashed s \<Longrightarrow> Shutdown_close s = Done t \<Longrightarrow> worker_step I e w s EvClose t"
| close_again: "\<not> wk_crashed s \<Longrightarrow> Shutdown_close s = Panicked msg t \<Longrightarrow>
     worker_step I e w s EvClose (t\<lparr>wk_crashed := True\<rparr>)"
| shutdown_return: "\<not> wk_crashed s \<Longrightarrow> wk_stop s \<Longrightarrow> res \<in> set (Shutdown_return cd s) \<Longrightarrow>
     worker_step I e w s (EvShutdownReturn res) s"

inductive worker_run ::
    "'j job_iface \<Rightarrow> ('j, 'b) Enqueuer \<Rightarrow> Worker \<Rightarrow>
     ('j, 'b) worker_state \<Rightarrow> worker_event list \<Rightarrow> ('j, 'b) worker_state \<Rightarrow> bool"
  for I e w
where
  run_nil: "worker_run I e w s [] s"
| run_snoc: "worker_run I e w s evs t \<Longrightarrow> worker_step I e w t ev u \<Longrightarrow> worker_run I e w s (evs @ [ev]) u"

inductive_cases worker_selectE: "worker_step I e w s (EvSelect i) t"
inductive_cases worker_finishE: "worker_step I e w s (EvFinish i res) t"
inductive_cases worker_returnE: "worker_step I e w s (EvShutdownReturn res) t"

section \<open>The invariant\<close>

definition executing :: "'j phase list \<Rightarrow> 'j envelope list" where
  "executing ps = concat (map (\<lambda>p. case p of Executing env \<Rightarrow> [env] | _ \<Rightarrow> []) ps)"

definition alive :: "'j phase list \<Rightarrow> nat" where
  "alive ps = length (filter (\<lambda>p. p \<noteq> Returned) ps)"

text \<open>
  Nothing is lost or run twice: what was sent is what was started, in the same order, followed by the
  buffer, and every started envelope is executing or finished once.
\<close>

definition worker_inv :: "('j, 'b) Enqueuer \<Rightarrow> Worker \<Rightarrow> ('j, 'b) worker_state \<Rightarrow> bool" where
  "worker_inv e w s \<longleftrightarrow>
     wk_sent s = wk_started s @ wk_queue s \<and>
     mset (wk_started s) = mset (executing (wk_phases s)) + mset (map fst (wk_finished s)) \<and>
     wk_wg s = int (alive (wk_phases s)) \<and>
     length (wk_queue s) \<le> eq_size e \<and>
     length (wk_phases s) = wk_starts s * nat (wr_concurrency w)"

lemma executing_append: "executing (ps @ qs) = executing ps @ executing qs"
  by (simp add: executing_def)

lemma alive_append: "alive (ps @ qs) = alive ps + alive qs"
  by (simp add: alive_def)

lemma phases_split:
  assumes "i < length ps" "ps ! i = p"
  obtains as bs where "ps = as @ p # bs" "length as = i" "\<And>q. ps[i := q] = as @ q # bs"
proof
  show "ps = take i ps @ p # drop (Suc i) ps" using assms id_take_nth_drop by metis
  show "length (take i ps) = i" using assms by simp
  show "ps[i := q] = take i ps @ q # drop (Suc i) ps" for q using assms(1) by (rule upd_conv_take_nth_drop)
qed

lemma executing_update:
  assumes "i < length ps"
  shows "mset (executing (ps[i := q])) + mset (executing [ps ! i]) = mset (executing ps) + mset (executing [q])"
proof -
  from phases_split [OF assms refl] obtain as bs where
    "ps = as @ ps ! i # bs" "\<And>q. ps[i := q] = as @ q # bs" by metis
  then have "executing ps = executing as @ executing [ps ! i] @ executing bs"
    "executing (ps[i := q]) = executing as @ executing [q] @ executing bs"
    using executing_append by (metis append_Cons append_Nil)+
  then show ?thesis by simp
qed

lemma alive_update:
  assumes "i < length ps"
  shows "alive (ps[i := q]) + alive [ps ! i] = alive ps + alive [q]"
proof -
  from phases_split [OF assms refl] obtain as bs where
    "ps = as @ ps ! i # bs" "\<And>q. ps[i := q] = as @ q # bs" by metis
  then have "alive ps = alive as + alive [ps ! i] + alive bs" "alive (ps[i := q]) = alive as + alive [q] + alive bs"
    using alive_append by (metis append_Cons append_Nil add.assoc)+
  then show ?thesis by simp
qed

lemma phase_simps [simp]:
  "executing [Waiting] = []" "executing [Returned] = []" "executing [Executing env] = [env]"
  "alive [Waiting] = 1" "alive [Returned] = 0" "alive [Executing env] = 1"
  by (simp_all add: executing_def alive_def)

lemma Start_workers_eq:
  "Start_workers n s = s\<lparr>wk_wg := wk_wg s + int n, wk_phases := wk_phases s @ replicate n Waiting\<rparr>"
  by (induction n arbitrary: s) (simp_all add: replicate_append_same)

lemma executing_replicate [simp]: "executing (replicate n Waiting) = []"
  by (induction n) (simp_all add: executing_def)

lemma alive_replicate [simp]: "alive (replicate n Waiting) = n"
  by (induction n) (simp_all add: alive_def)

lemma begin_job_inv:
  assumes "i < length (wk_phases s)" "wk_phases s ! i = Waiting"
    and "wk_sent s = wk_started s @ env # wk_queue s"
    and "mset (wk_started s) = mset (executing (wk_phases s)) + mset (map fst (wk_finished s))"
    and "wk_wg s = int (alive (wk_phases s))" "length (wk_queue s) \<le> eq_size e"
    and "length (wk_phases s) = wk_starts s * nat (wr_concurrency w)"
  shows "worker_inv e w (begin_job I w i env s)"
  using assms executing_update [OF assms(1), of "Executing env"] alive_update [OF assms(1), of "Executing env"]
  by (simp add: worker_inv_def begin_job_def)

lemma end_job_inv:
  assumes "worker_inv e w s" "i < length (wk_phases s)" "wk_phases s ! i = Executing env"
  shows "worker_inv e w (end_job I w i env res s)"
  using assms executing_update [OF assms(2), of Waiting] alive_update [OF assms(2), of Waiting]
  by (simp add: worker_inv_def end_job_def)

lemma exit_run_inv:
  assumes "worker_inv e w s" "i < length (wk_phases s)" "wk_phases s ! i = Waiting"
  shows "worker_inv e w (exit_run i s)"
  using assms executing_update [OF assms(2), of Returned] alive_update [OF assms(2), of Returned]
  by (simp add: worker_inv_def exit_run_def)

lemma select_inv:
  assumes inv: "worker_inv e w s" and "i < length (wk_phases s)" "wk_phases s ! i = Waiting"
    and "t \<in> set (run_select I w i s)"
  shows "worker_inv e w t"
proof -
  from assms(4) consider "t = exit_run i s"
    | env q where "wk_queue s = env # q" "t = begin_job I w i env (s\<lparr>wk_queue := q\<rparr>)"
    by (cases "wk_queue s") (auto simp: run_select_def split: if_splits)
  then show ?thesis
  proof cases
    case 1
    with exit_run_inv [OF assms(1-3)] show ?thesis by simp
  next
    case 2
    show ?thesis unfolding 2(2)
      by (rule begin_job_inv) (use 2 assms in \<open>simp_all add: worker_inv_def\<close>)
  qed
qed

lemma Enqueue_queue:
  "(res, q', t) \<in> set (Enqueue I e cd now j opts (q, s)) \<Longrightarrow> q' = q \<or> (\<exists>env. q' = q @ [env] \<and> length q < eq_size e)"
  by (auto simp: Enqueue_def Let_def split: enqueue_plan.splits option.splits prod.splits if_splits)

lemma worker_step_inv: "worker_step I e w s ev t \<Longrightarrow> worker_inv e w s \<Longrightarrow> worker_inv e w t"
proof (induction rule: worker_step.induct)
  case (start s)
  then show ?case
    by (simp add: worker_inv_def worker_Start_def Start_workers_eq executing_append alive_append)
next
  case (enqueue s res q b cd now j opts)
  from Enqueue_queue [OF enqueue(2)] enqueue(3) show ?case by (auto simp: worker_inv_def)
next
  case (handoff s i now j opts env)
  then show ?case by (intro begin_job_inv) (simp_all add: worker_inv_def)
next
  case (selected s i t)
  then show ?case by (metis select_inv)
next
  case (finish s i env res)
  then show ?case by (metis end_job_inv)
next
  case (close s t)
  then show ?case by (auto simp: worker_inv_def Shutdown_close_def split: if_splits)
next
  case (close_again s msg t)
  then show ?case by (auto simp: worker_inv_def Shutdown_close_def split: if_splits)
qed (simp_all add: worker_inv_def)

lemma worker_init_inv: "worker_inv e w (worker_init b)"
  by (simp add: worker_inv_def worker_init_def executing_def alive_def)

lemma worker_run_inv: "worker_run I e w s evs t \<Longrightarrow> worker_inv e w s \<Longrightarrow> worker_inv e w t"
  by (induction rule: worker_run.induct) (auto intro: worker_step_inv)

section \<open>Draining\<close>

text \<open>
  The steps the pool takes by itself.  Each uses up work: an envelope in the buffer weighs two, an
  executing goroutine two, a waiting one one.
\<close>

fun internal :: "worker_event \<Rightarrow> bool" where
  "internal (EvSelect _) = True"
| "internal (EvFinish _ _) = True"
| "internal _ = False"

definition weight :: "'j phase \<Rightarrow> nat" where
  "weight p = (case p of Waiting \<Rightarrow> 1 | Executing _ \<Rightarrow> 2 | Returned \<Rightarrow> 0)"

definition pool_work :: "('j, 'b) worker_state \<Rightarrow> nat" where
  "pool_work s = 2 * length (wk_queue s) + sum_list (map weight (wk_phases s))"

lemma weight_update:
  "i < length ps \<Longrightarrow> sum_list (map weight (ps[i := q])) + weight (ps ! i) = sum_list (map weight ps) + weight q"
proof -
  assume "i < length ps"
  from phases_split [OF this refl] obtain as bs where
    "ps = as @ ps ! i # bs" "\<And>q. ps[i := q] = as @ q # bs" by metis
  then have "map weight ps = map weight as @ weight (ps ! i) # map weight bs"
    "map weight (ps[i := q]) = map weight as @ weight q # map weight bs"
    by (metis list.simps(9) map_append)+
  then show ?thesis by simp
qed

lemma internal_step:
  assumes "worker_step I e w s ev t" "internal ev"
  shows "pool_work t < pool_work s \<and> wk_stop t = wk_stop s \<and> wk_crashed t = wk_crashed s"
  using assms
proof (induction rule: worker_step.induct)
  case (selected s i t)
  then have "t = exit_run i s \<or> (\<exists>env q. wk_queue s = env # q \<and> t = begin_job I w i env (s\<lparr>wk_queue := q\<rparr>))"
    by (cases "wk_queue s") (auto simp: run_select_def split: if_splits)
  with selected weight_update [OF selected(2), of Returned] weight_update [OF selected(2), of "Executing env" for env]
  show ?case by (auto simp: pool_work_def exit_run_def begin_job_def weight_def)
next
  case (finish s i env res)
  with weight_update [OF finish(2), of Waiting] show ?case by (simp add: pool_work_def end_job_def weight_def)
qed simp_all

lemma internal_run:
  "worker_run I e w s evs t \<Longrightarrow> list_all internal evs \<Longrightarrow>
     length evs + pool_work t \<le> pool_work s \<and> wk_stop t = wk_stop s \<and> wk_crashed t = wk_crashed s"
proof (induction rule: worker_run.induct)
  case (run_snoc s evs t ev u)
  then show ?case using internal_step [OF run_snoc(2)] by auto
qed simp

text \<open>A goroutine that has not returned after the stop can always go on.\<close>

lemma stopped_enabled:
  assumes "wk_stop s" "\<not> wk_crashed s" "alive (wk_phases s) \<noteq> 0"
  shows "\<exists>ev t. internal ev \<and> worker_step I e w s ev t"
proof -
  from assms(3) obtain p where "p \<in> set (wk_phases s)" "p \<noteq> Returned"
    by (auto simp: alive_def filter_empty_conv)
  then obtain i where i: "i < length (wk_phases s)" "wk_phases s ! i \<noteq> Returned" by (auto simp: in_set_conv_nth)
  show ?thesis
  proof (cases "wk_phases s ! i")
    case Waiting
    with i assms have "worker_step I e w s (EvSelect i) (exit_run i s)"
      by (intro worker_step.selected) (simp_all add: run_select_def)
    then show ?thesis using internal.simps by blast
  next
    case (Executing env)
    with i assms have "worker_step I e w s (EvFinish i None) (end_job I w i env None s)"
      by (intro worker_step.finish) simp_all
    then show ?thesis using internal.simps by blast
  qed (use i in simp)
qed

section \<open>Properties\<close>


definition noop_iface :: "string job_iface" where
  "noop_iface = \<lparr>ji_JobName = (\<lambda>j. j), ji_Marshal = (\<lambda>j. Inr j)\<rparr>"

definition sample_enqueuer :: "(string, unit) Enqueuer" where
  "sample_enqueuer = NewEnqueuer (log_New LevelInfo) [WithQueueSize 2]"

definition sample_worker :: Worker where
  "sample_worker = NewWorker \<lparr>wc_Concurrency = 0, wc_ShutdownTimeout = 0\<rparr> (log_New LevelError)"

definition sent_state :: "(string, unit) worker_state" where
  "sent_state = (worker_init ())\<lparr>
     wk_queue := [\<lparr>en_job = ''mail'', en_opts = defaultJobOptions, en_enqueuedAt = 3\<rparr>],
     wk_sent := [\<lparr>en_job = ''mail'', en_opts = defaultJobOptions, en_enqueuedAt = 3\<rparr>]\<rparr>"

lemma sample_sent: "worker_run noop_iface sample_enqueuer sample_worker (worker_init ()) [EvEnqueue None] sent_state"
proof -
  have "(None, wk_queue sent_state, ()) \<in> set (Enqueue noop_iface sample_enqueuer None 3 ''mail'' []
      (wk_queue (worker_init () :: (string, unit) worker_state), wk_backend (worker_init () :: (string, unit) worker_state)))"
    by (simp add: Enqueue_def Enqueue_plan_def sent_state_def worker_init_def sample_enqueuer_def NewEnqueuer_def
        WithQueueSize_def defaultJobOptions_def)
  from worker_step.enqueue [OF _ this, of sample_worker]
  have "worker_step noop_iface sample_enqueuer sample_worker (worker_init ()) (EvEnqueue None) sent_state"
    by (simp add: sent_state_def worker_init_def)
  from run_snoc [OF run_nil this] show ?thesis by simp
qed


text \<open>C23. Shutdown completes: once \<open>stopCh\<close> is closed and nothing more is enqueued, the pool takes at most
  \<open>pool_work\<close> steps of its own, provided that every job returns, and when it can take no more all
  goroutines have returned and \<open>Shutdown\<close> returns without an error; and \<open>Shutdown\<close> never returns
  without an error while a job is executing.\<close>

theorem Worker_shutdown:
  assumes "worker_run I e w (worker_init b) evs s" "wk_stop s" "\<not> wk_crashed s"
  shows "(\<forall>more t. worker_run I e w s more t \<and> list_all internal more \<longrightarrow>
      length more \<le> pool_work s \<and>
      ((\<nexists>ev u. internal ev \<and> worker_step I e w t ev u) \<longrightarrow>
         (\<forall>p \<in> set (wk_phases t). p = Returned) \<and> Shutdown_return None t = [None])) \<and>
    (\<forall>t. worker_step I e w s (EvShutdownReturn None) t \<longrightarrow> executing (wk_phases s) = [])"
proof -
  have inv: "worker_inv e w s" using worker_run_inv [OF assms(1) worker_init_inv] .
  have returned: "\<forall>p \<in> set ps. p = Returned" if "alive ps = 0" for ps :: "'a phase list"
    using that by (auto simp: alive_def filter_empty_conv)
  have drain: "length more \<le> pool_work s \<and>
      ((\<nexists>ev u. internal ev \<and> worker_step I e w t ev u) \<longrightarrow>
         (\<forall>p \<in> set (wk_phases t). p = Returned) \<and> Shutdown_return None t = [None])"
    if run: "worker_run I e w s more t" "list_all internal more" for more t
  proof -
    from internal_run [OF run] assms have t: "length more + pool_work t \<le> pool_work s" "wk_stop t" "\<not> wk_crashed t"
      by auto
    moreover have "alive (wk_phases t) = 0" if "\<nexists>ev u. internal ev \<and> worker_step I e w t ev u"
      using that stopped_enabled [OF t(2,3)] by blast
    ultimately show ?thesis
      using worker_run_inv [OF run(1) inv] returned [of "wk_phases t"] by (auto simp: worker_inv_def Shutdown_return_def)
  qed
  have "executing (wk_phases s) = []" if "worker_step I e w s (EvShutdownReturn None) t" for t
  proof -
    from that have "wk_wg s = 0"
      by (cases rule: worker_returnE) (auto simp: Shutdown_return_def split: if_splits option.splits)
    with inv have "alive (wk_phases s) = 0" by (simp add: worker_inv_def)
    from returned [OF this] show ?thesis by (auto simp: executing_def split: phase.split)
  qed
  with drain show ?thesis by blast
qed

text \<open>The sample with one goroutine, stopped while the job is in the buffer.\<close>

definition stopped_state :: "(string, unit) worker_state" where
  "stopped_state = (worker_Start sample_worker sent_state)\<lparr>wk_stop := True\<rparr>"

lemma sample_stopped:
  "worker_run noop_iface sample_enqueuer sample_worker (worker_init ()) [EvEnqueue None, EvStart, EvClose] stopped_state"
proof -
  have c: "\<not> wk_crashed sent_state" "\<not> wk_crashed (worker_Start sample_worker sent_state)"
    by (simp_all add: sent_state_def worker_init_def worker_Start_def Start_workers_eq)
  have "Shutdown_close (worker_Start sample_worker sent_state) = Done stopped_state"
    by (simp add: Shutdown_close_def stopped_state_def sent_state_def worker_init_def worker_Start_def Start_workers_eq)
  from run_snoc [OF run_snoc [OF sample_sent worker_step.start [OF c(1)]] worker_step.close [OF c(2) this]]
  show ?thesis by simp
qed

theorem Worker_shutdown_witness:
  "worker_run noop_iface sample_enqueuer sample_worker (worker_init ()) [EvEnqueue None, EvStart, EvClose] stopped_state \<and>
   {length more | more. \<exists>t. worker_run noop_iface sample_enqueuer sample_worker stopped_state more t \<and> list_all internal more}
     \<subseteq> {..3}"
proof -
  have "wk_stop stopped_state" "\<not> wk_crashed stopped_state" "pool_work stopped_state = 3"
    by (simp_all add: stopped_state_def sent_state_def worker_init_def worker_Start_def Start_workers_eq pool_work_def
        weight_def sample_worker_def NewWorker_def)
  from Worker_shutdown [OF sample_stopped this(1,2)] this(3) sample_stopped show ?thesis by auto
qed

text \<open>
  The stop may be taken while envelopes are buffered: the goroutine returns, \<open>Shutdown\<close> reports
  success, and the accepted job never runs.
\<close>

lemma buffered_job_dropped:
  "\<exists>t. worker_run noop_iface sample_enqueuer sample_worker (worker_init ())
       [EvEnqueue None, EvStart, EvClose, EvSelect 0] t \<and>
     Shutdown_return None t = [None] \<and> wk_started t = [] \<and> length (wk_queue t) = 1"
proof -
  have "worker_step noop_iface sample_enqueuer sample_worker stopped_state (EvSelect 0) (exit_run 0 stopped_state)"
    by (rule worker_step.selected)
      (simp_all add: run_select_def stopped_state_def sent_state_def worker_init_def worker_Start_def
        Start_workers_eq sample_worker_def NewWorker_def)
  from run_snoc [OF sample_stopped this] show ?thesis
    by (intro exI [of _ "exit_run 0 stopped_state"])
      (simp add: exit_run_def stopped_state_def sent_state_def worker_init_def worker_Start_def
        Start_workers_eq sample_worker_def NewWorker_def Shutdown_return_def)
qed

text \<open>A second \<open>Shutdown\<close> panics; \<open>Start\<close> returns without waiting for one.\<close>

lemma second_Shutdown_panics: "Shutdown_close s = Done t \<Longrightarrow> panics (Shutdown_close t)"
  by (auto simp: Shutdown_close_def split: if_splits)

end
