(* ===== verification/Process.thy ===== *)
theory Process
  imports Scheduler Worker
begin

text \<open>
  The background part of the process of \<open>cmd/example/main.go\<close>: the goroutines of the worker pool, the
  goroutine \<open>go scheduler.Start (ctx)\<close>, the ticks, and the main goroutine from the interrupt to its
  return, interleaved.  They share the in-memory queue of the enqueuer: a tick sends into the channel the
  pool receives from.  A tick takes effect in one step when it ends.  The modules of the example have no
  shutdown; the HTTP server, the elector and the database answer as they like.
\<close>

section \<open>State\<close>

text \<open>
  Where the main goroutine is: it serves, it has reached a call of its shutdown sequence, it has returned,
  or the server's goroutine has ended the process by \<open>os.Exit (1)\<close>.
\<close>

datatype main_phase =
    Serving | Stop_scheduler | Wait_scheduler | Stop_worker | Wait_worker
  | Stop_app | Stop_server | Stop_leader | Stop_database | Exited | Aborted

record ('j, 's, 'l) process =
  pr_sched :: "'j sched_state"
  pr_pool :: "('j, 's) worker_state"
  pr_leader :: 'l
  pr_errors :: "(string \<times> string) list"
  pr_main :: main_phase
  pr_warnings :: "(string \<times> string) list"

abbreviation live :: "('j, 's, 'l) process \<Rightarrow> bool" where
  "live p \<equiv> \<not> wk_crashed (pr_pool p) \<and> pr_main p \<noteq> Exited \<and> pr_main p \<noteq> Aborted"

text \<open>The process after \<open>worker.Start (ctx)\<close>, just as the other goroutines are launched.\<close>

definition process_init :: "Worker \<Rightarrow> 's \<Rightarrow> 'l \<Rightarrow> ('j, 's, 'l) process" where
  "process_init w b l =
     \<lparr>pr_sched = sched_init, pr_pool = worker_Start w (worker_init b), pr_leader = l, pr_errors = [],
      pr_main = Serving, pr_warnings = []\<rparr>"

text \<open>What a tick sees of the process, and what it leaves.\<close>

definition tick_view :: "('j, 's, 'l) process \<Rightarrow> ('j, 's, 'l) sched_world" where
  "tick_view p =
     \<lparr>sw_buffer = wk_queue (pr_pool p), sw_backend = wk_backend (pr_pool p), sw_leader = pr_leader p,
      sw_log = wk_log (pr_pool p), sw_errors = pr_errors p\<rparr>"

definition tick_put :: "('j, 's, 'l) sched_world \<Rightarrow> ('j, 's, 'l) process \<Rightarrow> ('j, 's, 'l) process" where
  "tick_put v p =
     p\<lparr>pr_pool := (pr_pool p)
         \<lparr>wk_queue := sw_buffer v, wk_backend := sw_backend v, wk_log := sw_log v,
          wk_sent := wk_sent (pr_pool p) @ drop (length (wk_queue (pr_pool p))) (sw_buffer v)\<rparr>,
       pr_leader := sw_leader v, pr_errors := sw_errors v\<rparr>"

text \<open>A call of the sequence returned: the next call, and a warning if it returned an error.\<close>

definition returned ::
    "main_phase \<Rightarrow> string \<Rightarrow> string option \<Rightarrow> ('j, 's, 'l) process \<Rightarrow> ('j, 's, 'l) process"
where
  "returned k msg res p =
     p\<lparr>pr_main := k, pr_warnings := pr_warnings p @ (case res of None \<Rightarrow> [] | Some err \<Rightarrow> [(msg, err)])\<rparr>"

section \<open>Steps\<close>

text \<open>The stages of the shutdown, in order.\<close>

fun stage :: "main_phase \<Rightarrow> nat" where
  "stage Serving = 0"
| "stage Stop_scheduler = 1"
| "stage Wait_scheduler = 2"
| "stage Stop_worker = 3"
| "stage Wait_worker = 4"
| "stage Stop_app = 5"
| "stage Stop_server = 6"
| "stage Stop_leader = 7"
| "stage Stop_database = 8"
| "stage Exited = 9"
| "stage Aborted = 0"

fun pool_event :: "worker_event \<Rightarrow> bool" where
  "pool_event (EvSelect i) = True"
| "pool_event (EvFinish i res) = True"
| "pool_event (EvJobPanic i) = True"
| "pool_event _ = False"

text \<open>
  \<open>outside\<close> is whatever other instances do to the database.  \<open>pg\<close> says whether the elector is a \<open>PgLeaderElector\<close>, \<open>db\<close> whether a database was opened.
\<close>

inductive process_step ::
    "'j job_iface \<Rightarrow> ('j, 's) Enqueuer \<Rightarrow> Worker \<Rightarrow> (string \<Rightarrow> string option) \<Rightarrow> ('j, 's, 'l) Scheduler \<Rightarrow>
     bool \<Rightarrow> bool \<Rightarrow> ('j, 's, 'l) process \<Rightarrow> ('j, 's, 'l) process \<Rightarrow> bool"
  for I e w parse sc pg db
where
  sched_starts: "live p \<Longrightarrow> \<not> ss_started (pr_sched p) \<Longrightarrow>
    sched_step parse sc (pr_sched p) Start_called s \<Longrightarrow>
    process_step I e w parse sc pg db p (p\<lparr>pr_sched := s\<rparr>)"
| sched_start_returns: "live p \<Longrightarrow> sched_step parse sc (pr_sched p) (Start_returned b) s \<Longrightarrow>
    b \<longrightarrow> pr_main p \<noteq> Serving \<Longrightarrow> process_step I e w parse sc pg db p (p\<lparr>pr_sched := s\<rparr>)"
| tick_begins: "live p \<Longrightarrow> sched_step parse sc (pr_sched p) (Fired n) s \<Longrightarrow>
    process_step I e w parse sc pg db p (p\<lparr>pr_sched := s\<rparr>)"
| tick_ends: "live p \<Longrightarrow> sched_step parse sc (pr_sched p) (Tick_ended n) s \<Longrightarrow>
    tick I sc now (ce_def (ss_entries (pr_sched p) ! n)) (tick_view p) = Inr v \<Longrightarrow>
    process_step I e w parse sc pg db p (tick_put v (p\<lparr>pr_sched := s\<rparr>))"
| pool: "live p \<Longrightarrow> pool_event ev \<Longrightarrow> worker_step I e w (pr_pool p) ev q \<Longrightarrow>
    process_step I e w parse sc pg db p (p\<lparr>pr_pool := q\<rparr>)"
| server_failed: "live p \<Longrightarrow> stage (pr_main p) \<le> 6 \<Longrightarrow> process_step I e w parse sc pg db p (p\<lparr>pr_main := Aborted\<rparr>)"
| outside: "live p \<Longrightarrow>
    process_step I e w parse sc pg db p (p\<lparr>pr_leader := l, pr_pool := (pr_pool p)\<lparr>wk_backend := b\<rparr>\<rparr>)"
| interrupt: "pr_main p = Serving \<Longrightarrow> worker_step I e w (pr_pool p) EvContextDone q \<Longrightarrow>
    process_step I e w parse sc pg db p (p\<lparr>pr_pool := q, pr_main := Stop_scheduler\<rparr>)"
| stop_scheduler: "\<not> wk_crashed (pr_pool p) \<Longrightarrow> pr_main p = Stop_scheduler \<Longrightarrow>
    sched_step parse sc (pr_sched p) Shutdown_called s \<Longrightarrow>
    process_step I e w parse sc pg db p (p\<lparr>pr_sched := s, pr_main := Wait_scheduler\<rparr>)"
| scheduler_stopped: "\<not> wk_crashed (pr_pool p) \<Longrightarrow> pr_main p = Wait_scheduler \<Longrightarrow>
    sched_step parse sc (pr_sched p) Shutdown_ok s \<Longrightarrow>
    process_step I e w parse sc pg db p (returned Stop_worker [] None (p\<lparr>pr_sched := s\<rparr>))"
| scheduler_timeout: "\<not> wk_crashed (pr_pool p) \<Longrightarrow> pr_main p = Wait_scheduler \<Longrightarrow>
    sched_step parse sc (pr_sched p) Shutdown_timeout s \<Longrightarrow>
    process_step I e w parse sc pg db p
      (returned Stop_worker ''scheduler shutdown error'' (Some err) (p\<lparr>pr_sched := s\<rparr>))"
| stop_worker: "pr_main p = Stop_worker \<Longrightarrow> worker_step I e w (pr_pool p) EvClose q \<Longrightarrow>
    process_step I e w parse sc pg db p (p\<lparr>pr_pool := q, pr_main := Wait_worker\<rparr>)"
| worker_stopped: "pr_main p = Wait_worker \<Longrightarrow> worker_step I e w (pr_pool p) (EvShutdownReturn res) q \<Longrightarrow>
    process_step I e w parse sc pg db p (returned Stop_app ''worker shutdown error'' res (p\<lparr>pr_pool := q\<rparr>))"
| app_stopped: "\<not> wk_crashed (pr_pool p) \<Longrightarrow> pr_main p = Stop_app \<Longrightarrow>
    process_step I e w parse sc pg db p (returned Stop_server ''app shutdown error'' None p)"
| server_stopped: "\<not> wk_crashed (pr_pool p) \<Longrightarrow> pr_main p = Stop_server \<Longrightarrow>
    process_step I e w parse sc pg db p (returned Stop_leader ''server shutdown error'' res p)"
| leader_closed: "\<not> wk_crashed (pr_pool p) \<Longrightarrow> pr_main p = Stop_leader \<Longrightarrow> \<not> pg \<longrightarrow> res = None \<Longrightarrow>
    process_step I e w parse sc pg db p (returned Stop_database ''leader elector close error'' res p)"
| database_closed: "\<not> wk_crashed (pr_pool p) \<Longrightarrow> pr_main p = Stop_database \<Longrightarrow> \<not> db \<longrightarrow> res = None \<Longrightarrow>
    process_step I e w parse sc pg db p (returned Exited ''database close error'' res p)"

inductive process_run ::
    "'j job_iface \<Rightarrow> ('j, 's) Enqueuer \<Rightarrow> Worker \<Rightarrow> (string \<Rightarrow> string option) \<Rightarrow> ('j, 's, 'l) Scheduler \<Rightarrow>
     bool \<Rightarrow> bool \<Rightarrow> ('j, 's, 'l) process \<Rightarrow> ('j, 's, 'l) process \<Rightarrow> bool"
  for I e w parse sc pg db
where
  here: "process_run I e w parse sc pg db p p"
| further: "process_run I e w parse sc pg db p q \<Longrightarrow> process_step I e w parse sc pg db q r \<Longrightarrow>
    process_run I e w parse sc pg db p r"

section \<open>Lemmas\<close>

text \<open>A tick is an \<open>Enqueue\<close> of the pool's model, or nothing.\<close>

lemma tick_buffer:
  assumes "tick I sc now d v0 = Inr v"
  shows "(\<exists>err. (err, sw_buffer v, sw_backend v) \<in> set (enqueue_outcomes I sc now d v0)) \<or>
    sw_buffer v = sw_buffer v0 \<and> sw_backend v = sw_backend v0"
proof -
  have body: "\<exists>err. (err, sw_buffer v, sw_backend v) \<in> set (enqueue_outcomes I sc now d v1)"
    if "tick_body I sc now d v1 = Some v" for v1 v
    using tick_body_cases [of I sc now d v1] that by (auto simp: enqueued_once_def)
  have leader: "enqueue_outcomes I sc now d (v1\<lparr>sw_leader := l\<rparr>) = enqueue_outcomes I sc now d v1" for v1 l
    by (simp add: enqueue_outcomes_def)
  show ?thesis
  proof (cases "sc_leader sc")
    case None
    with assms body show ?thesis by (auto simp: tick_def split: option.splits)
  next
    case (Some L)
    obtain r l where a: "lf_TryAcquire L (lock_key d) (sw_leader v0) = (r, l)" by fastforce
    show ?thesis
    proof (cases "r = Inr True")
      case True
      with assms Some a obtain v1 where "tick_body I sc now d (v0\<lparr>sw_leader := l\<rparr>) = Some v1" "v = tick_release sc L d v1"
        by (auto simp: tick_def split: option.splits)
      with body [OF this(1)] leader show ?thesis by auto
    next
      case False
      with assms Some a show ?thesis by (cases r) (auto simp: tick_def)
    qed
  qed
qed

lemma worker_inv_backend: "worker_inv e w (s\<lparr>wk_backend := b\<rparr>) = worker_inv e w s"
  by (simp add: worker_inv_def)

lemma tick_put_inv:
  assumes "tick I sc now d (tick_view p) = Inr v" "worker_inv e w (pr_pool p)" "sc_enqueuer sc = e"
  shows "worker_inv e w (pr_pool (tick_put v p))"
  using tick_buffer [OF assms(1)]
proof
  assume "sw_buffer v = sw_buffer (tick_view p) \<and> sw_backend v = sw_backend (tick_view p)"
  with assms(2) show ?thesis by (simp add: worker_inv_def tick_put_def tick_view_def)
next
  assume "\<exists>err. (err, sw_buffer v, sw_backend v) \<in> set (enqueue_outcomes I sc now d (tick_view p))"
  then obtain err where "(err, sw_buffer v, sw_backend v) \<in> set (Enqueue I e None now (sd_Job d) (sd_Options d)
      (wk_queue (pr_pool p), wk_backend (pr_pool p)))"
    by (auto simp: enqueue_outcomes_def tick_view_def assms(3))
  from Enqueue_queue [OF this] assms(2) show ?thesis by (auto simp: worker_inv_def tick_put_def)
qed

lemma alive_0: "alive ps = 0 \<Longrightarrow> executing ps = [] \<and> (\<forall>p \<in> set ps. p = phase.Returned)"
proof -
  assume "alive ps = 0"
  then have r: "\<forall>p \<in> set ps. p = phase.Returned" by (auto simp: alive_def filter_empty_conv)
  moreover have "executing ps = []" using r by (auto simp: executing_def)
  ultimately show ?thesis by blast
qed

lemma process_step_worker_inv:
  assumes "process_step I e w parse sc pg db p q" "worker_inv e w (pr_pool p)" "sc_enqueuer sc = e"
  shows "worker_inv e w (pr_pool q)"
  using assms
proof (induction rule: process_step.induct)
  case (tick_ends p n s now v)
  have "tick_view (p\<lparr>pr_sched := s\<rparr>) = tick_view p" by (simp add: tick_view_def)
  with tick_put_inv [of I sc now _ "p\<lparr>pr_sched := s\<rparr>" v e w] tick_ends show ?case by simp
qed (simp_all add: returned_def worker_step_inv worker_inv_backend)

lemma process_run_worker_inv:
  assumes "process_run I e w parse sc pg db p q" "worker_inv e w (pr_pool p)" "sc_enqueuer sc = e"
  shows "worker_inv e w (pr_pool q)"
  using assms by (induction rule: process_run.induct) (auto intro: process_step_worker_inv)

lemma process_init_inv: "worker_inv e w (pr_pool (process_init w b l))"
  using worker_step_inv [OF worker_step.start worker_init_inv] by (simp add: process_init_def worker_init_def)

text \<open>What is stopped at which stage, once the scheduler was started in time.\<close>

definition stop_inv :: "('j, 's, 'l) process \<Rightarrow> bool" where
  "stop_inv p \<longleftrightarrow>
     ss_started (pr_sched p) \<and>
     (2 \<le> stage (pr_main p) \<longrightarrow> \<not> ss_cron_running (pr_sched p)) \<and>
     (3 \<le> stage (pr_main p) \<and> pr_warnings p = [] \<longrightarrow> ss_inflight (pr_sched p) = []) \<and>
     (5 \<le> stage (pr_main p) \<and> pr_warnings p = [] \<longrightarrow> alive (wk_phases (pr_pool p)) = 0)"

lemma sched_keeps:
  assumes "sched_step parse sc s ev t" "ss_started s"
  shows "ss_started t \<and> (\<not> ss_cron_running s \<longrightarrow> \<not> ss_cron_running t \<and> (ss_inflight s = [] \<longrightarrow> ss_inflight t = []))"
  using assms by cases (auto simp: Start_call_def Shutdown_begin_def)

lemma pool_keeps:
  assumes "worker_step I e w s ev t" "pool_event ev" "alive (wk_phases s) = 0"
  shows "alive (wk_phases t) = 0"
proof -
  have "wk_phases s ! i = phase.Returned" if "i < length (wk_phases s)" for i
    using alive_0 [OF assms(3)] that by simp
  with assms(1,2) show ?thesis by (cases rule: worker_step.cases) auto
qed


inductive_cases sched_okE: "sched_step parse sc s Shutdown_ok t"
inductive_cases sched_timeoutE: "sched_step parse sc s Shutdown_timeout t"
inductive_cases sched_calledE: "sched_step parse sc s Shutdown_called t"

lemma stop_inv_step:
  assumes "process_step I e w parse sc pg db p q" "stop_inv p" "worker_inv e w (pr_pool p)"
  shows "stop_inv q"
  using assms
proof (induction rule: process_step.induct)
  case (sched_starts p s)
  then show ?case by (simp add: stop_inv_def)
next
  case (sched_start_returns p b s)
  with sched_keeps [OF sched_start_returns(2)] show ?case by (auto simp: stop_inv_def)
next
  case (tick_begins p n s)
  with sched_keeps [OF tick_begins(2)] show ?case by (auto simp: stop_inv_def)
next
  case (tick_ends p n s now v)
  with sched_keeps [OF tick_ends(2)] show ?case by (auto simp: stop_inv_def tick_put_def)
next
  case (pool ev p q)
  with pool_keeps [OF pool(3,2)] show ?case by (auto simp: stop_inv_def)
next
  case (stop_scheduler p s)
  then show ?case by (auto simp: stop_inv_def Shutdown_begin_def elim!: sched_calledE)
next
  case (scheduler_stopped p s)
  then show ?case by (auto simp: stop_inv_def returned_def elim!: sched_okE)
next
  case (scheduler_timeout p s err)
  with sched_keeps [OF scheduler_timeout(3)] show ?case by (auto simp: stop_inv_def returned_def)
next
  case (worker_stopped p res q)
  from worker_stopped(2) have q: "q = pr_pool p" and r: "res = None \<longrightarrow> wk_wg (pr_pool p) = 0"
    by (auto elim!: worker_returnE simp: Shutdown_return_def split: if_splits option.splits)
  with worker_stopped show ?case
    by (cases res) (auto simp: stop_inv_def returned_def worker_inv_def)
qed (auto simp: stop_inv_def returned_def split: option.splits)

lemma stop_inv_run:
  assumes "process_run I e w parse sc pg db p q" "stop_inv p" "worker_inv e w (pr_pool p)" "sc_enqueuer sc = e"
  shows "stop_inv q \<and> worker_inv e w (pr_pool q)"
  using assms
proof (induction rule: process_run.induct)
  case (further p q r)
  then show ?case using stop_inv_step process_step_worker_inv by blast
qed simp

section \<open>Shutdown can complete\<close>

lemma process_run_trans:
  "process_run I e w parse sc pg db q r \<Longrightarrow> process_run I e w parse sc pg db p q \<Longrightarrow> process_run I e w parse sc pg db p r"
  by (induction rule: process_run.induct) (auto intro: process_run.intros)

lemma process_run_one: "process_step I e w parse sc pg db p q \<Longrightarrow> process_run I e w parse sc pg db p q"
  using process_run.further [OF process_run.here] .

text \<open>Once the context is done, workers that wait return, one after the other.\<close>

lemma worker_leaves:
  assumes "live p" "wk_ctx_done (pr_pool p)" "i < length (wk_phases (pr_pool p))"
    "wk_phases (pr_pool p) ! i = Waiting"
  shows "process_step I e w parse sc pg db p (p\<lparr>pr_pool := exit_run i (pr_pool p)\<rparr>)"
  by (rule process_step.pool [where ev = "EvSelect i"], use assms in simp, simp, rule worker_step.selected) (use assms in \<open>simp_all add: run_select_def\<close>)

lemma exit_run_frame [simp]:
  "wk_crashed (exit_run i q) = wk_crashed q" "wk_ctx_done (exit_run i q) = wk_ctx_done q" "wk_stop (exit_run i q) = wk_stop q"
  "wk_queue (exit_run i q) = wk_queue q" "wk_backend (exit_run i q) = wk_backend q" "wk_started (exit_run i q) = wk_started q"
  "wk_phases (exit_run i q) = (wk_phases q)[i := phase.Returned]" "wk_wg (exit_run i q) = wk_wg q - 1"
  by (simp_all add: exit_run_def)

text \<open>All workers have left: the pool differs in nothing else a later step asks for.\<close>

definition emptied :: "('j, 's) worker_state \<Rightarrow> ('j, 's) worker_state \<Rightarrow> bool" where
  "emptied q q' \<longleftrightarrow>
     alive (wk_phases q') = 0 \<and> wk_wg q' = wk_wg q - int (alive (wk_phases q)) \<and> wk_crashed q' = wk_crashed q \<and>
     wk_stop q' = wk_stop q \<and> wk_queue q' = wk_queue q \<and> wk_backend q' = wk_backend q \<and> wk_started q' = wk_started q"

lemma workers_leave:
  assumes "live p" "wk_ctx_done (pr_pool p)" "executing (wk_phases (pr_pool p)) = []"
  shows "\<exists>q'. process_run I e w parse sc pg db p (p\<lparr>pr_pool := q'\<rparr>) \<and> emptied (pr_pool p) q'"
  using assms
proof (induction "alive (wk_phases (pr_pool p))" arbitrary: p)
  case 0
  have "process_run I e w parse sc pg db p (p\<lparr>pr_pool := pr_pool p\<rparr>)" by (simp add: process_run.here)
  moreover have "emptied (pr_pool p) (pr_pool p)" using 0 by (simp add: emptied_def)
  ultimately show ?case by blast
next
  case (Suc n)
  let ?ps = "wk_phases (pr_pool p)"
  have "alive ?ps \<noteq> 0" using Suc.hyps(2) by simp
  then obtain i where i: "i < length ?ps" "?ps ! i \<noteq> phase.Returned"
    by (auto simp: alive_def filter_empty_conv in_set_conv_nth)
  have m: "mset (executing (?ps[i := q])) + mset (executing [?ps ! i]) = mset (executing [q])" for q
    using executing_update [OF i(1), of q] Suc.prems(3) by simp
  have "executing [?ps ! i] = []" using m [of phase.Returned] by simp
  then have waits: "?ps ! i = Waiting" using i(2) by (cases "?ps ! i") simp_all
  with i(1) Suc.prems have step: "process_step I e w parse sc pg db p (p\<lparr>pr_pool := exit_run i (pr_pool p)\<rparr>)"
    by (intro worker_leaves) simp_all
  let ?p = "p\<lparr>pr_pool := exit_run i (pr_pool p)\<rparr>"
  have a: "alive (?ps[i := phase.Returned]) = n"
    using alive_update [OF i(1), of phase.Returned] waits Suc.hyps(2) by simp
  have x: "executing (?ps[i := phase.Returned]) = []" using m [of phase.Returned] by simp
  have "\<exists>q'. process_run I e w parse sc pg db ?p (?p\<lparr>pr_pool := q'\<rparr>) \<and> emptied (pr_pool ?p) q'"
    by (rule Suc.hyps(1)) (use a x Suc.prems in simp_all)
  then obtain q' where q: "process_run I e w parse sc pg db ?p (p\<lparr>pr_pool := q'\<rparr>)" "emptied (exit_run i (pr_pool p)) q'"
    by auto
  have "emptied (pr_pool p) q'" using q(2) a Suc.hyps(2) by (simp add: emptied_def)
  with process_run_trans [OF q(1) process_run_one [OF step]] show ?case by blast
qed


text \<open>From the interrupt on, with no tick and no job left, every call can return without an error.\<close>

lemma shutdown_completes:
  assumes "live p" "pr_main p = Stop_scheduler" "wk_ctx_done (pr_pool p)" "\<not> wk_stop (pr_pool p)"
    "executing (wk_phases (pr_pool p)) = []" "ss_inflight (pr_sched p) = []" "worker_inv e w (pr_pool p)"
  shows "\<exists>q. process_run I e w parse sc pg db p q \<and> pr_main q = Exited \<and> pr_warnings q = pr_warnings p \<and>
    wk_queue (pr_pool q) = wk_queue (pr_pool p) \<and> wk_started (pr_pool q) = wk_started (pr_pool p)"
proof -
  let ?step = "process_step I e w parse sc pg db" and ?run = "process_run I e w parse sc pg db"
  from workers_leave [OF assms(1,3,5)] obtain k where
    run: "?run p (p\<lparr>pr_pool := k\<rparr>)" and k: "emptied (pr_pool p) k" by blast
  let ?s1 = "Shutdown_begin (pr_sched p)"
  let ?s2 = "?s1\<lparr>ss_waiters := ss_waiters ?s1 - 1\<rparr>"
  let ?k = "k\<lparr>wk_stop := True\<rparr>"
  let ?p = "\<lambda>m s k. p\<lparr>pr_pool := k, pr_sched := s, pr_main := m\<rparr>"
  let ?q = "\<lambda>m. p\<lparr>pr_sched := ?s2, pr_pool := ?k, pr_main := m\<rparr>"
  have wg: "wk_wg k = 0" using assms(7) k by (simp add: emptied_def worker_inv_def)
  have same: "\<not> wk_crashed k" "\<not> wk_stop k" "wk_queue k = wk_queue (pr_pool p)" "wk_started k = wk_started (pr_pool p)"
    using k assms(1,4) by (simp_all add: emptied_def)
  have "?step (p\<lparr>pr_pool := k\<rparr>) (?p Wait_scheduler ?s1 k)"
    using process_step.stop_scheduler [of "p\<lparr>pr_pool := k\<rparr>", OF _ _ sched_step.shutdown] same(1) assms(2) by simp
  moreover have "sched_step parse sc ?s1 Shutdown_ok ?s2"
    by (rule sched_step.shutdown_ok) (simp_all add: Shutdown_begin_def assms(6))
  then have "?step (?p Wait_scheduler ?s1 k) (?p Stop_worker ?s2 k)"
    using process_step.scheduler_stopped [of "?p Wait_scheduler ?s1 k"] same(1) by (simp add: returned_def)
  moreover have c: "worker_step I e w k EvClose ?k"
    by (rule worker_step.close) (simp_all add: same Shutdown_close_def)
  have "?step (?p Stop_worker ?s2 k) (?q Wait_worker)"
    using process_step.stop_worker [of "?p Stop_worker ?s2 k" I e w ?k] c by simp
  moreover have "worker_step I e w ?k (EvShutdownReturn None) ?k"
    by (rule worker_step.shutdown_return [where cd = None]) (simp_all add: same wg Shutdown_return_def)
  then have "?step (?q Wait_worker) (?q Stop_app)"
    using process_step.worker_stopped [of "?q Wait_worker"] by (fastforce simp: returned_def)
  moreover have "?step (?q Stop_app) (?q Stop_server)"
    using process_step.app_stopped [of "?q Stop_app"] same(1) by (simp add: returned_def)
  moreover have "?step (?q Stop_server) (?q Stop_leader)"
    using process_step.server_stopped [of "?q Stop_server" _ _ _ _ _ _ _ None] same(1) by (simp add: returned_def)
  moreover have "?step (?q Stop_leader) (?q Stop_database)"
    using process_step.leader_closed [of "?q Stop_leader" pg None] same(1) by (simp add: returned_def)
  moreover have "?step (?q Stop_database) (?q Exited)"
    using process_step.database_closed [of "?q Stop_database" db None] same(1) by (simp add: returned_def)
  ultimately have "?run p (?q Exited)" using run by (meson process_run.further)
  then show ?thesis using same(3,4) by (intro exI [of _ "?q Exited"]) simp
qed

section \<open>Properties\<close>




section \<open>Witnesses and behaviours at the edge\<close>

definition demo_scheduler :: "(string, unit, unit) Scheduler" where
  "demo_scheduler = Register [heartbeat]
     (NewScheduler (NewEnqueuer (log_New LevelInfo) [WithQueueSize 100]) (log_New LevelInfo) None [WithOnError])"

definition demo_pool :: Worker where
  "demo_pool = NewWorker \<lparr>wc_Concurrency = 4, wc_ShutdownTimeout = 10\<rparr> (log_New LevelInfo)"

definition demo_started :: "(string, unit, unit) process" where
  "demo_started = (process_init demo_pool () ())\<lparr>pr_sched := Start_call (\<lambda>_. None) demo_scheduler sched_init\<rparr>"

abbreviation demo_run :: "(string, unit, unit) process \<Rightarrow> (string, unit, unit) process \<Rightarrow> bool" where
  "demo_run \<equiv> process_run string_jobs (sc_enqueuer demo_scheduler) demo_pool (\<lambda>_. None) demo_scheduler False False"

lemma demo_fields:
  "pr_main demo_started = Serving" "pr_warnings demo_started = []" "ss_started (pr_sched demo_started)"
  "ss_cron_running (pr_sched demo_started)" "ss_inflight (pr_sched demo_started) = []"
  "ss_entries (pr_sched demo_started) = [\<lparr>ce_spec = ''@every 30s'', ce_skip = True, ce_def = heartbeat\<rparr>]"
  "wk_phases (pr_pool demo_started) = replicate 4 Waiting" "wk_queue (pr_pool demo_started) = []"
  "\<not> wk_crashed (pr_pool demo_started)" "\<not> wk_stop (pr_pool demo_started)" "wk_started (pr_pool demo_started) = []"
  "wk_sent (pr_pool demo_started) = []" "wk_wg (pr_pool demo_started) = 4" "wk_backend (pr_pool demo_started) = ()"
  by (simp_all add: demo_started_def process_init_def Start_call_def sched_init_def addDefinition_def cron_spec_def
      demo_scheduler_def Register_def NewScheduler_def WithOnError_def heartbeat_def worker_Start_def Start_workers_eq
      worker_init_def demo_pool_def NewWorker_def)

lemma demo_starts: "demo_run (process_init demo_pool () ()) demo_started"
proof (rule process_run_one)
  have "live (process_init demo_pool () () :: (string, unit, unit) process)"
    "\<not> ss_started (pr_sched (process_init demo_pool () () :: (string, unit, unit) process))"
    "pr_sched (process_init demo_pool () () :: (string, unit, unit) process) = sched_init"
    by (simp_all add: process_init_def sched_init_def worker_Start_def Start_workers_eq worker_init_def)
  then show "process_step string_jobs (sc_enqueuer demo_scheduler) demo_pool (\<lambda>_. None) demo_scheduler False False
      (process_init demo_pool () ()) demo_started"
    unfolding demo_started_def by (intro process_step.sched_starts) (auto intro: sched_step.start)
qed


text \<open>A tick fires, the interrupt comes, and the tick puts its job into the queue that nobody reads any more.\<close>

definition demo_interrupted :: "(string, unit, unit) process" where
  "demo_interrupted = demo_started
     \<lparr>pr_sched := (pr_sched demo_started)\<lparr>ss_inflight := [0]\<rparr>,
      pr_pool := (pr_pool demo_started)\<lparr>wk_ctx_done := True\<rparr>, pr_main := Stop_scheduler\<rparr>"

lemma demo_interrupt: "demo_run demo_started demo_interrupted"
proof -
  let ?s = "(pr_sched demo_started)\<lparr>ss_inflight := [0]\<rparr>"
  let ?step = "process_step string_jobs (sc_enqueuer demo_scheduler) demo_pool (\<lambda>_. None) demo_scheduler False False"
  have "sched_step (\<lambda>_. None) demo_scheduler (pr_sched demo_started) (Fired 0) ?s"
    using sched_step.fire [of "pr_sched demo_started" 0] by (simp add: demo_fields)
  then have "?step demo_started (demo_started\<lparr>pr_sched := ?s\<rparr>)"
    by (intro process_step.tick_begins) (simp_all add: demo_fields)
  moreover have "?step (demo_started\<lparr>pr_sched := ?s\<rparr>) demo_interrupted"
    using process_step.interrupt [of "demo_started\<lparr>pr_sched := ?s\<rparr>", OF _ worker_step.context_done]
    by (simp add: demo_fields demo_interrupted_def)
  ultimately show ?thesis using process_run_one process_run.further by metis
qed

lemma demo_tick:
  "\<exists>v env. tick string_jobs demo_scheduler 0 heartbeat (tick_view demo_interrupted) = Inr v \<and> sw_buffer v = [env]"
  by (simp add: tick_view_def demo_interrupted_def demo_fields tick_def tick_body_def tick_Enqueue_def Enqueue_def Enqueue_plan_def
      demo_scheduler_def Register_def NewScheduler_def WithOnError_def NewEnqueuer_def WithQueueSize_def heartbeat_def
      defaultJobOptions_def Let_def string_jobs_def)

lemma late_job_dropped:
  "\<exists>q. demo_run demo_started q \<and> pr_main q = Exited \<and> pr_warnings q = [] \<and>
     wk_started (pr_pool q) = [] \<and> length (wk_queue (pr_pool q)) = 1"
proof -
  obtain v env where v: "tick string_jobs demo_scheduler 0 heartbeat (tick_view demo_interrupted) = Inr v"
    "sw_buffer v = [env]" using demo_tick by blast
  let ?s = "(pr_sched demo_interrupted)\<lparr>ss_inflight := []\<rparr>"
  let ?r = "tick_put v (demo_interrupted\<lparr>pr_sched := ?s\<rparr>)"
  have "sched_step (\<lambda>_. None) demo_scheduler (pr_sched demo_interrupted) (Tick_ended 0) ?s"
    using sched_step.tick_ended [of 0 "pr_sched demo_interrupted"] by (simp add: demo_interrupted_def)
  then have "process_step string_jobs (sc_enqueuer demo_scheduler) demo_pool (\<lambda>_. None) demo_scheduler False False demo_interrupted ?r"
    by (rule process_step.tick_ends [rotated]) (use v in \<open>simp_all add: demo_interrupted_def demo_fields\<close>)
  then have run: "demo_run demo_started ?r" using process_run.further [OF demo_interrupt] by blast
  have inv: "worker_inv (sc_enqueuer demo_scheduler) demo_pool (pr_pool ?r)"
    using process_run_worker_inv [OF process_run_trans [OF run demo_starts] process_init_inv] by simp
  have "live ?r" "pr_main ?r = Stop_scheduler" "wk_ctx_done (pr_pool ?r)" "\<not> wk_stop (pr_pool ?r)"
    "executing (wk_phases (pr_pool ?r)) = []" "ss_inflight (pr_sched ?r) = []" "pr_warnings ?r = []"
    "wk_queue (pr_pool ?r) = [env]" "wk_started (pr_pool ?r) = []"
    by (simp_all add: tick_put_def demo_interrupted_def demo_fields v(2))
  then obtain q where "demo_run ?r q" "pr_main q = Exited" "pr_warnings q = []" "wk_queue (pr_pool q) = [env]" "wk_started (pr_pool q) = []"
    using shutdown_completes [OF _ _ _ _ _ _ inv] by metis
  with process_run_trans [OF _ run] show ?thesis by (intro exI [of _ q]) auto
qed



text \<open>
  The interrupt may come before \<open>go scheduler.Start\<close> has run: then \<open>Start\<close> launches cron after \<open>Shutdown\<close> has
  returned, and the ticks run while \<open>main\<close> closes the rest.
\<close>

lemma late_start_runs_on:
  assumes "live p" "pr_main p = Stop_scheduler" "\<not> ss_started (pr_sched p)" "ss_inflight (pr_sched p) = []"
  shows "\<exists>q. process_run I e w parse sc pg db p q \<and> pr_main q = Stop_worker \<and> pr_warnings q = pr_warnings p \<and>
    ss_stopped (pr_sched q) \<and> ss_cron_running (pr_sched q)"
proof -
  let ?step = "process_step I e w parse sc pg db"
  let ?s1 = "Shutdown_begin (pr_sched p)"
  let ?s2 = "?s1\<lparr>ss_waiters := ss_waiters ?s1 - 1\<rparr>"
  let ?p = "\<lambda>m s. p\<lparr>pr_sched := s, pr_main := m\<rparr>"
  let ?q = "p\<lparr>pr_main := Stop_worker, pr_sched := Start_call parse sc ?s2\<rparr>"
  have "?step p (?p Wait_scheduler ?s1)"
    using process_step.stop_scheduler [of p, OF _ _ sched_step.shutdown] assms(1,2) by simp
  moreover have c: "sched_step parse sc ?s1 Shutdown_ok ?s2"
    by (rule sched_step.shutdown_ok) (simp_all add: Shutdown_begin_def assms(4))
  then have "?step (?p Wait_scheduler ?s1) (?p Stop_worker ?s2)"
    using process_step.scheduler_stopped [of "?p Wait_scheduler ?s1"] assms(1) by (simp add: returned_def)
  moreover have "?step (?p Stop_worker ?s2) ?q"
    using process_step.sched_starts [of "?p Stop_worker ?s2", OF _ _ sched_step.start] assms(1,3)
    by (simp add: Shutdown_begin_def)
  ultimately have "process_run I e w parse sc pg db p ?q"
    using process_run_one process_run.further by metis
  then show ?thesis
    by (intro exI [of _ ?q])
       (use assms(3) in \<open>simp add: Start_call_def Shutdown_begin_def split: prod.split\<close>)
qed


section \<open>Persistent jobs\<close>

text \<open>
  A job with the option \<open>Persist\<close> goes to the backend and never to the queue the pool reads; nothing in the
  process calls \<open>Fetch\<close>, so such jobs are stored and never run.
\<close>

definition persistent :: "'j Definition \<Rightarrow> bool" where
  "persistent d \<longleftrightarrow> jo_persist (apply_options (sd_Options d) defaultJobOptions)"

definition persist_inv :: "('j, 's, 'l) Scheduler \<Rightarrow> ('j, 's, 'l) process \<Rightarrow> bool" where
  "persist_inv sc p \<longleftrightarrow>
     ce_def ` set (ss_entries (pr_sched p)) \<subseteq> set (sc_definitions sc) \<and> no_overlap (pr_sched p) \<and>
     wk_sent (pr_pool p) = [] \<and> wk_queue (pr_pool p) = []"

lemma add_definitions_defs:
  "ce_def ` set (fst (add_definitions parse lg defs es log)) \<subseteq> ce_def ` set es \<union> set defs"
proof (induction parse lg defs es log rule: add_definitions.induct)
  case (2 parse lg d defs es log)
  then show ?case by (cases "parse (cron_spec d)") (auto simp: addDefinition_def)
qed simp

lemma sched_step_defs:
  assumes "sched_step parse sc s ev t" "ce_def ` set (ss_entries s) \<subseteq> set (sc_definitions sc)"
  shows "ce_def ` set (ss_entries t) \<subseteq> set (sc_definitions sc)"
  using assms
proof (induction rule: sched_step.induct)
  case (start s)
  with add_definitions_defs [of parse "sc_logger sc" "sc_definitions sc" "ss_entries s" "ss_log s"]
  have "ce_def ` set (fst (add_definitions parse (sc_logger sc) (sc_definitions sc) (ss_entries s) (ss_log s))) \<subseteq>
      set (sc_definitions sc)" by blast
  with start show ?case
    by (cases "add_definitions parse (sc_logger sc) (sc_definitions sc) (ss_entries s) (ss_log s)") (simp add: Start_call_def)
qed (auto simp: Shutdown_begin_def)

lemma persistent_tick:
  assumes "tick I sc now d v0 = Inr v" "persistent d"
  shows "sw_buffer v = sw_buffer v0"
  using tick_buffer [OF assms(1)] assms(2)
  by (auto simp: enqueue_outcomes_def Enqueue_def Enqueue_plan_def persistent_def Let_def split: option.splits prod.splits)

lemma pool_keeps_empty:
  assumes "worker_step I e w s ev t" "wk_queue s = []" "\<And>res. ev \<noteq> EvEnqueue res" "\<And>i. ev \<noteq> EvHandoff i"
  shows "wk_queue t = [] \<and> wk_sent t = wk_sent s"
  using assms
  by (induction rule: worker_step.induct)
    (auto simp: worker_Start_def Start_workers_eq run_select_def exit_run_def end_job_def Shutdown_close_def split: if_splits)

lemma persist_inv_sched:
  "sched_step parse sc (pr_sched p) ev s \<Longrightarrow> persist_inv sc p \<Longrightarrow> persist_inv sc (p\<lparr>pr_sched := s\<rparr>)"
  using sched_step_defs [of parse sc "pr_sched p" ev s] no_overlap_step [of parse sc "pr_sched p" ev s]
  by (simp add: persist_inv_def)

lemma persist_inv_frame [simp]:
  "persist_inv sc (p\<lparr>pr_main := m\<rparr>) = persist_inv sc p" "persist_inv sc (returned k msg res p) = persist_inv sc p"
  "persist_inv sc (p\<lparr>pr_leader := l, pr_pool := (pr_pool p)\<lparr>wk_backend := b\<rparr>\<rparr>) = persist_inv sc p"
  by (simp_all add: persist_inv_def returned_def)

lemma persist_inv_step:
  assumes "process_step I e w parse sc pg db p q" "persist_inv sc p" "\<forall>d \<in> set (sc_definitions sc). persistent d"
  shows "persist_inv sc q"
  using assms
proof (induction rule: process_step.induct)
  case (tick_ends p n s now v)
  have "n \<in> set (ss_inflight (pr_sched p))" and s: "ss_entries s = ss_entries (pr_sched p)"
    using tick_ends(2) by (auto elim: sched_step.cases)
  with tick_ends(4) have "n < length (ss_entries (pr_sched p))" by (auto simp: persist_inv_def no_overlap_def)
  then have "persistent (ce_def (ss_entries s ! n))" using tick_ends(4,5) nth_mem by (fastforce simp: persist_inv_def s)
  with persistent_tick [OF tick_ends(3)] s have "sw_buffer v = []"
    using tick_ends(4) by (simp add: persist_inv_def tick_view_def)
  with tick_ends(4) no_overlap_step [OF tick_ends(2)] s show ?case by (simp add: persist_inv_def tick_put_def)
next
  case (pool p ev q)
  have "\<And>res. ev \<noteq> EvEnqueue res" "\<And>i. ev \<noteq> EvHandoff i" using pool(2) by auto
  with pool_keeps_empty [OF pool(3)] pool(4) show ?case by (simp add: persist_inv_def)
next
  case (interrupt p q)
  with pool_keeps_empty [OF interrupt(2)] show ?case by (simp add: persist_inv_def)
next
  case (stop_worker p q)
  with pool_keeps_empty [OF stop_worker(2)] show ?case by (simp add: persist_inv_def)
next
  case (worker_stopped p res q)
  with pool_keeps_empty [OF worker_stopped(2)] show ?case by (simp add: persist_inv_def returned_def)
qed (simp_all add: persist_inv_sched)

lemma persisted_never_run:
  assumes "process_run I e w parse sc pg db (process_init w b l) p" "\<forall>d \<in> set (sc_definitions sc). persistent d"
  shows "wk_sent (pr_pool p) = [] \<and> wk_queue (pr_pool p) = []"
proof -
  have "persist_inv sc (process_init w b l)"
    by (simp add: persist_inv_def process_init_def sched_init_def no_overlap_def worker_Start_def Start_workers_eq worker_init_def)
  with assms(1) have "persist_inv sc p"
    by (induction rule: process_run.induct) (use assms(2) persist_inv_step in blast)+
  then show ?thesis by (simp add: persist_inv_def)
qed

end
