(* ===== verification/PgBackend.thy ===== *)
theory PgBackend
  imports Job
begin

text \<open>
  \<open>job/pg_backend.go\<close>: the persistent job queue in the table \<open>broth_jobs\<close> of
  \<open>db/migrations/002_create_broth_jobs.up.sql\<close>.  Every operation is one SQL statement, modelled by
  what it does to the rows.  \<open>pg_faults\<close> are the errors the driver reports for the next statements
  (a failing statement has no effect), \<open>pg_tie\<close> decides between rows that \<open>ORDER BY\<close> leaves equal,
  \<open>pg_now\<close> is \<open>NOW ()\<close>.  The locale \<open>job_backend\<close> is interpreted at the end.
\<close>

section \<open>The table\<close>

record job_row =
  jr_id :: int
  jr_name :: string
  jr_queue :: string
  jr_payload :: string
  jr_priority :: int
  jr_status :: string
  jr_attempts :: int
  jr_max_attempts :: int
  jr_locked_by :: string
  jr_last_error :: string
  jr_created_at :: go_time
  jr_started_at :: "go_time option"
  jr_completed_at :: "go_time option"
  jr_failed_at :: "go_time option"

record pg =
  pg_jobs :: "job_row list"
  pg_next_id :: int
  pg_now :: go_time
  pg_tie :: nat
  pg_faults :: "string option list"

definition pg_empty :: pg where
  "pg_empty = \<lparr>pg_jobs = [], pg_next_id = 1, pg_now = 0, pg_tie = 0, pg_faults = []\<rparr>"

text \<open>The driver's error for the next statement, if any.\<close>

definition take_fault :: "pg \<Rightarrow> string option \<times> pg" where
  "take_fault s = (case pg_faults s of [] \<Rightarrow> (None, s) | f # fs \<Rightarrow> (f, s\<lparr>pg_faults := fs\<rparr>))"

text \<open>\<open>UPDATE ... WHERE\<close>, and the number of rows it affects.\<close>

definition update_rows :: "(job_row \<Rightarrow> bool) \<Rightarrow> (job_row \<Rightarrow> job_row) \<Rightarrow> job_row list \<Rightarrow> job_row list" where
  "update_rows P f rows = map (\<lambda>r. if P r then f r else r) rows"

definition affected :: "(job_row \<Rightarrow> bool) \<Rightarrow> job_row list \<Rightarrow> int" where
  "affected P rows = int (length (filter P rows))"

section \<open>Operations\<close>

definition maxAttempts :: int where "maxAttempts = 3"

definition new_row :: "'j job_iface \<Rightarrow> 'j \<Rightarrow> jobOptions \<Rightarrow> pg \<Rightarrow> job_row" where
  "new_row I j opts s =
     \<lparr>jr_id = pg_next_id s, jr_name = ji_JobName I j, jr_queue = jo_queue opts,
      jr_payload = (case ji_Marshal I j of Inl _ \<Rightarrow> [] | Inr p \<Rightarrow> p), jr_priority = jo_priority opts,
      jr_status = ''pending'', jr_attempts = 0, jr_max_attempts = maxAttempts, jr_locked_by = [],
      jr_last_error = [], jr_created_at = pg_now s, jr_started_at = None, jr_completed_at = None,
      jr_failed_at = None\<rparr>"

definition pg_Enqueue :: "'j job_iface \<Rightarrow> 'j \<Rightarrow> jobOptions \<Rightarrow> pg \<Rightarrow> string option \<times> pg" where
  "pg_Enqueue I j opts s =
     (case ji_Marshal I j of
        Inl err \<Rightarrow> (Some (''job: pg backend: enqueue: marshal payload: '' @ err), s)
      | Inr payload \<Rightarrow>
          (case take_fault s of
             (Some err, s1) \<Rightarrow> (Some (''job: pg backend: enqueue: '' @ err), s1)
           | (None, s1) \<Rightarrow>
               (None, s1\<lparr>pg_jobs := pg_jobs s1 @ [new_row I j opts s1], pg_next_id := pg_next_id s1 + 1\<rparr>)))"

text \<open>
  \<open>Fetch\<close> numbers its arguments from 1: the queues first, the worker last.  \<open>arg\<close> is what the server
  binds to \<open>$k\<close>.
\<close>

definition fetch_args :: "string list \<Rightarrow> string \<Rightarrow> string list" where
  "fetch_args queues workerID = queues @ [workerID]"

definition arg :: "string list \<Rightarrow> nat \<Rightarrow> string" where
  "arg args k = args ! (k - 1)"

text \<open>The rows the subquery may return: \<open>locked\<close> are the rows locked by other open statements.\<close>

definition fetchable :: "string list \<Rightarrow> nat \<Rightarrow> int set \<Rightarrow> job_row \<Rightarrow> bool" where
  "fetchable args n locked r \<longleftrightarrow>
     jr_status r = ''pending'' \<and> (\<exists>k \<in> {1..n}. jr_queue r = arg args k) \<and> jr_id r \<notin> locked"

text \<open>\<open>ORDER BY priority DESC, created_at ASC\<close>.\<close>

definition before_in_order :: "job_row \<Rightarrow> job_row \<Rightarrow> bool" where
  "before_in_order a b \<longleftrightarrow>
     jr_priority a > jr_priority b \<or> jr_priority a = jr_priority b \<and> jr_created_at a < jr_created_at b"

definition fetch_select :: "string list \<Rightarrow> nat \<Rightarrow> int set \<Rightarrow> nat \<Rightarrow> job_row list \<Rightarrow> job_row option" where
  "fetch_select args n locked tie rows =
     (let cs = filter (fetchable args n locked) rows;
          firsts = filter (\<lambda>r. \<not> list_ex (\<lambda>r'. before_in_order r' r) cs) cs
      in if firsts = [] then None else Some (firsts ! (tie mod length firsts)))"

definition run_row :: "string \<Rightarrow> go_time \<Rightarrow> job_row \<Rightarrow> job_row" where
  "run_row workerID now r =
     r\<lparr>jr_status := ''running'', jr_attempts := jr_attempts r + 1, jr_started_at := Some now,
       jr_locked_by := workerID\<rparr>"

definition persisted :: "job_row \<Rightarrow> PersistedJob" where
  "persisted r =
     \<lparr>pj_ID = jr_id r, pj_Name = jr_name r, pj_Queue = jr_queue r, pj_Priority = jr_priority r,
      pj_Payload = jr_payload r, pj_Attempts = jr_attempts r, pj_MaxAttempts = jr_max_attempts r,
      pj_LockedBy = jr_locked_by r, pj_CreatedAt = jr_created_at r\<rparr>"

definition pg_Fetch ::
    "int set \<Rightarrow> string list \<Rightarrow> string \<Rightarrow> pg \<Rightarrow> (string + PersistedJob option) \<times> pg"
where
  "pg_Fetch locked queues workerID s =
     (if queues = [] then (Inr None, s)
      else
        (let args = fetch_args queues workerID
         in case take_fault s of
              (Some err, s1) \<Rightarrow> (Inl (''job: pg backend: fetch: '' @ err), s1)
            | (None, s1) \<Rightarrow>
                (case fetch_select args (length queues) locked (pg_tie s1) (pg_jobs s1) of
                   None \<Rightarrow> (Inr None, s1)
                 | Some r \<Rightarrow>
                     (let upd = run_row (arg args (length queues + 1)) (pg_now s1)
                      in (Inr (Some (persisted (upd r))),
                          s1\<lparr>pg_jobs := update_rows (\<lambda>x. jr_id x = jr_id r) upd (pg_jobs s1)\<rparr>)))))"

text \<open>The shape \<open>Complete\<close>, \<open>Fail\<close>, \<open>Dead\<close> and \<open>RetryDead\<close> share.\<close>

definition pg_update ::
    "string \<Rightarrow> string \<Rightarrow> int \<Rightarrow> (job_row \<Rightarrow> bool) \<Rightarrow> (job_row \<Rightarrow> job_row) \<Rightarrow> pg \<Rightarrow> string option \<times> pg"
where
  "pg_update what missing jobID P f s =
     (case take_fault s of
        (Some err, s1) \<Rightarrow> (Some (''job: pg backend: '' @ what @ '': '' @ err), s1)
      | (None, s1) \<Rightarrow>
          (let s2 = s1\<lparr>pg_jobs := update_rows P f (pg_jobs s1)\<rparr>
           in if affected P (pg_jobs s1) = 0
              then (Some (''job: pg backend: '' @ what @ '': job '' @ itoa jobID @ '' '' @ missing), s2)
              else (None, s2)))"

definition complete_row :: "go_time \<Rightarrow> job_row \<Rightarrow> job_row" where
  "complete_row now r = r\<lparr>jr_status := ''completed'', jr_completed_at := Some now, jr_locked_by := []\<rparr>"

definition pg_Complete :: "int \<Rightarrow> pg \<Rightarrow> string option \<times> pg" where
  "pg_Complete jobID s =
     pg_update ''complete'' ''not found'' jobID (\<lambda>r. jr_id r = jobID) (complete_row (pg_now s)) s"

definition fail_row :: "string \<Rightarrow> go_time \<Rightarrow> job_row \<Rightarrow> job_row" where
  "fail_row msg now r =
     r\<lparr>jr_status := (if jr_attempts r < jr_max_attempts r then ''pending'' else ''dead''),
       jr_last_error := msg, jr_failed_at := Some now, jr_locked_by := []\<rparr>"

definition err_text :: "string option \<Rightarrow> string" where
  "err_text e = (case e of None \<Rightarrow> [] | Some msg \<Rightarrow> msg)"

definition pg_Fail :: "int \<Rightarrow> string option \<Rightarrow> pg \<Rightarrow> string option \<times> pg" where
  "pg_Fail jobID jobErr s =
     pg_update ''fail'' ''not found'' jobID (\<lambda>r. jr_id r = jobID) (fail_row (err_text jobErr) (pg_now s)) s"

definition dead_row :: "string \<Rightarrow> go_time \<Rightarrow> job_row \<Rightarrow> job_row" where
  "dead_row msg now r =
     r\<lparr>jr_status := ''dead'', jr_last_error := msg, jr_failed_at := Some now, jr_locked_by := []\<rparr>"

definition pg_Dead :: "int \<Rightarrow> string option \<Rightarrow> pg \<Rightarrow> string option \<times> pg" where
  "pg_Dead jobID jobErr s =
     pg_update ''dead'' ''not found'' jobID (\<lambda>r. jr_id r = jobID) (dead_row (err_text jobErr) (pg_now s)) s"

definition retry_row :: "job_row \<Rightarrow> job_row" where
  "retry_row r =
     r\<lparr>jr_status := ''pending'', jr_attempts := 0, jr_last_error := [], jr_failed_at := None,
       jr_started_at := None, jr_locked_by := []\<rparr>"

definition pg_RetryDead :: "int \<Rightarrow> pg \<Rightarrow> string option \<times> pg" where
  "pg_RetryDead jobID s =
     pg_update ''retry dead'' ''not found or not dead'' jobID (\<lambda>r. jr_id r = jobID \<and> jr_status r = ''dead'')
       retry_row s"

text \<open>\<open>SELECT queue, status, COUNT (*) ... GROUP BY queue, status\<close>, the groups in any order.\<close>

definition group_counts :: "job_row list \<Rightarrow> (string \<times> string \<times> int) list" where
  "group_counts rows =
     map (\<lambda>(q, st). (q, st, int (length (filter (\<lambda>r. jr_queue r = q \<and> jr_status r = st) rows))))
       (remdups (map (\<lambda>r. (jr_queue r, jr_status r)) rows))"

text \<open>One turn of the loop over the groups; a missing map entry is the zero \<open>QueueDetail\<close>.\<close>

definition stats_add :: "QueueStats \<Rightarrow> string \<times> string \<times> int \<Rightarrow> QueueStats" where
  "stats_add stats g =
     (let (q, st, n) = g;
          s1 = (if st = ''pending'' then stats\<lparr>qs_Pending := qs_Pending stats + n\<rparr>
                else if st = ''running'' then stats\<lparr>qs_Running := qs_Running stats + n\<rparr>
                else if st = ''completed'' then stats\<lparr>qs_Completed := qs_Completed stats + n\<rparr>
                else if st = ''dead'' then stats\<lparr>qs_Dead := qs_Dead stats + n\<rparr>
                else stats);
          d0 = (case qs_Queues s1 q of None \<Rightarrow> \<lparr>qd_Name = [], qd_Pending = 0, qd_Running = 0\<rparr> | Some d \<Rightarrow> d);
          d1 = d0\<lparr>qd_Name := q\<rparr>;
          d = (if st = ''pending'' then d1\<lparr>qd_Pending := qd_Pending d1 + n\<rparr>
               else if st = ''running'' then d1\<lparr>qd_Running := qd_Running d1 + n\<rparr>
               else d1)
      in s1\<lparr>qs_Queues := (qs_Queues s1)(q \<mapsto> d)\<rparr>)"

fun stats_loop :: "QueueStats \<Rightarrow> (string \<times> string \<times> int) list \<Rightarrow> QueueStats" where
  "stats_loop stats [] = stats"
| "stats_loop stats (g # gs) = stats_loop (stats_add stats g) gs"

definition empty_stats :: QueueStats where
  "empty_stats = \<lparr>qs_Pending = 0, qs_Running = 0, qs_Completed = 0, qs_Dead = 0, qs_Queues = (\<lambda>_. None)\<rparr>"

text \<open>The query may fail, and so may the iteration (\<open>rows.Err\<close>).\<close>

definition pg_Stats :: "pg \<Rightarrow> (string + QueueStats) \<times> pg" where
  "pg_Stats s =
     (case take_fault s of
        (Some err, s1) \<Rightarrow> (Inl (''job: pg backend: stats: '' @ err), s1)
      | (None, s1) \<Rightarrow>
          (let stats = stats_loop empty_stats (group_counts (pg_jobs s1))
           in case take_fault s1 of
                (Some err, s2) \<Rightarrow> (Inl (''job: pg backend: stats: rows: '' @ err), s2)
              | (None, s2) \<Rightarrow> (Inr stats, s2)))"

definition expired_row :: "go_time \<Rightarrow> job_row \<Rightarrow> bool" where
  "expired_row completedBefore r \<longleftrightarrow>
     jr_status r = ''completed'' \<and> (case jr_completed_at r of None \<Rightarrow> False | Some t \<Rightarrow> t < completedBefore)"

definition pg_Cleanup :: "go_time \<Rightarrow> pg \<Rightarrow> (string + int) \<times> pg" where
  "pg_Cleanup completedBefore s =
     (case take_fault s of
        (Some err, s1) \<Rightarrow> (Inl (''job: pg backend: cleanup: '' @ err), s1)
      | (None, s1) \<Rightarrow>
          (let n = affected (expired_row completedBefore) (pg_jobs s1);
               s2 = s1\<lparr>pg_jobs := filter (\<lambda>r. \<not> expired_row completedBefore r) (pg_jobs s1)\<rparr>
           in case take_fault s2 of
                (Some err, s3) \<Rightarrow> (Inl (''job: pg backend: cleanup: rows affected: '' @ err), s3)
              | (None, s3) \<Rightarrow> (Inr n, s3)))"

definition PgBackend :: "'j job_iface \<Rightarrow> int set \<Rightarrow> ('j, pg) Backend" where
  "PgBackend I locked =
     \<lparr>be_Enqueue = pg_Enqueue I, be_Fetch = pg_Fetch locked, be_Complete = pg_Complete, be_Fail = pg_Fail,
      be_Dead = pg_Dead, be_RetryDead = pg_RetryDead, be_Stats = pg_Stats, be_Cleanup = pg_Cleanup\<rparr>"

lemma take_fault_frame [simp]:
  "take_fault s = (e, t) \<Longrightarrow> pg_jobs t = pg_jobs s \<and> pg_next_id t = pg_next_id s \<and> pg_now t = pg_now s \<and>
     pg_tie t = pg_tie s"
  by (auto simp: take_fault_def split: list.splits)

interpretation pg: job_backend "pg_Enqueue I" pg_jobs "new_row I" for I :: "'j job_iface"
proof
  fix j :: 'j and o' s t
  assume "pg_Enqueue I j o' s = (None, t)"
  then show "pg_jobs t = pg_jobs s @ [new_row I j o' s]"
    by (auto simp: pg_Enqueue_def new_row_def split: sum.splits prod.splits option.splits dest!: take_fault_frame)
next
  fix j :: 'j and o' s err t
  assume "pg_Enqueue I j o' s = (Some err, t)"
  then show "pg_jobs t = pg_jobs s"
    by (auto simp: pg_Enqueue_def split: sum.splits prod.splits option.splits dest!: take_fault_frame)
qed

section \<open>Histories\<close>

text \<open>\<open>OpEnv\<close> is the environment: the clock, the order of ties, the faults to come.\<close>

datatype 'j pg_op =
    OpEnqueue 'j jobOptions
  | OpFetch "int set" "string list" string
  | OpComplete int
  | OpFail int "string option"
  | OpDead int "string option"
  | OpRetryDead int
  | OpStats
  | OpCleanup go_time
  | OpEnv go_time nat "string option list"

fun pg_exec :: "'j job_iface \<Rightarrow> 'j pg_op \<Rightarrow> pg \<Rightarrow> pg" where
  "pg_exec I (OpEnqueue j opts) s = snd (pg_Enqueue I j opts s)"
| "pg_exec I (OpFetch locked queues w) s = snd (pg_Fetch locked queues w s)"
| "pg_exec I (OpComplete i) s = snd (pg_Complete i s)"
| "pg_exec I (OpFail i e) s = snd (pg_Fail i e s)"
| "pg_exec I (OpDead i e) s = snd (pg_Dead i e s)"
| "pg_exec I (OpRetryDead i) s = snd (pg_RetryDead i s)"
| "pg_exec I OpStats s = snd (pg_Stats s)"
| "pg_exec I (OpCleanup t) s = snd (pg_Cleanup t s)"
| "pg_exec I (OpEnv now tie faults) s = s\<lparr>pg_now := now, pg_tie := tie, pg_faults := faults\<rparr>"

fun pg_run :: "'j job_iface \<Rightarrow> 'j pg_op list \<Rightarrow> pg \<Rightarrow> pg" where
  "pg_run I [] s = s"
| "pg_run I (op # ops) s = pg_run I ops (pg_exec I op s)"

definition job_of :: "int \<Rightarrow> pg \<Rightarrow> job_row option" where
  "job_of i s = find (\<lambda>r. jr_id r = i) (pg_jobs s)"

text \<open>The invariant of the table.\<close>

definition row_ok :: "int \<Rightarrow> job_row \<Rightarrow> bool" where
  "row_ok next_id r \<longleftrightarrow>
     0 < jr_id r \<and> jr_id r < next_id \<and> jr_max_attempts r = maxAttempts \<and>
     0 \<le> jr_attempts r \<and> jr_attempts r \<le> jr_max_attempts r \<and>
     jr_status r \<in> {''pending'', ''running'', ''completed'', ''dead''} \<and>
     (jr_status r = ''pending'' \<longrightarrow> jr_attempts r < jr_max_attempts r) \<and>
     (jr_status r = ''running'' \<longrightarrow> 0 < jr_attempts r) \<and>
     (jr_status r \<noteq> ''running'' \<longrightarrow> jr_locked_by r = [])"

definition jobs_ok :: "pg \<Rightarrow> bool" where
  "jobs_ok s \<longleftrightarrow> 0 < pg_next_id s \<and> distinct (map jr_id (pg_jobs s)) \<and> (\<forall>r \<in> set (pg_jobs s). row_ok (pg_next_id s) r)"

lemma ids_update_rows: "(\<And>r. jr_id (f r) = jr_id r) \<Longrightarrow> map jr_id (update_rows P f rows) = map jr_id rows"
  by (simp add: update_rows_def)

lemma jobs_ok_update:
  assumes "jobs_ok s" "\<And>r. jr_id (f r) = jr_id r"
    and "\<And>r. r \<in> set (pg_jobs s) \<Longrightarrow> P r \<Longrightarrow> row_ok (pg_next_id s) r \<Longrightarrow> row_ok (pg_next_id s) (f r)"
    and "pg_jobs t = update_rows P f (pg_jobs s)" "pg_next_id t = pg_next_id s"
  shows "jobs_ok t"
proof -
  have "map jr_id (pg_jobs t) = map jr_id (pg_jobs s)"
    unfolding assms(4) by (rule ids_update_rows) (rule assms(2))
  moreover have "\<forall>r \<in> set (pg_jobs t). row_ok (pg_next_id s) r"
    using assms(1,3) by (auto simp: assms(4) update_rows_def jobs_ok_def)
  ultimately show ?thesis using assms(1,5) by (simp add: jobs_ok_def)
qed

lemma find_update_rows:
  assumes "\<And>r. jr_id (f r) = jr_id r"
  shows "find (\<lambda>r. jr_id r = i) (update_rows P f rows) =
    map_option (\<lambda>r. if P r then f r else r) (find (\<lambda>r. jr_id r = i) rows)"
  by (induction rows) (auto simp: update_rows_def assms)

lemma job_of_mem: "jobs_ok s \<Longrightarrow> r \<in> set (pg_jobs s) \<Longrightarrow> job_of (jr_id r) s = Some r"
proof -
  have "distinct (map jr_id rows) \<Longrightarrow> r \<in> set rows \<Longrightarrow> find (\<lambda>x. jr_id x = jr_id r) rows = Some r" for rows
    by (induction rows) (auto simp: image_iff)
  then show "jobs_ok s \<Longrightarrow> r \<in> set (pg_jobs s) \<Longrightarrow> ?thesis" by (simp add: job_of_def jobs_ok_def)
qed

lemma job_of_SomeD: "job_of i s = Some r \<Longrightarrow> r \<in> set (pg_jobs s) \<and> jr_id r = i"
  unfolding job_of_def using find_SomeD by fastforce

lemma fetch_select_Some:
  assumes "fetch_select args n locked tie rows = Some r"
  shows "r \<in> set rows \<and> fetchable args n locked r \<and>
    (\<forall>x \<in> set rows. fetchable args n locked x \<longrightarrow> \<not> before_in_order x r)"
proof -
  let ?cs = "filter (fetchable args n locked) rows"
  let ?fs = "filter (\<lambda>r. \<not> list_ex (\<lambda>r'. before_in_order r' r) ?cs) ?cs"
  from assms have f: "?fs \<noteq> []" "r = ?fs ! (tie mod length ?fs)"
    by (auto simp: fetch_select_def Let_def split: if_splits)
  then have "r \<in> set ?fs" by (metis length_greater_0_conv mod_less_divisor nth_mem)
  then show ?thesis by (auto simp: list_ex_iff)
qed

text \<open>How each operation transforms one row.\<close>

lemma pg_update_cases:
  assumes "pg_update what missing i P f s = (res, t)"
  shows "pg_next_id t = pg_next_id s \<and>
    (pg_jobs t = pg_jobs s \<and> res \<noteq> None \<or>
     pg_jobs t = update_rows P f (pg_jobs s) \<and> (res = None \<longleftrightarrow> (\<exists>r \<in> set (pg_jobs s). P r)))"
proof -
  obtain e s1 where tf: "take_fault s = (e, s1)" by fastforce
  have a: "affected P rows = 0 \<longleftrightarrow> (\<forall>r \<in> set rows. \<not> P r)" for rows
    by (simp add: affected_def filter_empty_conv)
  show ?thesis
    using assms take_fault_frame [OF tf] tf by (cases e) (auto simp: pg_update_def Let_def a split: if_splits)
qed

lemma pg_Fetch_cases:
  assumes "pg_Fetch locked queues w s = (res, t)"
  shows "pg_jobs t = pg_jobs s \<and> pg_next_id t = pg_next_id s \<and> (res = Inr None \<or> (\<exists>err. res = Inl err)) \<or>
    (\<exists>r. fetch_select (fetch_args queues w) (length queues) locked (pg_tie s) (pg_jobs s) = Some r \<and>
       res = Inr (Some (persisted (run_row w (pg_now s) r))) \<and>
       pg_jobs t = update_rows (\<lambda>x. jr_id x = jr_id r) (run_row w (pg_now s)) (pg_jobs s) \<and>
       pg_next_id t = pg_next_id s)"
proof -
  obtain e s1 where tf: "take_fault s = (e, s1)" by fastforce
  have "arg (fetch_args queues w) (length queues + 1) = w" by (simp add: arg_def fetch_args_def)
  with assms take_fault_frame [OF tf] tf show ?thesis
    by (cases e) (auto simp: pg_Fetch_def Let_def split: if_splits option.splits)
qed

lemma pg_FetchE [consumes 1, case_names none some]:
  assumes "pg_Fetch locked queues w s = (res, t)"
  obtains "pg_jobs t = pg_jobs s" "pg_next_id t = pg_next_id s" "res = Inr None \<or> (\<exists>err. res = Inl err)"
    | r where "r \<in> set (pg_jobs s)" "jr_status r = ''pending''"
        "res = Inr (Some (persisted (run_row w (pg_now s) r)))"
        "pg_jobs t = update_rows (\<lambda>x. jr_id x = jr_id r) (run_row w (pg_now s)) (pg_jobs s)"
        "pg_next_id t = pg_next_id s"
  using pg_Fetch_cases [OF assms] fetch_select_Some unfolding fetchable_def by metis

lemma pg_Enqueue_cases:
  "pg_Enqueue I j opts s = (res, t) \<Longrightarrow>
     pg_jobs t = pg_jobs s \<and> pg_next_id t = pg_next_id s \<and> res \<noteq> None \<or>
     pg_jobs t = pg_jobs s @ [new_row I j opts s] \<and> pg_next_id t = pg_next_id s + 1 \<and> res = None"
  by (auto simp: pg_Enqueue_def new_row_def split: sum.splits prod.splits option.splits dest!: take_fault_frame)

lemma pg_Cleanup_cases:
  assumes "pg_Cleanup b s = (res, t)"
  shows "pg_next_id t = pg_next_id s \<and>
    (pg_jobs t = pg_jobs s \<or> pg_jobs t = filter (\<lambda>r. \<not> expired_row b r) (pg_jobs s))"
proof -
  obtain e s1 where tf: "take_fault s = (e, s1)" by fastforce
  show ?thesis
    using assms take_fault_frame [OF tf] tf
    by (cases e) (auto simp: pg_Cleanup_def Let_def split: prod.splits option.splits dest!: take_fault_frame)
qed

lemma pg_Stats_state: "pg_Stats s = (res, t) \<Longrightarrow> pg_jobs t = pg_jobs s \<and> pg_next_id t = pg_next_id s"
  by (auto simp: pg_Stats_def Let_def split: prod.splits option.splits dest!: take_fault_frame)

lemma row_ids [simp]:
  "jr_id (run_row w now r) = jr_id r" "jr_id (complete_row now r) = jr_id r" "jr_id (fail_row m now r) = jr_id r"
  "jr_id (dead_row m now r) = jr_id r" "jr_id (retry_row r) = jr_id r"
  by (simp_all add: run_row_def complete_row_def fail_row_def dead_row_def retry_row_def)

lemma row_ok_steps:
  assumes "row_ok n r"
  shows "row_ok n (complete_row now r)" "row_ok n (fail_row m now r)" "row_ok n (dead_row m now r)"
    "row_ok n (retry_row r)" "jr_status r = ''pending'' \<Longrightarrow> row_ok n (run_row w now r)"
  using assms by (auto simp: row_ok_def run_row_def complete_row_def fail_row_def dead_row_def retry_row_def maxAttempts_def)

lemma row_ok_mono: "row_ok n r \<Longrightarrow> n \<le> m \<Longrightarrow> row_ok m r"
  by (auto simp: row_ok_def)

lemma new_row_ok:
  "0 < pg_next_id s \<Longrightarrow> row_ok (pg_next_id s + 1) (new_row I j opts s)" "jr_id (new_row I j opts s) = pg_next_id s"
  by (simp_all add: row_ok_def new_row_def maxAttempts_def)

lemma jobs_ok_id: "jobs_ok s \<Longrightarrow> r \<in> set (pg_jobs s) \<Longrightarrow> 0 < jr_id r \<and> jr_id r < pg_next_id s"
  by (simp add: jobs_ok_def row_ok_def)

lemma pg_update_ok:
  assumes "jobs_ok s" "pg_update what missing i P f s = (res, t)" "\<And>r. jr_id (f r) = jr_id r"
    and "\<And>r. P r \<Longrightarrow> row_ok (pg_next_id s) r \<Longrightarrow> row_ok (pg_next_id s) (f r)"
  shows "jobs_ok t"
  using pg_update_cases [OF assms(2)] jobs_ok_update [OF assms(1,3,4), of P t] assms(1)
  by (auto simp: jobs_ok_def)

lemma pg_exec_ok:
  assumes "jobs_ok s" shows "jobs_ok (pg_exec I op s)"
proof (cases op)
  case (OpEnqueue j opts)
  obtain res t where e: "pg_Enqueue I j opts s = (res, t)" by fastforce
  have "pg_next_id s \<notin> jr_id ` set (pg_jobs s)" using jobs_ok_id [OF assms] by fastforce
  moreover have "\<forall>r \<in> set (pg_jobs s). row_ok (pg_next_id s + 1) r"
    using assms row_ok_mono [of "pg_next_id s" _ "pg_next_id s + 1"] by (simp add: jobs_ok_def)
  ultimately show ?thesis
    using pg_Enqueue_cases [OF e] assms OpEnqueue e by (auto simp: jobs_ok_def new_row_ok)
next
  case (OpFetch locked queues w)
  obtain res t where e: "pg_Fetch locked queues w s = (res, t)" by fastforce
  from e show ?thesis
  proof (cases rule: pg_FetchE)
    case none
    with OpFetch e assms show ?thesis by (simp add: jobs_ok_def)
  next
    case r: (some r)
    have "jobs_ok t"
    proof (rule jobs_ok_update [OF assms _ _ r(4,5)])
      fix x assume "x \<in> set (pg_jobs s)" "jr_id x = jr_id r" "row_ok (pg_next_id s) x"
      moreover from this r(1) job_of_mem [OF assms] have "x = r" by (metis option.inject)
      ultimately show "row_ok (pg_next_id s) (run_row w (pg_now s) x)" using r(2) row_ok_steps(5) by simp
    qed simp
    with OpFetch e show ?thesis by simp
  qed
next
  case (OpCleanup b)
  obtain res t where e: "pg_Cleanup b s = (res, t)" by fastforce
  from pg_Cleanup_cases [OF e] assms OpCleanup e show ?thesis by (auto simp: jobs_ok_def distinct_map_filter)
next
  case OpStats
  obtain res t where e: "pg_Stats s = (res, t)" by fastforce
  from pg_Stats_state [OF e] assms OpStats e show ?thesis by (simp add: jobs_ok_def)
next
  case (OpEnv now tie faults)
  with assms show ?thesis by (simp add: jobs_ok_def)
next
  case (OpComplete i)
  obtain res t where e: "pg_Complete i s = (res, t)" by fastforce
  from pg_update_ok [OF assms e [unfolded pg_Complete_def]] row_ok_steps(1) OpComplete e show ?thesis by simp
next
  case (OpFail i m)
  obtain res t where e: "pg_Fail i m s = (res, t)" by fastforce
  from pg_update_ok [OF assms e [unfolded pg_Fail_def]] row_ok_steps(2) OpFail e show ?thesis by simp
next
  case (OpDead i m)
  obtain res t where e: "pg_Dead i m s = (res, t)" by fastforce
  from pg_update_ok [OF assms e [unfolded pg_Dead_def]] row_ok_steps(3) OpDead e show ?thesis by simp
next
  case (OpRetryDead i)
  obtain res t where e: "pg_RetryDead i s = (res, t)" by fastforce
  from pg_update_ok [OF assms e [unfolded pg_RetryDead_def]] row_ok_steps(4) OpRetryDead e show ?thesis by simp
qed

lemma pg_empty_ok: "jobs_ok pg_empty"
  by (simp add: jobs_ok_def pg_empty_def)

lemma pg_run_ok: "jobs_ok s \<Longrightarrow> jobs_ok (pg_run I ops s)"
  by (induction ops arbitrary: s) (simp_all add: pg_exec_ok)

section \<open>Properties\<close>

subsection \<open>Retries\<close>

definition fetched :: "int \<Rightarrow> 'j pg_op \<Rightarrow> pg \<Rightarrow> bool" where
  "fetched i op s =
     (case op of
        OpFetch locked queues w \<Rightarrow>
          (case fst (pg_Fetch locked queues w s) of Inr (Some pj) \<Rightarrow> pj_ID pj = i | _ \<Rightarrow> False)
      | _ \<Rightarrow> False)"

definition revived :: "int \<Rightarrow> 'j pg_op \<Rightarrow> pg \<Rightarrow> bool" where
  "revived i op s = (case op of OpRetryDead k \<Rightarrow> k = i \<and> fst (pg_RetryDead k s) = None | _ \<Rightarrow> False)"

text \<open>How often an event happens to job \<open>i\<close> along a history.\<close>

fun events :: "(int \<Rightarrow> 'j pg_op \<Rightarrow> pg \<Rightarrow> bool) \<Rightarrow> int \<Rightarrow> 'j job_iface \<Rightarrow> 'j pg_op list \<Rightarrow> pg \<Rightarrow> nat" where
  "events P i I [] s = 0"
| "events P i I (op # ops) s = (if P i op s then 1 else 0) + events P i I ops (pg_exec I op s)"

text \<open>The fetches job \<open>i\<close> has left before a \<open>RetryDead\<close>.\<close>

definition budget :: "int \<Rightarrow> pg \<Rightarrow> nat" where
  "budget i s =
     (case job_of i s of
        Some r \<Rightarrow> nat (maxAttempts - jr_attempts r)
      | None \<Rightarrow> (if i < pg_next_id s then 0 else nat maxAttempts))"

lemma job_of_update:
  assumes "\<And>r. jr_id (f r) = jr_id r" "pg_jobs t = update_rows P f (pg_jobs s)"
  shows "job_of i t = map_option (\<lambda>r. if P r then f r else r) (job_of i s)"
  unfolding job_of_def assms(2) by (rule find_update_rows) (rule assms(1))

lemma job_of_same: "pg_jobs t = pg_jobs s \<Longrightarrow> job_of i t = job_of i s"
  by (simp add: job_of_def)

lemma budget_mono:
  assumes "pg_next_id t = pg_next_id s" "job_of i t = map_option f (job_of i s)"
    and "\<And>r. job_of i s = Some r \<Longrightarrow> jr_attempts r \<le> jr_attempts (f r)"
  shows "budget i t \<le> budget i s"
  using assms by (cases "job_of i s") (auto simp: budget_def)

lemma pg_update_budget:
  assumes "pg_update what missing k P f s = (res, t)" "\<And>r. jr_id (f r) = jr_id r" "\<And>r. jr_attempts (f r) = jr_attempts r"
  shows "budget i t \<le> budget i s"
proof -
  note u = pg_update_cases [OF assms(1)]
  from u consider "pg_jobs t = pg_jobs s" | "pg_jobs t = update_rows P f (pg_jobs s)" by blast
  then show ?thesis
  proof cases
    case 1
    with u show ?thesis by (simp add: budget_def job_of_def)
  next
    case 2
    show ?thesis
      by (rule budget_mono [OF conjunct1 [OF u] job_of_update [OF assms(2) 2]]) (simp add: assms(3))
  qed
qed

lemma job_of_ok: "jobs_ok s \<Longrightarrow> job_of i s = Some r \<Longrightarrow> row_ok (pg_next_id s) r \<and> i < pg_next_id s"
  using job_of_SomeD [of i s r] jobs_ok_id [of s r] unfolding jobs_ok_def by blast

lemma budget_le_3: "jobs_ok s \<Longrightarrow> budget i s \<le> 3"
proof (cases "job_of i s")
  case (Some r)
  assume "jobs_ok s"
  from job_of_ok [OF this Some] have "0 \<le> jr_attempts r" by (simp add: row_ok_def)
  with Some show ?thesis by (simp add: budget_def maxAttempts_def nat_le_iff)
qed (simp add: budget_def maxAttempts_def)

lemma job_of_Enqueue:
  assumes "jobs_ok s" "pg_Enqueue I j opts s = (res, t)"
  shows "job_of i t = (if res = None \<and> i = pg_next_id s then Some (new_row I j opts s) else job_of i s)"
proof -
  have "i = pg_next_id s \<Longrightarrow> job_of i s = None"
    using job_of_ok [OF assms(1), of i] by (cases "job_of i s") auto
  with pg_Enqueue_cases [OF assms(2)] show ?thesis
    by (auto simp: job_of_def find_append new_row_ok split: option.split)
qed

lemma job_of_Cleanup:
  assumes "jobs_ok s" "pg_Cleanup b s = (res, t)"
  shows "job_of i t = job_of i s \<or> job_of i t = None \<and> (\<exists>r. job_of i s = Some r \<and> expired_row b r)"
proof -
  have f: "distinct (map jr_id rows) \<Longrightarrow>
      find (\<lambda>r. jr_id r = i) (filter (\<lambda>r. \<not> P r) rows) =
      (case find (\<lambda>r. jr_id r = i) rows of None \<Rightarrow> None | Some r \<Rightarrow> if P r then None else Some r)" for P rows
  proof (induction rows)
    case (Cons r rows)
    have "jr_id r = i \<Longrightarrow> find (\<lambda>r. jr_id r = i) rows = None"
      using Cons.prems by (auto simp: find_None_iff image_iff)
    with Cons show ?case by auto
  qed simp
  from pg_Cleanup_cases [OF assms(2)] show ?thesis
    using f [of "pg_jobs s" "expired_row b"] assms(1) by (auto simp: job_of_def jobs_ok_def split: option.splits if_splits)
qed

lemma budget_Fetch:
  assumes ok: "jobs_ok s" and op: "op = OpFetch locked queues w" and e: "pg_Fetch locked queues w s = (res, t)"
  shows "(if fetched i op s then 1 else 0) + budget i t \<le> budget i s"
  using e
proof (cases rule: pg_FetchE)
  case none
  with op e show ?thesis by (auto simp: fetched_def budget_def job_of_def)
next
  case r: (some r)
  have f: "fetched i op s \<longleftrightarrow> jr_id r = i" using op e r(3) by (simp add: fetched_def persisted_def)
  note j = job_of_update [OF _ r(4), of i, simplified]
  show ?thesis
  proof (cases "jr_id r = i")
    case True
    from ok r(1) have "row_ok (pg_next_id s) r" by (simp add: jobs_ok_def)
    with r(2) have "jr_attempts r < maxAttempts" by (simp add: row_ok_def)
    with True f j job_of_mem [OF ok r(1)] show ?thesis by (simp add: budget_def run_row_def)
  next
    case False
    have "job_of i t = job_of i s"
    proof (cases "job_of i s")
      case (Some x)
      with job_of_SomeD False have "jr_id x \<noteq> jr_id r" by metis
      with Some j show ?thesis by simp
    qed (use j in simp)
    with r(5) False f show ?thesis by (simp add: budget_def)
  qed
qed

lemma budget_Enqueue:
  assumes ok: "jobs_ok s" and e: "pg_Enqueue I j opts s = (res, t)"
  shows "budget i t \<le> budget i s"
proof (cases "res = None \<and> i = pg_next_id s")
  case True
  with job_of_ok [OF ok, of i] have "job_of i s = None" by (cases "job_of i s") auto
  with True job_of_Enqueue [OF ok e, of i] show ?thesis by (simp add: budget_def new_row_def)
next
  case False
  with job_of_Enqueue [OF ok e, of i] have "job_of i t = job_of i s" by simp
  moreover from pg_Enqueue_cases [OF e] have "pg_next_id s \<le> pg_next_id t" by auto
  ultimately show ?thesis by (simp add: budget_def split: option.split)
qed

lemma budget_Cleanup:
  assumes ok: "jobs_ok s" and e: "pg_Cleanup b s = (res, t)"
  shows "budget i t \<le> budget i s"
proof (cases "job_of i t = job_of i s")
  case True
  with pg_Cleanup_cases [OF e] show ?thesis by (simp add: budget_def)
next
  case False
  with job_of_Cleanup [OF ok e, of i] obtain r where "job_of i t = None" "job_of i s = Some r" by auto
  with pg_Cleanup_cases [OF e] job_of_ok [OF ok, of i r] show ?thesis by (simp add: budget_def)
qed

text \<open>\<open>RetryDead\<close> of another job, or one that fails, leaves the budget alone.\<close>

lemma budget_RetryDead:
  assumes e: "pg_RetryDead k s = (res, t)" and other: "\<not> (k = i \<and> res = None)"
  shows "budget i t = budget i s"
proof -
  note u = pg_update_cases [OF e [unfolded pg_RetryDead_def]]
  have "job_of i t = job_of i s"
    using u
  proof (elim conjE disjE)
    assume t: "pg_jobs t = update_rows (\<lambda>r. jr_id r = k \<and> jr_status r = ''dead'') retry_row (pg_jobs s)"
      and n: "(res = None) = (\<exists>r \<in> set (pg_jobs s). jr_id r = k \<and> jr_status r = ''dead'')"
    note j = job_of_update [OF _ t, of i, simplified]
    show ?thesis
    proof (cases "job_of i s")
      case (Some x)
      with job_of_SomeD have "x \<in> set (pg_jobs s)" "jr_id x = i" by metis+
      with n other have "\<not> (jr_id x = k \<and> jr_status x = ''dead'')" by blast
      with Some j show ?thesis by simp
    qed (use j in simp)
  qed (rule job_of_same)
  with u show ?thesis by (simp add: budget_def)
qed

lemma budget_finish:
  "pg_Complete k s = (res, t) \<Longrightarrow> budget i t \<le> budget i s"
  "pg_Fail k m s = (res, t) \<Longrightarrow> budget i t \<le> budget i s"
  "pg_Dead k m s = (res, t) \<Longrightarrow> budget i t \<le> budget i s"
  by (rule pg_update_budget, simp only: pg_Complete_def pg_Fail_def pg_Dead_def,
      simp_all add: complete_row_def fail_row_def dead_row_def)+

text \<open>One operation spends a fetch, or a revival restores the budget.\<close>

lemma budget_step:
  assumes ok: "jobs_ok s"
  shows "(if fetched i op s then 1 else 0) + budget i (pg_exec I op s) \<le>
    budget i s + 3 * (if revived i op s then 1 else 0)"
proof (cases op)
  case (OpFetch locked queues w)
  with budget_Fetch [OF ok OpFetch, of "fst (pg_Fetch locked queues w s)" "snd (pg_Fetch locked queues w s)" i]
  show ?thesis by simp
next
  case (OpEnqueue j opts)
  with budget_Enqueue [OF ok, of I j opts "fst (pg_Enqueue I j opts s)" "snd (pg_Enqueue I j opts s)" i]
  show ?thesis by (simp add: fetched_def)
next
  case (OpCleanup b)
  with budget_Cleanup [OF ok, of b "fst (pg_Cleanup b s)" "snd (pg_Cleanup b s)" i] show ?thesis by (simp add: fetched_def)
next
  case OpStats
  with pg_Stats_state [of s "fst (pg_Stats s)" "snd (pg_Stats s)"] show ?thesis by (simp add: fetched_def budget_def job_of_def)
next
  case (OpEnv now tie faults)
  then show ?thesis by (simp add: fetched_def budget_def job_of_def)
next
  case (OpRetryDead k)
  obtain res t where e: "pg_RetryDead k s = (res, t)" by fastforce
  show ?thesis
  proof (cases "k = i \<and> res = None")
    case True
    from budget_le_3 [OF pg_exec_ok [OF ok], of i I op] True OpRetryDead e show ?thesis
      by (simp add: fetched_def revived_def)
  next
    case False
    from budget_RetryDead [OF e False] OpRetryDead e False show ?thesis by (simp add: fetched_def revived_def)
  qed
next
  case (OpComplete k)
  with budget_finish(1) [of k s "fst (pg_Complete k s)" "snd (pg_Complete k s)" i] show ?thesis by (simp add: fetched_def)
next
  case (OpFail k m)
  with budget_finish(2) [of k m s "fst (pg_Fail k m s)" "snd (pg_Fail k m s)" i] show ?thesis by (simp add: fetched_def)
next
  case (OpDead k m)
  with budget_finish(3) [of k m s "fst (pg_Dead k m s)" "snd (pg_Dead k m s)" i] show ?thesis by (simp add: fetched_def)
qed

lemma budget_run:
  "jobs_ok s \<Longrightarrow> events fetched i I ops s + budget i (pg_run I ops s) \<le> budget i s + 3 * events revived i I ops s"
proof (induction ops arbitrary: s)
  case (Cons op ops)
  from Cons.IH [OF pg_exec_ok [OF Cons.prems], of I op] budget_step [OF Cons.prems, of i op I] show ?case by simp
qed simp

text \<open>C19. Retries are bounded: along every history of the backend, with failing statements and with
  workers that report failures as they like, a job is handed to a worker at most three times,
  and three times more for every time it is revived from the dead.\<close>

theorem Job_retries_bounded:
  "events fetched i I ops pg_empty \<le> 3 * (1 + events revived i I ops pg_empty)"
  using budget_run [OF pg_empty_ok, of i I ops] budget_le_3 [OF pg_empty_ok, of i] by simp

subsection \<open>Fetching\<close>

lemma fetchable_args:
  "fetchable (fetch_args queues w) (length queues) locked r \<longleftrightarrow>
     jr_status r = ''pending'' \<and> jr_queue r \<in> set queues \<and> jr_id r \<notin> locked"
proof -
  have "(\<exists>k \<in> {1..length queues}. jr_queue r = arg (fetch_args queues w) k) \<longleftrightarrow> jr_queue r \<in> set queues"
  proof
    assume "jr_queue r \<in> set queues"
    then obtain i where "i < length queues" "queues ! i = jr_queue r" by (auto simp: in_set_conv_nth)
    then show "\<exists>k \<in> {1..length queues}. jr_queue r = arg (fetch_args queues w) k"
      by (intro bexI [of _ "Suc i"]) (auto simp: arg_def fetch_args_def nth_append)
  qed (auto simp: arg_def fetch_args_def nth_append)
  then show ?thesis by (simp add: fetchable_def)
qed

text \<open>A row that was just fetched is no candidate any more, as if it were locked.\<close>

lemma candidates_after_fetch:
  "filter (fetchable args n {}) (update_rows (\<lambda>x. jr_id x = i) (run_row w now) rows) =
     filter (fetchable args n {i}) rows"
  by (induction rows) (auto simp: update_rows_def fetchable_def run_row_def)

lemma fetch_select_cong:
  "filter (fetchable args n L) rows = filter (fetchable args n L') rows' \<Longrightarrow>
     fetch_select args n L tie rows = fetch_select args n L' tie rows'"
  by (simp only: fetch_select_def)

lemma pg_Fetch_result:
  assumes "pg_faults s = []" "queues \<noteq> []"
  shows "fst (pg_Fetch locked queues w s) =
    Inr (map_option (\<lambda>r. persisted (run_row w (pg_now s) r))
      (fetch_select (fetch_args queues w) (length queues) locked (pg_tie s) (pg_jobs s)))"
  using assms
  by (simp add: pg_Fetch_def take_fault_def Let_def arg_def fetch_args_def split: option.split)

lemma fetch_select_None:
  "fetch_select args n locked tie rows = None \<Longrightarrow> r \<in> set rows \<Longrightarrow> \<not> fetchable args n locked r"
proof
  assume none: "fetch_select args n locked tie rows = None" and r: "r \<in> set rows" "fetchable args n locked r"
  let ?cs = "filter (fetchable args n locked) rows"
  define p where "p = Max (jr_priority ` set ?cs)"
  have "p \<in> jr_priority ` set ?cs" unfolding p_def using r by (intro Max_in) auto
  then have p: "\<forall>x \<in> set ?cs. jr_priority x \<le> p" "\<exists>x \<in> set ?cs. jr_priority x = p"
    by (simp add: p_def, blast)
  let ?ps = "{x \<in> set ?cs. jr_priority x = p}"
  define c where "c = Min (jr_created_at ` ?ps)"
  have "c \<in> jr_created_at ` ?ps" unfolding c_def using p(2) by (intro Min_in) auto
  then have c: "\<forall>x \<in> ?ps. c \<le> jr_created_at x" "\<exists>x \<in> ?ps. jr_created_at x = c"
    by (simp add: c_def, blast)
  from c(2) obtain b where b: "b \<in> set ?cs" "jr_priority b = p" "jr_created_at b = c" by blast
  then have "\<not> list_ex (\<lambda>r'. before_in_order r' b) ?cs"
    using p(1) c(1) unfolding list_ex_iff before_in_order_def by (metis (mono_tags, lifting) leD mem_Collect_eq)
  with b(1) none show False by (auto simp: fetch_select_def Let_def filter_empty_conv split: if_splits)
qed

text \<open>The state a successful fetch leaves: the row it hands out runs, the others are as before.\<close>

definition handed_out :: "string \<Rightarrow> job_row \<Rightarrow> pg \<Rightarrow> pg" where
  "handed_out w r s = s\<lparr>pg_jobs := update_rows (\<lambda>x. jr_id x = jr_id r) (run_row w (pg_now s)) (pg_jobs s)\<rparr>"

lemma job_of_handed_out:
  assumes "jobs_ok s" "r \<in> set (pg_jobs s)"
  shows "job_of k (handed_out w r s) = (if k = jr_id r then Some (run_row w (pg_now s) r) else job_of k s)"
proof -
  have "job_of k (handed_out w r s) = map_option (\<lambda>x. if jr_id x = jr_id r then run_row w (pg_now s) x else x) (job_of k s)"
    by (rule job_of_update) (simp_all add: handed_out_def)
  with job_of_mem [OF assms] show ?thesis
    by (cases "job_of k s") (auto dest: job_of_SomeD)
qed

lemma fetch_beside:
  assumes "pg_faults s = []" "queues \<noteq> []"
  shows "fst (pg_Fetch {jr_id r} queues w' s) = fst (pg_Fetch {} queues w' (handed_out w r s))"
proof -
  have "fetch_select (fetch_args queues w') (length queues) {jr_id r} (pg_tie s) (pg_jobs s) =
      fetch_select (fetch_args queues w') (length queues) {} (pg_tie (handed_out w r s)) (pg_jobs (handed_out w r s))"
    using fetch_select_cong [OF candidates_after_fetch [symmetric]] by (simp add: handed_out_def)
  with assms show ?thesis by (simp add: pg_Fetch_result handed_out_def)
qed


definition sample_ops :: "string pg_op list" where
  "sample_ops =
     [OpEnqueue ''mail'' defaultJobOptions, OpEnv 5 0 [],
      OpEnqueue ''report'' (WithPriority 7 defaultJobOptions), OpEnqueue ''other'' (WithQueue ''slow'' defaultJobOptions)]"

definition name_iface :: "string job_iface" where
  "name_iface = \<lparr>ji_JobName = (\<lambda>j. j), ji_Marshal = (\<lambda>j. Inr j)\<rparr>"

lemma sample_faults: "pg_faults (pg_run name_iface sample_ops pg_empty) = []"
  by code_simp


subsection \<open>Statistics\<close>

lemma sum_count_list:
  "(\<Sum>k \<in> set xs. if P k then int (count_list xs k) else 0) = int (length (filter P xs))"
proof -
  have "length (filter P xs) = (\<Sum>k \<leftarrow> xs. if P k then 1 else 0)" by (induction xs) simp_all
  also have "\<dots> = (\<Sum>k \<in> set xs. count_list xs k * (if P k then 1 else 0))" by (rule sum_list_map_eq_sum_count)
  also have "\<dots> = (\<Sum>k \<in> set xs. if P k then count_list xs k else 0)" by (rule sum.cong) simp_all
  finally have "int (length (filter P xs)) = (\<Sum>k \<in> set xs. int (if P k then count_list xs k else 0))" by simp
  also have "\<dots> = (\<Sum>k \<in> set xs. if P k then int (count_list xs k) else 0)" by (rule sum.cong) simp_all
  finally show ?thesis by simp
qed

lemma group_sum:
  "(\<Sum>(q, st, n) \<leftarrow> group_counts rows. if P (q, st) then n else 0) =
     affected (\<lambda>r. P (jr_queue r, jr_status r)) rows"
proof -
  let ?k = "\<lambda>r. (jr_queue r, jr_status r)"
  have cnt: "length (filter (\<lambda>r. jr_queue r = q \<and> jr_status r = st) rows) = count_list (map ?k rows) (q, st)" for q st
    by (induction rows) auto
  have "(\<Sum>(q, st, n) \<leftarrow> group_counts rows. if P (q, st) then n else 0) =
      (\<Sum>k \<leftarrow> remdups (map ?k rows). if P k then int (count_list (map ?k rows) k) else 0)"
    by (simp add: group_counts_def cnt o_def case_prod_beta)
  also have "\<dots> = int (length (filter P (map ?k rows)))"
    using sum_count_list [of P "map ?k rows"] by (simp add: sum_list_distinct_conv_sum_set)
  also have "\<dots> = affected (\<lambda>r. P (?k r)) rows"
    by (simp add: affected_def filter_map o_def)
  finally show ?thesis .
qed

lemma stats_loop_totals:
  "qs_Pending (stats_loop st gs) = qs_Pending st + (\<Sum>(q, s, n) \<leftarrow> gs. if s = ''pending'' then n else 0)"
  "qs_Running (stats_loop st gs) = qs_Running st + (\<Sum>(q, s, n) \<leftarrow> gs. if s = ''running'' then n else 0)"
  "qs_Completed (stats_loop st gs) = qs_Completed st + (\<Sum>(q, s, n) \<leftarrow> gs. if s = ''completed'' then n else 0)"
  "qs_Dead (stats_loop st gs) = qs_Dead st + (\<Sum>(q, s, n) \<leftarrow> gs. if s = ''dead'' then n else 0)"
  by (induction gs arbitrary: st) (auto simp: stats_add_def Let_def split: prod.splits)

lemma stats_loop_queue:
  "qs_Queues (stats_loop st gs) q =
     (if q \<in> fst ` set gs \<or> qs_Queues st q \<noteq> None
      then (let d = (case qs_Queues st q of None \<Rightarrow> \<lparr>qd_Name = [], qd_Pending = 0, qd_Running = 0\<rparr> | Some d \<Rightarrow> d)
            in Some \<lparr>qd_Name = (if q \<in> fst ` set gs then q else qd_Name d),
                 qd_Pending = qd_Pending d + (\<Sum>(q', s, n) \<leftarrow> gs. if q' = q \<and> s = ''pending'' then n else 0),
                 qd_Running = qd_Running d + (\<Sum>(q', s, n) \<leftarrow> gs. if q' = q \<and> s = ''running'' then n else 0)\<rparr>)
      else None)"
proof (induction gs arbitrary: st)
  case (Cons g gs)
  obtain q' s n where g: "g = (q', s, n)" by (cases g)
  show ?case
    unfolding stats_loop.simps Cons.IH
    by (auto simp: g stats_add_def Let_def image_iff split: option.splits)
qed (auto simp: Let_def split: option.split)

text \<open>C26. The statistics are the counts of the table: the loop over the groups, in whatever order the
  server returns them, ends with the number of jobs of each status, and for every queue that has a
  job with the numbers of its pending and running jobs.\<close>

theorem Stats_counts:
  assumes "pg_Stats s = (Inr st, t)"
  shows "pg_jobs t = pg_jobs s \<and>
    qs_Pending st = affected (\<lambda>r. jr_status r = ''pending'') (pg_jobs s) \<and>
    qs_Running st = affected (\<lambda>r. jr_status r = ''running'') (pg_jobs s) \<and>
    qs_Completed st = affected (\<lambda>r. jr_status r = ''completed'') (pg_jobs s) \<and>
    qs_Dead st = affected (\<lambda>r. jr_status r = ''dead'') (pg_jobs s) \<and>
    qs_Queues st q =
      (if \<exists>r \<in> set (pg_jobs s). jr_queue r = q
       then Some \<lparr>qd_Name = q,
              qd_Pending = affected (\<lambda>r. jr_queue r = q \<and> jr_status r = ''pending'') (pg_jobs s),
              qd_Running = affected (\<lambda>r. jr_queue r = q \<and> jr_status r = ''running'') (pg_jobs s)\<rparr>
       else None)"
proof -
  have st: "st = stats_loop empty_stats (group_counts (pg_jobs s))"
    using assms
    by (auto simp: pg_Stats_def Let_def split: prod.splits option.splits dest!: take_fault_frame)
  have keys: "q \<in> fst ` set (group_counts rows) \<longleftrightarrow> (\<exists>r \<in> set rows. jr_queue r = q)" for rows
    by (force simp: group_counts_def image_iff)
  note g = group_sum [of "\<lambda>(q', s'). s' = x" "pg_jobs s" for x, simplified]
  note gq = group_sum [of "\<lambda>(q', s'). q' = q \<and> s' = x" "pg_jobs s" for x, simplified]
  show ?thesis
    using pg_Stats_state [OF assms]
    by (simp add: st stats_loop_totals stats_loop_queue empty_stats_def g gq keys Let_def)
qed

theorem Stats_counts_witness:
  "\<exists>st. fst (pg_Stats (pg_run name_iface sample_ops pg_empty)) = Inr st \<and> qs_Pending st = 3"
proof -
  let ?s = "pg_run name_iface sample_ops pg_empty"
  obtain st t where p: "pg_Stats ?s = (Inr st, t)"
    using sample_faults by (simp add: pg_Stats_def take_fault_def Let_def)
  have "affected (\<lambda>r. jr_status r = ''pending'') (pg_jobs ?s) = 3" by code_simp
  with Stats_counts [OF p] p show ?thesis by simp
qed

end
