(* ===== verification/Example_Main.thy ===== *)
theory Example_Main
  imports Example Process PgBackend Db_Tx
begin

text \<open>
  The function \<open>main\<close> of \<open>cmd/example/main.go\<close> up to the moment it serves: it binds the configuration, makes
  the session store, the renderer, the application with its middleware, routes and modules, opens the
  database when one is configured, and makes the worker pool and the scheduler.  From there the process
  goes on as in theory \<open>Process\<close>, and every request is a call of the application's handler.
\<close>

section \<open>Parameters\<close>

text \<open>The libraries \<open>main\<close> reaches, and the texts it gets from the runtime.\<close>

record ('blk, 't, 'l) example_libs =
  xl_cipher :: "byte list \<Rightarrow> 'blk option"
  xl_gcm :: "'blk \<Rightarrow> aead option"
  xl_json :: json_codec
  xl_decode :: "string \<Rightarrow> json option"
  xl_jwt :: jwt_lib
  xl_bcrypt :: bcrypt_lib
  xl_rate :: "'l rate_lib"
  xl_tmpl :: "('t, page_data) tmpl_lib"
  xl_fs :: render_fs
  xl_sql :: sql_lib
  xl_locked :: "int set"
  xl_stack :: string
  xl_version :: string
  xl_duration :: "duration \<Rightarrow> string"
  xl_time :: "go_time \<Rightarrow> string"

section \<open>The background part\<close>

datatype heartbeatJob = HeartbeatJob logger

fun heartbeat_logger :: "heartbeatJob \<Rightarrow> logger" where
  "heartbeat_logger (HeartbeatJob lg) = lg"

text \<open>Its only field is not exported, so \<open>json.Marshal\<close> writes an empty object.\<close>

definition heartbeat_iface :: "heartbeatJob job_iface" where
  "heartbeat_iface = \<lparr>ji_JobName = (\<lambda>j. ''heartbeat''), ji_Marshal = (\<lambda>j. Inr ''{}'')\<rparr>"

definition example_heartbeat :: "logger \<Rightarrow> heartbeatJob Definition" where
  "example_heartbeat lg =
     \<lparr>sd_Name = ''example-heartbeat'', sd_Cron = ''@every 30s'', sd_Job = HeartbeatJob lg, sd_Options = [],
      sd_Overlap = False, sd_Timezone = None\<rparr>"

type_synonym elector_state = "fault list \<times> leader_state"

text \<open>Step 8: the database when one is configured, the enqueuer and the elector; \<open>i\<close> numbers the instance.\<close>

definition setup_jobs ::
    "('blk, 't, 'l) example_libs \<Rightarrow> serverConfig \<Rightarrow> logger \<Rightarrow> nat \<Rightarrow>
     string + database option \<times> (heartbeatJob, pg) Enqueuer \<times> elector_state LeaderElector option"
where
  "setup_jobs L cfg lg i =
     (if sc_DatabaseURL cfg \<noteq> [] then
        (case fst (db_Open (xl_sql L) (DefaultConfig (sc_DatabaseURL cfg)) lg) of
           Inl err \<Rightarrow> Inl err
         | Inr d \<Rightarrow>
             Inr (Some d, NewEnqueuer lg [WithBackend (PgBackend heartbeat_iface (xl_locked L)), WithQueueSize 100],
               Some (pg_elector i)))
      else Inr (None, NewEnqueuer lg [WithQueueSize 100], None))"

definition jobs_log :: "serverConfig \<Rightarrow> logger \<Rightarrow> 'm world_scheme \<Rightarrow> 'm world_scheme" where
  "jobs_log cfg lg s =
     (if sc_DatabaseURL cfg \<noteq> [] then log_Info lg ''database connected'' [(''url'', sc_DatabaseURL cfg)] s
      else log_Info lg ''no DATABASE_URL set, using in-memory job queue'' [] s)"

definition setup_worker :: "logger \<Rightarrow> Worker" where
  "setup_worker lg = NewWorker \<lparr>wc_Concurrency = 4, wc_ShutdownTimeout = 10 * second\<rparr> lg"

definition setup_scheduler ::
    "(heartbeatJob, pg) Enqueuer \<Rightarrow> logger \<Rightarrow> elector_state LeaderElector option \<Rightarrow>
     (heartbeatJob, pg, elector_state) Scheduler"
where
  "setup_scheduler e lg leader =
     Scheduler.Register [example_heartbeat lg] (NewScheduler e lg leader [WithOnError])"

section \<open>The application\<close>

definition setup_store :: "('blk, 't, 'l) example_libs \<Rightarrow> serverConfig \<Rightarrow> cookie_error + cookie_store" where
  "setup_store L cfg = NewCookieStore (xl_cipher L) (xl_gcm L) (session_key (sc_SessionKey cfg))"

definition setup_renderer :: "serverConfig \<Rightarrow> logger \<Rightarrow> renderer" where
  "setup_renderer cfg lg =
     New_renderer \<lparr>rc_TemplateDir = ''templates'', rc_LayoutDir = ''layouts'', rc_ComponentDir = ''components'',
       rc_Reload = (sc_Env cfg = ''development'')\<rparr> lg"

definition setup_account ::
    "('blk, 't, 'l) example_libs \<Rightarrow> serverConfig \<Rightarrow> logger \<Rightarrow>
     ('l, 't, \<lparr>w_repo :: inMemoryRepo, w_greetings :: greeting list\<rparr>) account_handler"
where
  "setup_account L cfg lg =
     NewModule in_memory_repository (bcrypt_hasher (xl_bcrypt L) (NewBcryptHasher 0))
       (Some (NewTokenService (bytes_of (sc_JWTSecret cfg)) (24 * hour))) (setup_renderer cfg lg) lg
       (xl_tmpl L) (xl_fs L) (xl_jwt L) (xl_decode L)"

definition health_route :: "('blk, 't, 'l) example_libs \<Rightarrow> ('m world_scheme) Route" where
  "health_route L = \<lparr>rt_Pattern = ''GET /health'', rt_Handler = healthHandler (xl_time L)\<rparr>"

text \<open>
  Steps 6, 7 and 10 up to \<open>Mount\<close>; the router panics when the pattern of the health check is refused.
\<close>

definition setup_app ::
    "('blk, 't, 'l) example_libs \<Rightarrow> serverConfig \<Rightarrow> logger \<Rightarrow> cookie_store \<Rightarrow> (('l, 't) example_world) App option"
where
  "setup_app L cfg lg store =
     (let app = app_Use (example_middleware cfg (xl_json L) store lg (xl_stack L) (xl_duration L) (xl_rate L)) (New_app lg)
      in case Handle (health_route L) (app_router app) of
           None \<Rightarrow> None
         | Some r \<Rightarrow>
             Some (App.Register [account_module (setup_account L cfg lg), greeting_module (xl_decode L) lg]
               (app\<lparr>app_router := r\<rparr>)))"

text \<open>What the constructors leave in the world: the limiter, the repository and the first greeting.\<close>

definition setup_world :: "('l, 't) example_world \<Rightarrow> ('l, 't) example_world" where
  "setup_world s =
     s\<lparr>w_rate_limiter := rate_limit_init example_rate_limits, w_repo := newInMemoryRepo,
       w_greetings := initial_greetings\<rparr>"

section \<open>The start\<close>

datatype main_exit =
    ConfigPanic config_panic
  | SessionStoreFailed cookie_error
  | DatabaseFailed string
  | RoutePanic
  | StartFailed string

record ('l, 't) running =
  ru_config :: serverConfig
  ru_database :: "database option"
  ru_app :: "(('l, 't) example_world) App"
  ru_worker :: Worker
  ru_scheduler :: "(heartbeatJob, pg, elector_state) Scheduler"

text \<open>\<open>worker.Start (ctx)\<close> is the start of the process of theory \<open>Process\<close>.\<close>

definition main_start ::
    "('blk, 't, 'l) example_libs \<Rightarrow> (string \<rightharpoonup> string) \<Rightarrow> nat \<Rightarrow> ('l, 't) example_world \<Rightarrow>
     (main_exit + ('l, 't) running) \<times> ('l, 't) example_world"
where
  "main_start L env i s =
     (case load_config env of
        Inl p \<Rightarrow> (Inl (ConfigPanic p), s)
      | Inr cfg \<Rightarrow>
          (let lg = log_New (parseLogLevel (sc_LogLevel cfg));
               s1 = log_Info lg ''starting broth example''
                      [(''env'', sc_Env cfg), (''addr'', sc_Addr cfg), (''go_version'', xl_version L)] s
           in case setup_store L cfg of
                Inl err \<Rightarrow> (Inl (SessionStoreFailed err), s1)
              | Inr store \<Rightarrow>
                  (case setup_app L cfg lg store of
                     None \<Rightarrow> (Inl RoutePanic, s1)
                   | Some app \<Rightarrow>
                       (case setup_jobs L cfg lg i of
                          Inl err \<Rightarrow> (Inl (DatabaseFailed err), s1)
                        | Inr (d, e, leader) \<Rightarrow>
                            (case Mount app (setup_world (jobs_log cfg lg s1)) of
                               None \<Rightarrow> (Inl RoutePanic, jobs_log cfg lg s1)
                             | Some (app1, s2) \<Rightarrow>
                                 (case Start app1 s2 of
                                    (Some err, s3) \<Rightarrow> (Inl (StartFailed err), s3)
                                  | (None, s3) \<Rightarrow>
                                      (Inr \<lparr>ru_config = cfg, ru_database = d, ru_app = app1,
                                         ru_worker = setup_worker lg, ru_scheduler = setup_scheduler e lg leader\<rparr>,
                                       s3)))))))"

definition main_process :: "('l, 't) running \<Rightarrow> pg \<Rightarrow> elector_state \<Rightarrow> (heartbeatJob, pg, elector_state) process" where
  "main_process ru b l = process_init (ru_worker ru) b l"

section \<open>The routes\<close>

text \<open>Whether patterns conflict does not depend on their handlers.\<close>

fun add_patterns :: "string list \<Rightarrow> pattern list \<Rightarrow> pattern list option" where
  "add_patterns [] ps = Some ps"
| "add_patterns (s # ss) ps =
     (case parse_pattern s of
        None \<Rightarrow> None
      | Some p \<Rightarrow> (if list_ex (conflicts p) ps then None else add_patterns ss (ps @ [p])))"

lemma add_patterns_append:
  "add_patterns (xs @ ys) ps = (case add_patterns xs ps of None \<Rightarrow> None | Some qs \<Rightarrow> add_patterns ys qs)"
  by (induction xs ps rule: add_patterns.induct) (auto split: option.splits)

lemma mux_Handle_patterns:
  "map_option (map fst) (mux_Handle s h m) = add_patterns [s] (map fst m)"
  by (simp add: mux_Handle_def list_ex_iff split: option.split)

lemma Mount_routes_patterns:
  "map_option (\<lambda>r. map fst (ro_mux r)) (Mount_routes prefix routes r) =
     add_patterns (map (\<lambda>route. prefixPattern prefix (rt_Pattern route)) routes) (map fst (ro_mux r))"
proof (induction prefix routes r rule: Mount_routes.induct)
  case (2 prefix route routes r)
  let ?s = "prefixPattern prefix (rt_Pattern route)"
  show ?case
  proof (cases "mux_Handle ?s (rt_Handler route) (ro_mux r)")
    case None
    with mux_Handle_patterns [of ?s "rt_Handler route" "ro_mux r"] show ?thesis
      by (auto split: option.splits if_splits)
  next
    case (Some m)
    with mux_Handle_patterns [of ?s "rt_Handler route" "ro_mux r"] 2 show ?thesis
      by (auto split: option.splits if_splits)
  qed
qed simp

definition module_patterns :: "'w app_module \<Rightarrow> string list" where
  "module_patterns m = map (\<lambda>route. prefixPattern (''/'' @ mod_Name m) (rt_Pattern route)) (mod_Routes m)"

lemma Mount_loop_patterns:
  "map_option (\<lambda>(r, s). map fst (ro_mux r)) (Mount_loop lg ms r s) =
     add_patterns (concat (map module_patterns ms)) (map fst (ro_mux r))"
proof (induction lg ms r s rule: Mount_loop.induct)
  case (2 lg m ms r s)
  note P = Mount_routes_patterns [of "''/'' @ mod_Name m" "mod_Routes m" r, folded module_patterns_def]
  show ?case
  proof (cases "Mount_routes (''/'' @ mod_Name m) (mod_Routes m) r")
    case None
    with P show ?thesis by (simp add: Let_def add_patterns_append split: option.splits)
  next
    case (Some r')
    with P 2 [OF refl Some] show ?thesis by (auto simp add: Let_def add_patterns_append split: option.splits)
  qed
qed simp

definition example_patterns :: "string list" where
  "example_patterns =
     [''GET /health'', ''GET /account/login'', ''POST /account/login'', ''GET /account/register'',
      ''POST /account/register'', ''POST /account/logout'', ''GET /account/profile'', ''POST /account/api/login'',
      ''GET /account/api/me'', ''GET /greeting/'', ''GET /greeting/{name}'', ''POST /greeting/'']"

lemma example_patterns_ok: "map_option length (add_patterns example_patterns []) = Some 12"
  by code_simp


section \<open>Lemmas\<close>

text \<open>Every field is a string and none carries the tag \<open>required\<close>, so the configuration always binds.\<close>

lemma load_config_total: "\<exists>cfg. load_config env = Inr cfg"
proof -
  obtain a b c d e f g where "bind_loop env serverConfig_fields = Inr [a, b, c, d, e, f, g]"
    using optional_field(2) [of env "''Addr''" "''APP_ADDR''" "'':8080''" "[]"]
      optional_field(2) [of env "''Env''" "''APP_ENV''" "''development''" "[]"]
      optional_field(2) [of env "''LogLevel''" "''LOG_LEVEL''" "''info''" "[]"]
      optional_field(1) [of env "''DatabaseURL''" "''DATABASE_URL''" "[]"]
      optional_field(1) [of env "''SessionKey''" "''SESSION_KEY,required''" "[]"]
      optional_field(1) [of env "''JWTSecret''" "''JWT_SECRET,required''" "[]"]
      optional_field(2) [of env "''CORSOrigins''" "''CORS_ORIGINS''" "''*''" "[]"]
    unfolding serverConfig_fields_def bind_loop_Inr list_all2_Cons list_all2_Nil
    by (elim exE) (simp add: bind_loop_Inr)
  then show ?thesis by (simp add: load_config_def MustBind_def)
qed

lemma example_module_patterns:
  "concat (map module_patterns [account_module h, greeting_module dec lg]) = tl example_patterns"
  by (simp add: module_patterns_def account_module_def account_Routes_def greeting_module_def greeting_routes_def
      prefixPattern_def isHTTPMethod_def example_patterns_def)

lemma setup_app_some:
  fixes L :: "('blk, 't, 'l) example_libs"
  obtains app where "setup_app L cfg lg store = Some app"
    "app_modules app = [account_module (setup_account L cfg lg), greeting_module (xl_decode L) lg]"
    "ro_middleware (app_router app) = example_middleware cfg (xl_json L) store lg (xl_stack L) (xl_duration L) (xl_rate L)"
    "add_patterns [hd example_patterns] [] = Some (map fst (ro_mux (app_router app)))"
    "app_logger app = lg" "distinct (map fst (ro_mux (app_router app)))"
proof -
  let ?app = "app_Use (example_middleware cfg (xl_json L) store lg (xl_stack L) (xl_duration L) (xl_rate L)) (New_app lg)
    :: (('l, 't) example_world) App"
  have p: "map_option length (add_patterns [''GET /health''] []) = Some 1" by code_simp
  then obtain ps where ps: "add_patterns [''GET /health''] [] = Some ps" by (cases "add_patterns [''GET /health''] []") auto
  have "map_option (map fst) (mux_Handle ''GET /health'' (healthHandler (xl_time L)) (ro_mux (app_router ?app))) = Some ps"
    unfolding mux_Handle_patterns by (simp add: app_Use_def Use_def New_app_def New_router_def ps del: add_patterns.simps)
  then obtain m where m: "mux_Handle ''GET /health'' (healthHandler (xl_time L)) (ro_mux (app_router ?app)) = Some m"
    "map fst m = ps" by (cases "mux_Handle ''GET /health'' (healthHandler (xl_time L)) (ro_mux (app_router ?app))") auto
  have d: "distinct (map fst m)"
    using mux_Handle_distinct [OF m(1)] by (simp add: app_Use_def Use_def New_app_def New_router_def)
  show thesis
    by (rule that [where app = "App.Register [account_module (setup_account L cfg lg), greeting_module (xl_decode L) lg]
          (?app\<lparr>app_router := (app_router ?app)\<lparr>ro_mux := m\<rparr>\<rparr>)"])
      (use m d ps in \<open>simp_all add: setup_app_def Let_def Handle_def health_route_def App.Register_def app_Use_def Use_def
        New_app_def New_router_def example_patterns_def del: add_patterns.simps\<close>)
qed

lemma mount_example:
  assumes "app_modules app = [account_module h, greeting_module dec lg]"
    "add_patterns [hd example_patterns] [] = Some (map fst (ro_mux (app_router app)))"
  obtains r t where "Mount app s = Some (app\<lparr>app_router := r\<rparr>, t)" "add_patterns example_patterns [] = Some (map fst (ro_mux r))"
    "Mount_loop (app_logger app) (app_modules app) (app_router app) s = Some (r, t)"
proof -
  have split: "example_patterns = [hd example_patterns] @ tl example_patterns" by (simp add: example_patterns_def)
  have "add_patterns example_patterns [] = add_patterns (tl example_patterns) (map fst (ro_mux (app_router app)))"
    by (subst split, unfold add_patterns_append assms(2)) simp
  then have p: "map_option (\<lambda>(r, s). map fst (ro_mux r)) (Mount_loop (app_logger app) (app_modules app) (app_router app) s) =
      add_patterns example_patterns []"
    unfolding Mount_loop_patterns assms(1) example_module_patterns by simp
  from example_patterns_ok obtain qs where "add_patterns example_patterns [] = Some qs"
    by (cases "add_patterns example_patterns []") auto
  with p obtain r t where "Mount_loop (app_logger app) (app_modules app) (app_router app) s = Some (r, t)"
      "map fst (ro_mux r) = qs" by (auto split: prod.splits)
  with \<open>add_patterns example_patterns [] = Some qs\<close> show thesis
    by (intro that [of r t]) (simp_all add: Mount_def)
qed

lemma start_example:
  assumes "app_modules app = [account_module h, greeting_module dec lg]"
  shows "fst (Start app s) = None"
  by (simp add: Start_def assms account_module_def greeting_module_def)

text \<open>What a started example is made of.\<close>

definition example_app_of :: "('blk, 't, 'l) example_libs \<Rightarrow> ('l, 't) running \<Rightarrow> cookie_store \<Rightarrow> bool" where
  "example_app_of L ru store \<longleftrightarrow>
     (let cfg = ru_config ru; lg = log_New (parseLogLevel (sc_LogLevel cfg)); router = app_router (ru_app ru)
      in setup_store L cfg = Inr store \<and>
         ro_middleware router = example_middleware cfg (xl_json L) store lg (xl_stack L) (xl_duration L) (xl_rate L) \<and>
         add_patterns example_patterns [] = Some (map fst (ro_mux router)) \<and> distinct (map fst (ro_mux router)) \<and>
         (\<forall>route \<in> set (account_Routes (setup_account L cfg lg)). \<exists>p.
            parse_pattern (prefixPattern ''/account'' (rt_Pattern route)) = Some p \<and>
            (p, rt_Handler route) \<in> set (ro_mux router)))"


lemma mounted_example:
  assumes "setup_store L cfg = Inr store" "lg = log_New (parseLogLevel (sc_LogLevel cfg))" "setup_app L cfg lg store = Some app"
  obtains app1 t where "Mount app s = Some (app1, t)" "app_modules app1 = app_modules app"
    "fst (Start app1 t) = None"
    "\<And>d w sc. example_app_of L \<lparr>ru_config = cfg, ru_database = d, ru_app = app1, ru_worker = w, ru_scheduler = sc\<rparr> store"
proof -
  obtain app0 where a: "setup_app L cfg lg store = Some app0"
    "app_modules app0 = [account_module (setup_account L cfg lg), greeting_module (xl_decode L) lg]"
    "ro_middleware (app_router app0) = example_middleware cfg (xl_json L) store lg (xl_stack L) (xl_duration L) (xl_rate L)"
    "add_patterns [hd example_patterns] [] = Some (map fst (ro_mux (app_router app0)))"
    "app_logger app0 = lg" "distinct (map fst (ro_mux (app_router app0)))"
    by (rule setup_app_some [of L cfg lg store])
  then have eq: "app0 = app" using assms(3) by simp
  note a = a [unfolded eq]
  obtain r t where m: "Mount app s = Some (app\<lparr>app_router := r\<rparr>, t)" "add_patterns example_patterns [] = Some (map fst (ro_mux r))"
    "Mount_loop (app_logger app) (app_modules app) (app_router app) s = Some (r, t)"
    by (rule mount_example [OF a(2,4)])
  note routes = Mount_loop_routes [OF m(3) a(6)]
  show thesis
  proof (rule that [OF m(1)])
    show "app_modules (app\<lparr>app_router := r\<rparr>) = app_modules app" by simp
    show "fst (Start (app\<lparr>app_router := r\<rparr>) t) = None" by (rule start_example) (simp add: a)
    have "\<forall>route \<in> set (account_Routes (setup_account L cfg lg)). \<exists>p.
        parse_pattern (prefixPattern ''/account'' (rt_Pattern route)) = Some p \<and> (p, rt_Handler route) \<in> set (ro_mux r)"
      using routes by (simp add: a account_module_def)
    with routes show "example_app_of L \<lparr>ru_config = cfg, ru_database = d, ru_app = app\<lparr>app_router := r\<rparr>, ru_worker = w,
        ru_scheduler = sc\<rparr> store" for d w sc
      by (simp add: example_app_of_def Let_def assms(1) assms(2) [symmetric] m(2) a(3))
  qed
qed

text \<open>The cases of the start: only the cipher and the database can stop it.\<close>

definition started_as ::
    "('blk, 't, 'l) example_libs \<Rightarrow> serverConfig \<Rightarrow> nat \<Rightarrow> main_exit + ('l, 't) running \<Rightarrow> bool"
where
  "started_as L cfg i res \<longleftrightarrow>
     (let lg = log_New (parseLogLevel (sc_LogLevel cfg))
      in case res of
           Inl x \<Rightarrow> (\<exists>err. setup_store L cfg = Inl err \<and> x = SessionStoreFailed err) \<or>
             (\<exists>err. setup_jobs L cfg lg i = Inl err \<and> x = DatabaseFailed err)
         | Inr ru \<Rightarrow> ru_config ru = cfg \<and> (\<exists>store. example_app_of L ru store) \<and>
             (\<exists>d e leader. setup_jobs L cfg lg i = Inr (d, e, leader) \<and> ru_database ru = d \<and>
                ru_worker ru = setup_worker lg \<and> ru_scheduler ru = setup_scheduler e lg leader))"

lemma main_start_cases:
  fixes L :: "('blk, 't, 'l) example_libs"
  obtains cfg where "load_config env = Inr cfg" "started_as L cfg i (fst (main_start L env i s))"
proof -
  obtain cfg where c: "load_config env = Inr cfg" using load_config_total by blast
  define lg where "lg = log_New (parseLogLevel (sc_LogLevel cfg))"
  let ?s1 = "log_Info lg ''starting broth example''
      [(''env'', sc_Env cfg), (''addr'', sc_Addr cfg), (''go_version'', xl_version L)] s"
  show thesis
  proof (cases "setup_store L cfg")
    case (Inl err)
    then show thesis by (intro that [OF c]) (simp add: started_as_def main_start_def c Let_def)
  next
    case (Inr store)
    obtain app :: "(('l, 't) example_world) App" where a: "setup_app L cfg lg store = Some app"
      using setup_app_some [of L cfg lg store] by metis
    show thesis
    proof (cases "setup_jobs L cfg lg i")
      case (Inl err)
      then show thesis
        by (intro that [OF c]) (simp add: started_as_def main_start_def c Let_def Inr a lg_def [symmetric])
    next
      case j: (Inr r)
      obtain d e leader where r: "r = (d, e, leader)" by (cases r)
      obtain app1 s2 where m: "Mount app (setup_world (jobs_log cfg lg ?s1)) = Some (app1, s2)" "fst (Start app1 s2) = None"
        "\<And>d w sc. example_app_of L \<lparr>ru_config = cfg, ru_database = d, ru_app = app1, ru_worker = w, ru_scheduler = sc\<rparr> store"
        using mounted_example [OF Inr lg_def a, of "setup_world (jobs_log cfg lg ?s1)"] by metis
      obtain s3 where st: "Start app1 s2 = (None, s3)" using m(2) by (metis prod.collapse)
      have "main_start L env i s = (Inr \<lparr>ru_config = cfg, ru_database = d, ru_app = app1, ru_worker = setup_worker lg,
          ru_scheduler = setup_scheduler e lg leader\<rparr>, s3)"
        by (simp add: main_start_def c Let_def Inr a j r m(1) st lg_def [symmetric])
      with m(3) j r show thesis by (intro that [OF c]) (auto simp: started_as_def Let_def lg_def [symmetric])
    qed
  qed
qed


lemma main_start_app:
  assumes "fst (main_start L env i s) = Inr ru"
  shows "\<exists>store. example_app_of L ru store"
proof -
  obtain cfg where "started_as L cfg i (fst (main_start L env i s))" by (rule main_start_cases [of env L i s])
  with assms show ?thesis by (auto simp: started_as_def Let_def)
qed

section \<open>Answers that do not reach the handler\<close>

text \<open>The call ended with a status of \<open>S\<close>, or panicked with none sent.\<close>

fun replies :: "int set \<Rightarrow> ('m world_scheme) hres \<Rightarrow> bool" where
  "replies S (Done t) \<longleftrightarrow> resp_status t \<in> Some ` S"
| "replies S (Panicked m t) \<longleftrightarrow> resp_status t = None"

text \<open>The requests for a path by \<open>GET\<close> that no middleware has given a user.\<close>

definition anonymous_get :: "string \<Rightarrow> request \<Rightarrow> bool" where
  "anonymous_get path r \<longleftrightarrow> r_Method r = ''GET'' \<and> r_Path r = path \<and> GetUser (r_Context r) = None"

lemma anonymous_WithContext:
  "anonymous_get path r \<Longrightarrow> GetUser c = GetUser (r_Context r) \<Longrightarrow> anonymous_get path (WithContext r c)"
  by (simp add: anonymous_get_def http_simps)

text \<open>Every such call on an uncommitted response replies from \<open>S\<close>; each middleware of the example keeps this.\<close>

definition answers :: "int set \<Rightarrow> string \<Rightarrow> ('m world_scheme) handler \<Rightarrow> bool" where
  "answers S path h \<longleftrightarrow>
     (\<forall>w r s. writer_contract w \<longrightarrow> anonymous_get path r \<longrightarrow> resp_status s = None \<longrightarrow> replies S (h w r s))"

lemma answersI:
  "(\<And>w r s. writer_contract w \<Longrightarrow> anonymous_get path r \<Longrightarrow> resp_status s = None \<Longrightarrow> replies S (h w r s)) \<Longrightarrow>
   answers S path h"
  by (simp add: answers_def)

lemma answersD:
  "answers S path h \<Longrightarrow> writer_contract w \<Longrightarrow> anonymous_get path r \<Longrightarrow> resp_status s = None \<Longrightarrow> replies S (h w r s)"
  by (simp add: answers_def)

lemma answersD_context:
  assumes "answers S path h" "writer_contract w" "anonymous_get path r" "GetUser c = GetUser (r_Context r)" "resp_status s = None"
  shows "replies S (h w (WithContext r c) s)"
  using answersD [OF assms(1,2) anonymous_WithContext [OF assms(3,4)] assms(5)] .

lemma answers_RequestID:
  assumes "answers S path h"
  shows "answers S path (RequestID h)"
proof (rule answersI)
  fix w :: "('a world_scheme) response_writer" and r and s :: "'a world_scheme"
  assume w: "writer_contract w" and q: "anonymous_get path r" "resp_status s = None"
  have "replies S (h w (WithContext r (set_request_id (r_Context r) rid)) (set_header w k v (s\<lparr>w_entropy := e\<rparr>)))" for rid k v e
    by (rule answersD_context [OF assms w q(1)]) (simp_all add: http_simps q(2) writer_contract.set_header_simps [OF w])
  from this [where e = "w_entropy s"] this show "replies S (RequestID h w r s)"
    by (simp add: RequestID_def Let_def split: prod.split)
qed

lemma answers_Recovery: "answers S path h \<Longrightarrow> 500 \<in> S \<Longrightarrow> answers S path (Recovery stack lg h)"
proof (rule answersI)
  fix w :: "('a world_scheme) response_writer" and r and s :: "'a world_scheme"
  assume h: "answers S path h" "500 \<in> S" and w: "writer_contract w" and q: "anonymous_get path r" "resp_status s = None"
  from answersD [OF h(1) w q] h(2) show "replies S (Recovery stack lg h w r s)"
    by (cases "h w r s") (simp_all add: Recovery_def Let_def writer_contract.http_Error_status [OF w] log_Error_def http_simps)
qed

lemma answers_Logger: "answers S path h \<Longrightarrow> answers S path (Logger dur lg h)"
proof (rule answersI)
  fix w :: "('a world_scheme) response_writer" and r and s :: "'a world_scheme"
  assume h: "answers S path h" and w: "writer_contract w" and q: "anonymous_get path r" "resp_status s = None"
  let ?s = "s\<lparr>w_status_ws := w_status_ws s @ [\<lparr>sw_status = 200, sw_wroteHeader = False\<rparr>]\<rparr>"
  have "resp_status ?s = None" using q(2) by simp
  from answersD [OF h status_rw_contract [OF w] q(1) this, of "length (w_status_ws s)"]
  show "replies S (Logger dur lg h w r s)"
    by (cases "h (status_rw (length (w_status_ws s)) w) r ?s") (simp_all add: Logger_def Let_def log_Info_def http_simps)
qed

lemma answers_ContextDetect: "answers S path h \<Longrightarrow> answers S path (ContextDetect h)"
  unfolding ContextDetect_def Let_def
  by (rule answersI, rule answersD_context) (simp_all add: http_simps)

lemma answers_ForceContext: "answers S path h \<Longrightarrow> answers S path (ForceContext rc h)"
  unfolding ForceContext_def
  by (rule answersI, rule answersD_context) (simp_all add: http_simps)

lemma answers_SecurityHeaders: "answers S path h \<Longrightarrow> answers S path (SecurityHeaders cfgs h)"
  by (rule answersI) (simp add: SecurityHeaders_def Let_def answersD writer_contract.set_header_simps)

lemma answers_Session: "answers S path h \<Longrightarrow> answers S path (Session J store cfgs h)"
proof (rule answersI)
  fix w :: "('a world_scheme) response_writer" and r and s :: "'a world_scheme"
  assume h: "answers S path h" and w: "writer_contract w" and q: "anonymous_get path r" "resp_status s = None"
  let ?cfg = "session_config cfgs"
  show "replies S (Session J store cfgs h w r s)"
  proof (cases "loadSession J store (CookieName ?cfg) r (w_now s) (w_entropy s)")
    case (Inr res)
    obtain sess rest where res: "res = (sess, rest)" by (cases res)
    let ?p = "length (w_sessions s)" and ?i = "length (w_session_ws s)"
    let ?x = "h (session_rw J ?i ?p store ?cfg w) (WithContext r (NewContext (r_Context r) (Some ?p)))
      (s\<lparr>w_entropy := rest, w_sessions := w_sessions s @ [sess], w_session_ws := w_session_ws s @ [False]\<rparr>)"
    have "replies S ?x"
      by (rule answersD_context [OF h session_rw_contract [OF w] q(1)]) (use q in \<open>simp_all add: http_simps\<close>)
    then show ?thesis
      by (cases ?x) (simp_all add: Session_def Let_def Inr res saveSession_frame [OF w])
  qed (use q in \<open>simp add: Session_def Let_def\<close>)
qed

lemma answers_CSRF: "answers S path h \<Longrightarrow> 500 \<in> S \<Longrightarrow> answers S path (CSRF cfgs h)"
proof (rule answersI)
  fix w :: "('a world_scheme) response_writer" and r and s :: "'a world_scheme"
  assume h: "answers S path h" "500 \<in> S" and w: "writer_contract w" and q: "anonymous_get path r" "resp_status s = None"
  have "isSafeMethod (r_Method r)" using q(1) by (simp add: anonymous_get_def isSafeMethod_def)
  then have check: "replies S (csrf_check cfg h w r tok t)" if "resp_status t = None" for cfg tok t
    using answersD_context [OF h(1) w q(1) _ that] by (simp add: csrf_check_def Let_def http_simps)
  show "replies S (CSRF cfgs h w r s)"
    using check q answersD [OF h(1) w q] h(2)
    by (auto simp: CSRF_def Let_def writer_contract.http_Error_status [OF w] store_token_def split: prod.split sum.split option.split)
qed

lemma answers_CORS: "answers S path h \<Longrightarrow> answers S path (CORS cfg h)"
proof (rule answersI)
  fix w :: "('a world_scheme) response_writer" and r and s :: "'a world_scheme"
  assume h: "answers S path h" and w: "writer_contract w" and q: "anonymous_get path r" "resp_status s = None"
  have "r_Method r \<noteq> ''OPTIONS''" using q(1) by (simp add: anonymous_get_def)
  moreover have "resp_status (cors_allow c origin w s) = None" for c origin
    using q(2) by (simp add: cors_allow_def Let_def writer_contract.set_header_simps [OF w])
  ultimately show "replies S (CORS cfg h w r s)"
    using answersD [OF h w q(1)] q(2) by (simp add: CORS_def Let_def)
qed

lemma answers_RateLimit:
  fixes h :: "(('l, 'm) rl_world_scheme) handler"
  assumes h: "answers S path h" "429 \<in> S"
  shows "answers S path (RateLimit L h)"
proof (rule answersI)
  fix w :: "(('l, 'm) rl_world_scheme) response_writer" and r and s :: "('l, 'm) rl_world_scheme"
  assume w: "writer_contract w" and q: "anonymous_get path r" "resp_status s = None"
  have "resp_status (s\<lparr>w_rate_limiter := rl\<rparr>) = None" for rl using q(2) by simp
  with answersD [OF h(1) w q(1)] h(2) show "replies S (RateLimit L h w r s)"
    by (auto simp: RateLimit_def Let_def writer_contract.http_Error_status [OF w] writer_contract.set_header_simps [OF w] split: prod.split)
qed

lemma answers_RequireAuth: "{303, 401} \<subseteq> S \<Longrightarrow> answers S path (RequireAuth h)"
  by (rule answersI) (auto simp: RequireAuth_def anonymous_get_def IsAuthenticated_def writer_contract.unauthenticated_status)

lemmas answers_middleware = answers_RequestID answers_Recovery answers_Logger answers_ContextDetect answers_SecurityHeaders
  answers_Session answers_CSRF answers_CORS answers_RateLimit


text \<open>The routes behind \<open>RequireAuth\<close>.\<close>

definition protected_paths :: "string set" where
  "protected_paths = {''/account/profile'', ''/account/api/me''}"

lemma protected_route:
  assumes "path \<in> protected_paths"
  obtains route where "route \<in> set (account_Routes h)" "prefixPattern ''/account'' (rt_Pattern route) = ''GET'' @ '' '' @ path"
    "literal_path path" "answers {303, 401} path (rt_Handler route)"
proof -
  have lit: "literal_path ''/account/profile''" "literal_path ''/account/api/me''" by code_simp+
  have pre: "prefixPattern ''/account'' ''GET /profile'' = ''GET'' @ '' '' @ ''/account/profile''"
    "prefixPattern ''/account'' ''GET /api/me'' = ''GET'' @ '' '' @ ''/account/api/me''"
    by (simp_all add: prefixPattern_def isHTTPMethod_def)
  from assms consider "path = ''/account/profile''" | "path = ''/account/api/me''" by (auto simp: protected_paths_def)
  then show thesis
  proof cases
    case 1
    then show thesis
      by (intro that [of "\<lparr>rt_Pattern = ''GET /profile'', rt_Handler = RequireAuth (Profile h)\<rparr>"])
        (simp_all only: account_Routes_def lit pre list.set insert_iff simp_thms Route.simps answers_RequireAuth order_refl)
  next
    case 2
    then show thesis
      by (intro that [of "\<lparr>rt_Pattern = ''GET /api/me'', rt_Handler = ForceContext ContextAPI (RequireAuth (APICurrentUser h))\<rparr>"])
        (simp_all only: account_Routes_def lit pre list.set insert_iff simp_thms Route.simps answers_RequireAuth
          answers_ForceContext order_refl)
  qed
qed

lemma answers_mono: "answers S path h \<Longrightarrow> S \<subseteq> T \<Longrightarrow> answers T path h"
proof (rule answersI)
  fix w :: "('a world_scheme) response_writer" and r and s :: "'a world_scheme"
  assume "answers S path h" "S \<subseteq> T" "writer_contract w" "anonymous_get path r" "resp_status s = None"
  then show "replies T (h w r s)" using answersD [of S path h w r s] by (cases "h w r s") auto
qed

lemma protected_mux:
  assumes "example_app_of L ru store" "path \<in> protected_paths"
  shows "answers {303, 401} path (mux_ServeHTTP (ro_mux (app_router (ru_app ru))))"
proof (rule answersI)
  fix w :: "(('c, 'b) example_world) response_writer" and r and s :: "('c, 'b) example_world"
  assume w: "writer_contract w" and q: "anonymous_get path r" "resp_status s = None"
  let ?h = "setup_account L (ru_config ru) (log_New (parseLogLevel (sc_LogLevel (ru_config ru))))"
  let ?m = "ro_mux (app_router (ru_app ru))"
  obtain route where r: "route \<in> set (account_Routes ?h)"
    "prefixPattern ''/account'' (rt_Pattern route) = ''GET'' @ '' '' @ path" "literal_path path"
    "answers {303, 401} path (rt_Handler route)" by (rule protected_route [OF assms(2)])
  from assms(1) r(1) obtain p where p: "parse_pattern (prefixPattern ''/account'' (rt_Pattern route)) = Some p"
    "(p, rt_Handler route) \<in> set ?m" and d: "distinct (map fst ?m)" by (auto simp: example_app_of_def Let_def)
  have "mux_ServeHTTP ?m w r s = rt_Handler route w (r\<lparr>r_PathValues := []\<rparr>) s"
    by (rule mux_literal [OF d p(1) [unfolded r(2)] p(2) r(3)]) (use q in \<open>simp_all add: anonymous_get_def\<close>)
  moreover have "anonymous_get path (r\<lparr>r_PathValues := []\<rparr>)" using q(1) by (simp add: anonymous_get_def)
  ultimately show "replies {303, 401} (mux_ServeHTTP ?m w r s)" using answersD [OF r(4) w _ q(2)] by simp
qed

text \<open>Nothing passes \<open>Recovery\<close> as a panic; the outer middleware only wraps it.\<close>

lemma RequestID_Recovery_returns: "\<exists>t. RequestID (Recovery stack lg h) w r s = Done t"
proof -
  have "\<exists>t. Recovery stack lg h w r s = Done t" for r s by (cases "h w r s") (simp_all add: Recovery_def Let_def)
  then show ?thesis by (simp add: RequestID_def Let_def split: prod.split)
qed

section \<open>Properties\<close>

text \<open>C12. The start of the example: with a cipher that accepts keys of 32 bytes, the only thing that stops
  \<open>main\<close> before it serves is a configured database that cannot be opened.  Otherwise the routes are
  registered without a conflict, the database is open exactly when one is configured and then an elector
  is used, four workers are made and the heartbeat is registered.\<close>

theorem Example_starts:
  assumes "\<And>k. length k = 32 \<Longrightarrow> \<exists>b g. xl_cipher L k = Some b \<and> xl_gcm L b = Some g"
  shows "\<exists>cfg. load_config env = Inr cfg \<and>
    (case fst (main_start L env i s) of
       Inl x \<Rightarrow> \<exists>err. x = DatabaseFailed err \<and> sc_DatabaseURL cfg \<noteq> [] \<and>
         fst (db_Open (xl_sql L) (DefaultConfig (sc_DatabaseURL cfg)) (log_New (parseLogLevel (sc_LogLevel cfg)))) = Inl err
     | Inr ru \<Rightarrow> ru_config ru = cfg \<and>
         add_patterns example_patterns [] = Some (map fst (ro_mux (app_router (ru_app ru)))) \<and>
         (ru_database ru = None \<longleftrightarrow> sc_DatabaseURL cfg = []) \<and>
         (sc_leader (ru_scheduler ru) = None \<longleftrightarrow> sc_DatabaseURL cfg = []) \<and>
         eq_size (sc_enqueuer (ru_scheduler ru)) = 100 \<and> wr_concurrency (ru_worker ru) = 4 \<and>
         map sd_Name (sc_definitions (ru_scheduler ru)) = [''example-heartbeat''])"
proof -
  obtain cfg where c: "load_config env = Inr cfg" and st: "started_as L cfg i (fst (main_start L env i s))"
    by (rule main_start_cases [of env L i s])
  have store: "setup_store L cfg \<noteq> Inl err" for err
    using assms [OF session_key_length, of "sc_SessionKey cfg"]
    by (auto simp: setup_store_def NewCookieStore_def session_key_length)
  show ?thesis
  proof (cases "fst (main_start L env i s)")
    case (Inl x)
    with st store obtain err where "setup_jobs L cfg (log_New (parseLogLevel (sc_LogLevel cfg))) i = Inl err" "x = DatabaseFailed err"
      by (auto simp: started_as_def Let_def)
    with Inl c show ?thesis by (auto simp: setup_jobs_def split: if_splits sum.splits)
  next
    case (Inr ru)
    with st obtain store d e leader where ru: "ru_config ru = cfg" "example_app_of L ru store"
      "setup_jobs L cfg (log_New (parseLogLevel (sc_LogLevel cfg))) i = Inr (d, e, leader)" "ru_database ru = d"
      "ru_worker ru = setup_worker (log_New (parseLogLevel (sc_LogLevel cfg)))"
      "ru_scheduler ru = setup_scheduler e (log_New (parseLogLevel (sc_LogLevel cfg))) leader"
      by (auto simp: started_as_def Let_def)
    have jobs: "eq_size e = 100" "d = None \<longleftrightarrow> sc_DatabaseURL cfg = []" "leader = None \<longleftrightarrow> sc_DatabaseURL cfg = []"
      using ru(3) by (auto simp: setup_jobs_def NewEnqueuer_def WithQueueSize_def WithBackend_def split: if_splits sum.splits)
    have "add_patterns example_patterns [] = Some (map fst (ro_mux (app_router (ru_app ru))))"
      using ru(2) by (simp add: example_app_of_def Let_def)
    with Inr c ru jobs show ?thesis
      by (simp add: setup_worker_def NewWorker_def setup_scheduler_def Scheduler.Register_def NewScheduler_def WithOnError_def
          example_heartbeat_def del: add_patterns.simps)
  qed
qed

text \<open>C9. The example never installs the authentication middleware, so its protected pages are reachable by
  nobody: whatever headers, cookies and session a request for the profile or the current user carries,
  logged in or not, it is answered with the redirect to the login page, with 401, or by a middleware
  with 429 or 500.\<close>

theorem Protected_unreachable:
  assumes "fst (main_start L env i s0) = Inr ru" "r_Method r = ''GET''" "r_Path r \<in> protected_paths"
    "GetUser (r_Context r) = None" "resp_status s = None"
  shows "\<exists>t. app_Handler (ru_app ru) (base_rw fl hj pu) r s = Done t \<and> resp_status t \<in> Some ` {303, 401, 429, 500}"
proof -
  obtain store where app: "example_app_of L ru store"
    using main_start_app [OF assms(1)] by blast
  let ?cfg = "ru_config ru" and ?lg = "log_New (parseLogLevel (sc_LogLevel (ru_config ru)))"
  let ?h = "mux_ServeHTTP (ro_mux (app_router (ru_app ru)))"
  have h: "app_Handler (ru_app ru) = Chain (example_middleware ?cfg (xl_json L) store ?lg (xl_stack L) (xl_duration L) (xl_rate L)) ?h"
    using app by (simp add: app_Handler_def router_Handler_Chain example_app_of_def Let_def)
  have "answers {303, 401, 429, 500} (r_Path r) ?h"
    by (rule answers_mono [OF protected_mux [OF app assms(3)]]) blast
  then have "answers {303, 401, 429, 500} (r_Path r) (app_Handler (ru_app ru))"
    unfolding h example_middleware_def Chain_simps by (intro answers_middleware) simp_all
  then have "replies {303, 401, 429, 500} (app_Handler (ru_app ru) (base_rw fl hj pu) r s)"
    by (rule answersD [OF _ base.writer_contract_axioms]) (simp_all add: anonymous_get_def assms)
  moreover obtain t where "app_Handler (ru_app ru) (base_rw fl hj pu) r s = Done t"
    using RequestID_Recovery_returns unfolding h example_middleware_def Chain_simps by blast
  ultimately show ?thesis by simp
qed


section \<open>Witnesses and behaviours at the edge\<close>

definition demo_libs :: "(unit, string, nat) example_libs" where
  "demo_libs =
     \<lparr>xl_cipher = (\<lambda>k. Some ()), xl_gcm = (\<lambda>b. Some plain_aead), xl_json = unary_codec, xl_decode = (\<lambda>b. None),
      xl_jwt = unary_jwt, xl_bcrypt = plain_bcrypt, xl_rate = \<lparr>lim_NewLimiter = (\<lambda>rps burst. 0), lim_Allow = (\<lambda>t n. (True, n))\<rparr>,
      xl_tmpl = \<lparr>tl_Parse = (\<lambda>n x. Inr [(n, x)]), tl_Execute = (\<lambda>d n x. ([], None))\<rparr>,
      xl_fs = \<lparr>fs_Glob = (\<lambda>p. Inr []), fs_ReadFile = (\<lambda>p. Inl ''no file'')\<rparr>,
      xl_sql = \<lparr>sql_Open = (\<lambda>d u. None), sql_Ping = (\<lambda>u. None), sql_Close = (\<lambda>u. None)\<rparr>, xl_locked = {},
      xl_stack = [], xl_version = ''go1.24'', xl_duration = (\<lambda>d. []), xl_time = (\<lambda>t. [])\<rparr>"

lemma demo_start:
  obtains ru where "fst (main_start demo_libs (\<lambda>k. None) 0 example_start) = Inr ru" "wr_concurrency (ru_worker ru) = 4"
proof -
  have "\<exists>ru. fst (main_start demo_libs (\<lambda>k. None) 0 example_start) = Inr ru \<and> wr_concurrency (ru_worker ru) = 4"
  proof -
    obtain cfg where st: "started_as demo_libs cfg 0 (fst (main_start demo_libs (\<lambda>k. None) 0 example_start))"
      by (rule main_start_cases [of "\<lambda>k. None" demo_libs 0 example_start])
    have "setup_store demo_libs cfg \<noteq> Inl err" for err
      by (simp add: setup_store_def demo_libs_def NewCookieStore_def session_key_length)
    moreover have "setup_jobs demo_libs cfg lg 0 \<noteq> Inl err" for lg err
      by (simp add: setup_jobs_def demo_libs_def db_Open_def)
    ultimately show ?thesis using st
      by (cases "fst (main_start demo_libs (\<lambda>k. None) 0 example_start)")
        (auto simp: started_as_def Let_def setup_worker_def NewWorker_def)
  qed
  with that show thesis by blast
qed

theorem Example_starts_witness:
  "\<exists>cfg. load_config (\<lambda>k. None) = Inr cfg \<and> fst (main_start demo_libs (\<lambda>k. None) 0 example_start) \<in> range Inr"
proof -
  have lib: "\<exists>b g. xl_cipher demo_libs k = Some b \<and> xl_gcm demo_libs b = Some g" for k by (simp add: demo_libs_def)
  obtain cfg where "load_config (\<lambda>k. None) = Inr cfg"
    using Example_starts [of demo_libs "\<lambda>k. None" 0 example_start, OF lib] by blast
  then show ?thesis using demo_start by (metis rangeI)
qed

theorem Protected_unreachable_witness:
  "\<exists>ru t. fst (main_start demo_libs (\<lambda>k. None) 0 example_start) = Inr ru \<and>
     app_Handler (ru_app ru) (base_rw True True True) (plain_request ''GET'' ''/account/profile'') login_world = Done t \<and>
     resp_status t \<in> Some ` {303, 401, 429, 500}"
proof -
  obtain ru where ru: "fst (main_start demo_libs (\<lambda>k. None) 0 example_start) = Inr ru" by (rule demo_start)
  have "\<exists>t. app_Handler (ru_app ru) (base_rw True True True) (plain_request ''GET'' ''/account/profile'') login_world = Done t \<and>
      resp_status t \<in> Some ` {303, 401, 429, 500}"
    by (rule Protected_unreachable [OF ru])
      (simp_all add: plain_request_def protected_paths_def GetUser_def login_world_def example_start_def)
  with ru show ?thesis by blast
qed

text \<open>The list in \<open>CORS_ORIGINS\<close> is one origin: several, separated by commas, allow none of them.\<close>

lemma cors_list_is_one_origin:
  "isAllowedOrigin origin [''https://a.com,https://b.com''] \<longleftrightarrow> origin = ''https://a.com,https://b.com''"
  by auto

text \<open>The whole database URL, with its password, goes to the log.\<close>

lemma database_url_logged:
  assumes "sc_DatabaseURL cfg \<noteq> []" "lg_level lg \<le> LevelInfo"
  shows "w_log (jobs_log cfg lg s) =
    w_log s @ [\<lparr>e_level = LevelInfo, e_msg = ''database connected'', e_attrs = lg_attrs lg @ [(''url'', sc_DatabaseURL cfg)]\<rparr>]"
  using assms by (simp add: jobs_log_def log_Info_def log_at_def log_record_def)

end
