(* ===== verification/Job_Lifecycle.thy ===== *)
theory Job_Lifecycle
  imports PgBackend
begin

text \<open>
  The life of a persisted job, as \<open>job/backend.go\<close> documents it, and the proof that the statements of
  theory \<open>PgBackend\<close> implement it when workers report only on jobs that run.
\<close>

section \<open>The specification\<close>

text \<open>A job has a stage and the number of its attempts; \<open>None\<close> is no job.\<close>

datatype life = LPending | LRunning | LCompleted | LDead

inductive life_step :: "(life \<times> int) option \<Rightarrow> (life \<times> int) option \<Rightarrow> bool" where
  created: "life_step None (Some (LPending, 0))"
| claimed: "a < maxAttempts \<Longrightarrow> life_step (Some (LPending, a)) (Some (LRunning, a + 1))"
| completed: "life_step (Some (LRunning, a)) (Some (LCompleted, a))"
| retried: "a < maxAttempts \<Longrightarrow> life_step (Some (LRunning, a)) (Some (LPending, a))"
| buried: "life_step (Some (LRunning, a)) (Some (LDead, a))"
| revived: "life_step (Some (LDead, a)) (Some (LPending, 0))"
| removed: "life_step (Some (LCompleted, a)) None"

inductive_simps life_step_simps:
  "life_step None l" "life_step (Some (LPending, a)) l" "life_step (Some (LRunning, a)) l"
  "life_step (Some (LCompleted, a)) l" "life_step (Some (LDead, a)) l"

definition life_of :: "string \<Rightarrow> life" where
  "life_of st =
     (if st = ''pending'' then LPending else if st = ''running'' then LRunning
      else if st = ''completed'' then LCompleted else LDead)"

definition job_life :: "int \<Rightarrow> pg \<Rightarrow> (life \<times> int) option" where
  "job_life i s = map_option (\<lambda>r. (life_of (jr_status r), jr_attempts r)) (job_of i s)"

text \<open>Reports are about running jobs only.\<close>

definition disciplined :: "'j pg_op \<Rightarrow> pg \<Rightarrow> bool" where
  "disciplined op s \<longleftrightarrow>
     (\<forall>k m. op = OpComplete k \<or> op = OpFail k m \<or> op = OpDead k m \<longrightarrow>
        (\<forall>r. job_of k s = Some r \<longrightarrow> jr_status r = ''running''))"

section \<open>Lemmas\<close>

lemma pg_update_job:
  assumes "pg_update what missing k P f s = (res, t)" "\<And>r. jr_id (f r) = jr_id r"
  shows "job_of i t = job_of i s \<or> (\<exists>r. job_of i s = Some r \<and> P r \<and> job_of i t = Some (f r))"
proof -
  from pg_update_cases [OF assms(1)] consider "pg_jobs t = pg_jobs s" | "pg_jobs t = update_rows P f (pg_jobs s)"
    by blast
  then show ?thesis
  proof cases
    case 2
    from job_of_update [OF assms(2) 2, of i] show ?thesis by (cases "job_of i s") auto
  qed (simp add: job_of_def)
qed

lemma job_life_same: "job_of i t = job_of i s \<Longrightarrow> job_life i t = job_life i s"
  by (simp add: job_life_def)

lemma job_life_Some: "job_of i s = Some r \<Longrightarrow> job_life i s = Some (life_of (jr_status r), jr_attempts r)"
  by (simp add: job_life_def)

text \<open>The statement behind the three reports.\<close>

lemma report_life:
  assumes "pg_update what missing k (\<lambda>r. jr_id r = k) f s = (res, t)" "\<And>r. jr_id (f r) = jr_id r"
    and "\<And>r. job_of k s = Some r \<Longrightarrow> jr_status r = ''running''"
    and "\<And>r. jr_status r = ''running'' \<Longrightarrow> jr_max_attempts r = maxAttempts \<Longrightarrow>
      life_step (Some (LRunning, jr_attempts r)) (Some (life_of (jr_status (f r)), jr_attempts (f r)))"
    and ok: "jobs_ok s"
  shows "job_life i t = job_life i s \<or> life_step (job_life i s) (job_life i t)"
  using pg_update_job [OF assms(1,2), of i]
proof
  assume "\<exists>r. job_of i s = Some r \<and> jr_id r = k \<and> job_of i t = Some (f r)"
  then obtain r where r: "job_of i s = Some r" "jr_id r = k" "job_of i t = Some (f r)" by blast
  from job_of_SomeD [OF r(1)] r(2) have "k = i" by simp
  with r(1) assms(3) have run: "jr_status r = ''running''" by blast
  from job_of_ok [OF ok r(1)] have "jr_max_attempts r = maxAttempts" by (simp add: row_ok_def)
  from assms(4) [OF run this] r run show ?thesis by (simp add: job_life_Some life_of_def)
qed (intro disjI1 job_life_same)

lemma pg_Fetch_job:
  assumes "jobs_ok s" "pg_Fetch locked queues w s = (res, t)"
  shows "job_of i t = job_of i s \<or>
    (\<exists>r. job_of i s = Some r \<and> jr_status r = ''pending'' \<and> job_of i t = Some (run_row w (pg_now s) r))"
  using assms(2)
proof (cases rule: pg_FetchE)
  case (some r)
  note j = job_of_update [OF _ some(4), of i, simplified]
  show ?thesis
  proof (cases "job_of i s")
    case (Some x)
    note x = job_of_SomeD [OF Some]
    show ?thesis
    proof (cases "jr_id x = jr_id r")
      case True
      with x job_of_mem [OF assms(1) some(1)] Some have "x = r" by simp
      with Some j some(2) show ?thesis by simp
    qed (use Some j in simp)
  qed (use j in simp)
qed (simp add: job_of_def)

lemma Enqueue_life:
  assumes ok: "jobs_ok s" and e: "pg_Enqueue I j opts s = (res, t)"
  shows "job_life i t = job_life i s \<or> life_step (job_life i s) (job_life i t)"
proof (cases "res = None \<and> i = pg_next_id s")
  case True
  with job_of_ok [OF ok, of i] have "job_of i s = None" by (cases "job_of i s") auto
  with True job_of_Enqueue [OF ok e, of i] show ?thesis
    by (simp add: job_life_def new_row_def life_of_def life_step_simps)
next
  case False
  with job_of_Enqueue [OF ok e, of i] show ?thesis by (simp add: job_life_def)
qed

lemma Fetch_life:
  assumes ok: "jobs_ok s" and e: "pg_Fetch locked queues w s = (res, t)"
  shows "job_life i t = job_life i s \<or> life_step (job_life i s) (job_life i t)"
  using pg_Fetch_job [OF ok e, of i]
proof
  assume "\<exists>r. job_of i s = Some r \<and> jr_status r = ''pending'' \<and> job_of i t = Some (run_row w (pg_now s) r)"
  then obtain r where r: "job_of i s = Some r" "jr_status r = ''pending''"
    "job_of i t = Some (run_row w (pg_now s) r)" by blast
  from job_of_ok [OF ok r(1)] r(2) have "jr_attempts r < maxAttempts" by (simp add: row_ok_def)
  with r show ?thesis by (simp add: job_life_Some run_row_def life_of_def life_step_simps)
next
  assume "job_of i t = job_of i s"
  then show ?thesis using job_life_same by blast
qed

section \<open>Properties\<close>

lemma Report_life:
  assumes ok: "jobs_ok s" and op: "op = OpComplete k \<or> op = OpFail k m \<or> op = OpDead k m" and "disciplined op s"
  shows "job_life i (pg_exec I op s) = job_life i s \<or> life_step (job_life i s) (job_life i (pg_exec I op s))"
proof -
  have run: "\<And>r. job_of k s = Some r \<Longrightarrow> jr_status r = ''running''" using assms(2,3) by (auto simp: disciplined_def)
  note life = report_life [OF prod.collapse [symmetric] _ run _ ok, where k = k and i = i]
  from op show ?thesis
    by (elim disjE)
      (simp only: pg_exec.simps pg_Complete_def pg_Fail_def pg_Dead_def,
       rule life; auto simp: complete_row_def fail_row_def dead_row_def life_of_def life_step_simps)+
qed



text \<open>
  The statements themselves do not check the status: a late failure report makes a completed job
  pending again, and it is run once more.
\<close>

lemma Fail_resurrects:
  "job_life 1 (pg_run name_iface
     [OpEnqueue ''mail'' defaultJobOptions, OpFetch {} [''default''] ''w1'', OpComplete 1, OpFail 1 None] pg_empty) =
   Some (LPending, 1)"
  by code_simp

end
