(* ===== verification/Migrate.thy ===== *)
theory Migrate
  imports Config
begin

text \<open>
  \<open>migrate/migrate.go\<close>: the migrations of a source directory.  goose is not under \<open>src/\<close>: its
  commands and queries are a parameter, on the state of the database and the directory.
\<close>

record MigrationStatus =
  ms_Version :: int
  ms_Name :: string
  ms_AppliedAt :: "int option"
  ms_Applied :: bool

text \<open>A migration of goose: its version and the path of its file.\<close>

type_synonym migration = "int \<times> string"

record 'd goose =
  gs_Run :: "string \<Rightarrow> string \<Rightarrow> 'd \<Rightarrow> string option \<times> 'd"
  gs_Collect :: "string \<Rightarrow> string + migration list"
  gs_DBVersion :: "'d \<Rightarrow> string + int"

record Migrator =
  mg_sourceDir :: string

definition migrate_New :: "string \<Rightarrow> Migrator" where
  "migrate_New dir = \<lparr>mg_sourceDir = dir\<rparr>"

definition Up :: "'d goose \<Rightarrow> Migrator \<Rightarrow> 'd \<Rightarrow> string option \<times> 'd" where
  "Up G m d = (let (err, d') = gs_Run G ''up'' (mg_sourceDir m) d in (map_option (\<lambda>e. ''migrate: up: '' @ e) err, d'))"

definition Down :: "'d goose \<Rightarrow> Migrator \<Rightarrow> 'd \<Rightarrow> string option \<times> 'd" where
  "Down G m d = (let (err, d') = gs_Run G ''down'' (mg_sourceDir m) d in (map_option (\<lambda>e. ''migrate: down: '' @ e) err, d'))"

text \<open>The field \<open>AppliedAt\<close> keeps its zero value.\<close>

definition status_of :: "int \<Rightarrow> migration \<Rightarrow> MigrationStatus" where
  "status_of version mg =
     \<lparr>ms_Version = fst mg, ms_Name = snd mg, ms_AppliedAt = None, ms_Applied = fst mg \<le> version\<rparr>"

definition Status :: "'d goose \<Rightarrow> Migrator \<Rightarrow> 'd \<Rightarrow> string + MigrationStatus list" where
  "Status G m d =
     (case gs_Collect G (mg_sourceDir m) of
        Inl err \<Rightarrow> Inl (''migrate: collect: '' @ err)
      | Inr migrations \<Rightarrow>
          (case gs_DBVersion G d of
             Inl err \<Rightarrow> Inl (''migrate: db version: '' @ err)
           | Inr version \<Rightarrow> Inr (map (status_of version) migrations)))"

text \<open>
  What the code relies on, as goose documents it: the files are collected in the order of their
  distinct versions, and the version of the database is the largest one applied.  When the
  migrations were applied in order \<open>Status\<close> tells the applied ones.
\<close>

definition applied_in_order :: "'d goose \<Rightarrow> string \<Rightarrow> ('d \<Rightarrow> int set) \<Rightarrow> 'd \<Rightarrow> bool" where
  "applied_in_order G dir applied d \<longleftrightarrow>
     (\<exists>ms v. gs_Collect G dir = Inr ms \<and> gs_DBVersion G d = Inr v \<and>
        (\<forall>m \<in> set ms. fst m \<in> applied d \<longleftrightarrow> fst m \<le> v))"

lemma Status_applied:
  assumes "applied_in_order G (mg_sourceDir m) applied d"
  shows "\<exists>sts. Status G m d = Inr sts \<and> (\<forall>st \<in> set sts. ms_Applied st \<longleftrightarrow> ms_Version st \<in> applied d)"
  using assms by (auto simp: applied_in_order_def Status_def status_of_def)

text \<open>
  A migration that was added behind the database's version, and was never run, is reported as applied.
\<close>

lemma Status_out_of_order:
  assumes "gs_Collect G (mg_sourceDir m) = Inr [(1, ''a.sql''), (2, ''b.sql''), (3, ''c.sql'')]"
    and "gs_DBVersion G d = Inr 3"
  shows "\<exists>sts. Status G m d = Inr sts \<and> map ms_Applied sts = [True, True, True] \<and> map ms_AppliedAt sts = [None, None, None]"
  using assms by (simp add: Status_def status_of_def)

end
