(* ===== verification/Spec2Isabelle.thy ===== *)
theory Spec2Isabelle
  imports Example_Main Job_Lifecycle Migrate
begin

text \<open>
  Broth, a Go web framework (HTTP middleware, sessions, accounts, jobs, scheduling), as a model in
  Isabelle/HOL.  Every definition is a translation of the Go code under \<open>src/\<close>; code that is not there
  (cryptography, \<open>html/template\<close>, JSON, bcrypt, the token library, the rate limiter of \<open>x/time\<close>,
  \<open>database/sql\<close>, cron, goose) is a parameter, and what the theorems need of it is a hypothesis that
  states its documentation.  The standard library is modelled as far as the code uses it.

  \<^bold>\<open>How the parts fit together.\<close>  A request runs through the middleware chain of the application router
  to a handler of a mounted module; sessions live in encrypted cookies, users come from the session
  or from a bearer token, forms are guarded by a CSRF token.  Beside the requests run the worker pool
  over an in-memory queue, the persistent job table, and the scheduler whose ticks enqueue jobs under
  a leader lock.

  \<^bold>\<open>Theories and code.\<close>
  \<^item> \<open>Prelude\<close>, \<open>Encoding\<close>, \<open>Reflect\<close>, \<open>Url\<close>: shared lemmas and the standard library's strings, decimal
    numbers, hex, base64, percent encoding, and what \<open>reflect\<close> shows of a struct.
  \<^item> \<open>Context\<close> (\<open>httputil/context.go\<close>, \<open>auth/user.go\<close>, \<open>db/conn.go\<close>, \<open>db/bob.go\<close>, the keys of the other packages):
    chained contexts; locale \<open>context_accessor\<close> is the law of a setter and its getter, interpreted for
    each pair of accessors.
  \<^item> \<open>Http\<close>, \<open>Writer\<close> (\<open>net/http\<close>, \<open>log/logger.go\<close>): requests, the connection, response writers as records of
    methods, the logger; locale \<open>writer_contract\<close> is what the middleware may rely on.  A handler maps a
    writer, a request and the world to \<open>Done\<close> a world or \<open>Panicked\<close> with the world at the panic.
  \<^item> \<open>Session\<close>, \<open>CookieStore\<close>, \<open>Middleware_Session\<close> (\<open>session/\<close>, \<open>middleware/session.go\<close>): the session object,
    its encrypted cookie, and the middleware that saves it before the first byte.
  \<^item> \<open>Middleware_Basic\<close>, \<open>Middleware_Csrf\<close>, \<open>Middleware_Auth\<close>, \<open>Middleware_RateLimit\<close> (the rest of \<open>middleware/\<close>).
  \<^item> \<open>Auth\<close> (\<open>auth/\<close>): tokens, passwords (locale \<open>password_hasher\<close>), roles.
  \<^item> \<open>Router\<close>, \<open>App\<close> (\<open>router/router.go\<close>, \<open>app.go\<close>, \<open>module.go\<close>): patterns, mounting, dispatch, lifecycle.
  \<^item> \<open>Config\<close>, \<open>Form\<close>, \<open>Render\<close> (\<open>config/\<close>, \<open>form/\<close>, \<open>render/\<close>).
  \<^item> \<open>Account\<close>, \<open>Account_Handlers\<close> (\<open>modules/account/\<close>): the service in locale \<open>account_contract\<close> over the
    repository interface \<open>user_repository\<close>, the pages and endpoints.
  \<^item> \<open>Example_Repo\<close>, \<open>Example\<close> (\<open>cmd/example/main.go\<close>): the repository that interprets the account
    contracts, the greeting module, the configuration and the middleware stack.
  \<^item> \<open>Example_Main\<close>, \<open>Process\<close> (\<open>cmd/example/main.go\<close>): the function \<open>main\<close> up to the moment it serves, with every
    way it can end before; and the process from then on, a step relation that interleaves the pool, the
    scheduler's goroutine, the ticks, other instances and the calls of the shutdown sequence, composed of
    the steps of \<open>Worker\<close> and \<open>Scheduler\<close> over the queue they share.
  \<^item> \<open>Job\<close>, \<open>Worker\<close>, \<open>PgBackend\<close>, \<open>Job_Lifecycle\<close> (\<open>job/\<close>): the enqueuer (locale \<open>job_backend\<close>), the goroutines
    of the pool as a step relation, every SQL statement of the backend as a function on the table, and
    the documented life of a job as a step relation that it refines.
  \<^item> \<open>Db_Tx\<close> (\<open>db/tx.go\<close>, \<open>db/db.go\<close>): transactions nested by savepoints on a server whose statements may
    fail, and the specification they refine.
  \<^item> \<open>PgLeader\<close>, \<open>Scheduler\<close> (\<open>schedule/\<close>): leader election by advisory locks as interleaved sections of code,
    locale \<open>leader_elector\<close> interpreted on its calls, ticks, registration, start and shutdown.
  \<^item> \<open>Migrate\<close> (\<open>migrate/migrate.go\<close>).

  \<^bold>\<open>What the lemmas show.\<close>  Requests: who reaches a handler (CSRF, tokens, roles, rate limits), what a
  session cookie holds and when it is sent, what the pages answer.  Accounts: registration and login over
  any repository and hasher that meet the contracts.  Router and application: which handler a path
  reaches, the order of start and shutdown.  Jobs: nothing accepted is lost or run twice by the pool,
  retries are bounded, fetches are serialisable, the statistics are counts.  Transactions: all or
  nothing at every level under any faults.  Election and scheduling: one holder per lock number while
  sessions live, one enqueue per tick that wins, nothing runs after a shutdown; every call of the elector
  ends after a bounded number of its own steps.  The process: the queue loses nothing between ticks and
  workers, the order of the shutdown leaves nothing running when the database is closed, the example
  starts unless its database cannot be opened, and its protected pages can be reached by nobody.  Lemmas beside the
  properties show behaviours at the edge: a lost session makes two leaders, two instances both
  enqueue a tick, a late failure report revives a completed job, a tick that ends after the interrupt
  leaves its job in a queue nobody reads, persistent jobs are never run, and others.

  \<^bold>\<open>Bounds.\<close>  Nothing runs on fuel: loops are structural recursion or have a termination proof, and what
  may block or run for ever (goroutines, a full queue) is a step relation or an explicit result.  Go's
  \<open>int64\<close> is \<open>int\<close> with the predicate \<open>in_int64\<close> and \<open>wrap64\<close> where overflow matters, bytes are \<open>8 word\<close>,
  hashes \<open>64 word\<close>.  Time is an \<open>int\<close> of nanoseconds or seconds, as the code compares it.

  \<^bold>\<open>Not modelled.\<close>  \<open>admin/admin.go\<close> (a struct nothing reads), \<open>testutil/\<close>, \<open>tools/\<close> and \<open>db/generate.go\<close> (no program
  logic), and of \<open>cmd/example/main.go\<close> the sockets of the HTTP server: a request is a call of the
  application's handler, the failure and the stop of the server are steps of the process.  Data races
  and the memory model are outside: code under a mutex is one step.
\<close>

end
